theory Spec2Isabelle
  imports Main
begin

unbundle bit_operations_syntax

section \<open>JavaScript values\<close>

text \<open>
  The values that flow through fibers and update queues: \<open>null\<close>, \<open>undefined\<close> and
  objects. An object carries its identity (what \<open>===\<close> compares) and its own enumerable
  properties in insertion order. Property values are numbers.
\<close>

datatype jsval = JSNull | JSUndefined | JSObject nat "(string \<times> int) list"

fun ownProps :: "jsval \<Rightarrow> (string \<times> int) list" where
  "ownProps (JSObject r ps) = ps"
| "ownProps JSNull = []"
| "ownProps JSUndefined = []"

fun setProp :: "string \<Rightarrow> int \<Rightarrow> (string \<times> int) list \<Rightarrow> (string \<times> int) list" where
  "setProp k v [] = [(k, v)]"
| "setProp k v ((k', v') # ps) = (if k = k' then (k, v) # ps else (k', v') # setProp k v ps)"

text \<open>
  \<open>Object.assign(target, source)\<close> on the property lists: every own property of the
  source is written to the target, in the source's order. A \<open>null\<close> or \<open>undefined\<close>
  source contributes nothing.
\<close>

fun assignProps :: "(string \<times> int) list \<Rightarrow> (string \<times> int) list \<Rightarrow> (string \<times> int) list" where
  "assignProps target [] = target"
| "assignProps target ((k, v) # src) = assignProps (setProp k v target) src"

section \<open>shared/ReactSideEffectTags.js and ReactTypeOfMode.js\<close>

definition NoEffect :: int where "NoEffect = 0"
definition PerformedWork :: int where "PerformedWork = 1"
definition Placement :: int where "Placement = 2"
definition Update :: int where "Update = 4"
definition PlacementAndUpdate :: int where "PlacementAndUpdate = 6"
definition Deletion :: int where "Deletion = 8"
definition ContentReset :: int where "ContentReset = 16"
definition Callback :: int where "Callback = 32"
definition DidCapture :: int where "DidCapture = 64"
definition Ref :: int where "Ref = 128"
definition Snapshot :: int where "Snapshot = 256"
definition Passive :: int where "Passive = 512"
definition Hydrating :: int where "Hydrating = 1024"
definition HydratingAndUpdate :: int where "HydratingAndUpdate = 1028"
definition HostEffectMask :: int where "HostEffectMask = 2047"
definition Incomplete :: int where "Incomplete = 2048"
definition ShouldCapture :: int where "ShouldCapture = 4096"

definition NoMode :: int where "NoMode = 0"
definition StrictMode :: int where "StrictMode = 1"
definition BlockingMode :: int where "BlockingMode = 2"
definition ConcurrentMode :: int where "ConcurrentMode = 4"
definition ProfileMode :: int where "ProfileMode = 8"

section \<open>Fibers (ReactFiber.js)\<close>

text \<open>
  Modelled from the spec: \<open>shared/ReactWorkTags\<close> is not among the sources. The code
  only compares a fiber's tag with \<open>HostRoot\<close> and \<open>ClassComponent\<close>; every other
  node kind is \<open>OtherWork\<close> with its number.
\<close>

datatype WorkTag = ClassComponent | HostRoot | OtherWork nat

record dependencies =
  dep_expirationTime :: int
  firstContext :: "nat option"
  responders :: "nat option"

text \<open>
  A fiber, with the fields \<open>FiberNode\<close> initialises (the DEV-only ones left out).
  Pointers to fibers and queues are addresses into the stores of the world below;
  \<open>null\<close> is \<open>None\<close>.
\<close>

record fiber =
  tag :: WorkTag
  key :: "string option"
  elementType :: jsval
  fiberType :: jsval
  stateNode :: "nat option"
  return :: "nat option"
  child :: "nat option"
  sibling :: "nat option"
  index :: nat
  ref :: jsval
  pendingProps :: jsval
  memoizedProps :: jsval
  updateQueue :: "nat option"
  memoizedState :: jsval
  dependencies :: "dependencies option"
  mode :: int
  effectTag :: int
  nextEffect :: "nat option"
  firstEffect :: "nat option"
  lastEffect :: "nat option"
  expirationTime :: int
  childExpirationTime :: int
  alternate :: "nat option"
  actualDuration :: int
  actualStartTime :: int
  selfBaseDuration :: int
  treeBaseDuration :: int

text \<open>
  Modelled from the spec: \<open>ReactFiberExpirationTime\<close> is not among the sources, so the
  constants and functions it exports are a parameter of every function that uses one.
\<close>

record expirationTimes =
  NoWork :: int
  Never :: int
  Idle :: int
  Sync :: int
  Batched :: int
  LOW_PRIORITY_EXPIRATION :: int
  computeInteractiveExpiration :: "int \<Rightarrow> int"
  computeAsyncExpiration :: "int \<Rightarrow> int"
  computeSuspenseExpiration :: "int \<Rightarrow> int \<Rightarrow> int"

definition FiberNode :: "expirationTimes \<Rightarrow> WorkTag \<Rightarrow> jsval \<Rightarrow> string option \<Rightarrow> int \<Rightarrow> fiber" where
  "FiberNode E tg pending k md =
     \<lparr> tag = tg, key = k, elementType = JSNull, fiberType = JSNull, stateNode = None,
       return = None, child = None, sibling = None, index = 0, ref = JSNull,
       pendingProps = pending, memoizedProps = JSNull, updateQueue = None,
       memoizedState = JSNull, dependencies = None, mode = md,
       effectTag = NoEffect, nextEffect = None, firstEffect = None, lastEffect = None,
       expirationTime = NoWork E, childExpirationTime = NoWork E, alternate = None,
       actualDuration = 0, actualStartTime = - 1, selfBaseDuration = 0,
       treeBaseDuration = 0 \<rparr>"

text \<open>
  The fiber store: every fiber lives at an address; \<open>fiberCount\<close> is the next address
  \<open>new FiberNode\<close> hands out.
\<close>

record fiberStore =
  fibers :: "nat \<Rightarrow> fiber"
  fiberCount :: nat

definition setFiber :: "nat \<Rightarrow> (fiber \<Rightarrow> fiber) \<Rightarrow> 'a fiberStore_scheme \<Rightarrow> 'a fiberStore_scheme" where
  "setFiber p f w = w\<lparr>fibers := (fibers w)(p := f (fibers w p))\<rparr>"

definition createFiber ::
  "expirationTimes \<Rightarrow> WorkTag \<Rightarrow> jsval \<Rightarrow> string option \<Rightarrow> int \<Rightarrow> 'a fiberStore_scheme
     \<Rightarrow> nat \<times> 'a fiberStore_scheme" where
  "createFiber E tg pending k md w =
     (fiberCount w,
      w\<lparr>fibers := (fibers w)(fiberCount w := FiberNode E tg pending k md),
        fiberCount := Suc (fiberCount w)\<rparr>)"

text \<open>
  \<open>createWorkInProgress(current, pendingProps, expirationTime)\<close>. The flag is
  \<open>enableProfilerTimer\<close>. The assignments after the branch read fields of \<open>current\<close>
  that none of them writes, so they are one record update.
\<close>

definition createWorkInProgress ::
  "expirationTimes \<Rightarrow> bool \<Rightarrow> nat \<Rightarrow> jsval \<Rightarrow> int \<Rightarrow> 'a fiberStore_scheme
     \<Rightarrow> nat \<times> 'a fiberStore_scheme" where
  "createWorkInProgress E enableProfilerTimer current pending expTime w =
     (let cur = fibers w current;
          (wip', w1) =
            (case alternate cur of
               None \<Rightarrow>
                 (let (wip, wa) = createFiber E (tag cur) pending (key cur) (mode cur) w;
                      wb = setFiber wip (\<lambda>f. f\<lparr>elementType := elementType cur,
                             fiberType := fiberType cur, stateNode := stateNode cur,
                             alternate := Some current\<rparr>) wa;
                      wc = setFiber current (\<lambda>f. f\<lparr>alternate := Some wip\<rparr>) wb
                  in (wip, wc))
             | Some wip \<Rightarrow>
                 (let wa = setFiber wip (\<lambda>f. f\<lparr>pendingProps := pending,
                             effectTag := NoEffect, nextEffect := None,
                             firstEffect := None, lastEffect := None\<rparr>) w;
                      wb = (if enableProfilerTimer
                            then setFiber wip (\<lambda>f. f\<lparr>actualDuration := 0,
                                   actualStartTime := - 1\<rparr>) wa
                            else wa)
                  in (wip, wb)));
          c = fibers w1 current;
          w2 = setFiber wip' (\<lambda>f. f\<lparr>
                 childExpirationTime := childExpirationTime c,
                 expirationTime := expirationTime c,
                 child := child c,
                 memoizedProps := memoizedProps c,
                 memoizedState := memoizedState c,
                 updateQueue := updateQueue c,
                 dependencies := dependencies c,
                 sibling := sibling c,
                 index := index c,
                 ref := ref c\<rparr>) w1;
          w3 = (if enableProfilerTimer
                then setFiber wip' (\<lambda>f. f\<lparr>
                       selfBaseDuration := selfBaseDuration (fibers w2 current),
                       treeBaseDuration := treeBaseDuration (fibers w2 current)\<rparr>) w2
                else w2)
      in (wip', w3))"

text \<open>\<open>resetWorkInProgress(workInProgress, renderExpirationTime)\<close>: the second pass.\<close>

definition resetWorkInProgress ::
  "expirationTimes \<Rightarrow> bool \<Rightarrow> nat \<Rightarrow> int \<Rightarrow> 'a fiberStore_scheme \<Rightarrow> nat \<times> 'a fiberStore_scheme" where
  "resetWorkInProgress E enableProfilerTimer wip renderExpTime w =
     (let w1 = setFiber wip (\<lambda>f. f\<lparr>effectTag := effectTag f AND Placement,
                 nextEffect := None, firstEffect := None, lastEffect := None\<rparr>) w;
          w2 =
            (case alternate (fibers w1 wip) of
               None \<Rightarrow>
                 (let wa = setFiber wip (\<lambda>f. f\<lparr>
                        childExpirationTime := NoWork E, expirationTime := renderExpTime,
                        child := None, memoizedProps := JSNull, memoizedState := JSNull,
                        updateQueue := None, dependencies := None\<rparr>) w1
                  in if enableProfilerTimer
                     then setFiber wip (\<lambda>f. f\<lparr>selfBaseDuration := 0,
                            treeBaseDuration := 0\<rparr>) wa
                     else wa)
             | Some current \<Rightarrow>
                 (let c = fibers w1 current;
                      wa = setFiber wip (\<lambda>f. f\<lparr>
                        childExpirationTime := childExpirationTime c,
                        expirationTime := expirationTime c,
                        child := child c, memoizedProps := memoizedProps c,
                        memoizedState := memoizedState c, updateQueue := updateQueue c,
                        dependencies := dependencies c\<rparr>) w1
                  in if enableProfilerTimer
                     then setFiber wip (\<lambda>f. f\<lparr>
                            selfBaseDuration := selfBaseDuration (fibers wa current),
                            treeBaseDuration := treeBaseDuration (fibers wa current)\<rparr>) wa
                     else wa))
      in (wip, w2))"

section \<open>Errors\<close>

text \<open>
  What a JavaScript \<open>throw\<close> carries: an \<open>invariant\<close> failure with its message, or a
  value thrown by user code (a callback, a lifecycle, a host operation).
\<close>

datatype error = InvariantViolation string | Thrown nat

section \<open>SchedulerWithReactIntegration.js\<close>

definition ImmediatePriority :: int where "ImmediatePriority = 99"
definition UserBlockingPriority :: int where "UserBlockingPriority = 98"
definition NormalPriority :: int where "NormalPriority = 97"
definition LowPriority :: int where "LowPriority = 96"
definition IdlePriority :: int where "IdlePriority = 95"
definition NoPriority :: int where "NoPriority = 90"

text \<open>
  Modelled from the spec: the \<open>scheduler\<close> package's priority levels are not among the
  sources. \<open>Scheduler_Unknown\<close> stands for any level outside the five the code names.
\<close>

datatype SchedulerPriority =
  Scheduler_ImmediatePriority | Scheduler_UserBlockingPriority | Scheduler_NormalPriority
| Scheduler_LowPriority | Scheduler_IdlePriority | Scheduler_Unknown

text \<open>\<open>getCurrentPriorityLevel()\<close>, from what \<open>Scheduler_getCurrentPriorityLevel()\<close> returns.\<close>

fun getCurrentPriorityLevel :: "SchedulerPriority \<Rightarrow> error + int" where
  "getCurrentPriorityLevel Scheduler_ImmediatePriority = Inr ImmediatePriority"
| "getCurrentPriorityLevel Scheduler_UserBlockingPriority = Inr UserBlockingPriority"
| "getCurrentPriorityLevel Scheduler_NormalPriority = Inr NormalPriority"
| "getCurrentPriorityLevel Scheduler_LowPriority = Inr LowPriority"
| "getCurrentPriorityLevel Scheduler_IdlePriority = Inr IdlePriority"
| "getCurrentPriorityLevel Scheduler_Unknown = Inl (InvariantViolation ''Unknown priority level.'')"

definition reactPriorityToSchedulerPriority :: "int \<Rightarrow> error + SchedulerPriority" where
  "reactPriorityToSchedulerPriority reactPriorityLevel =
     (if reactPriorityLevel = ImmediatePriority then Inr Scheduler_ImmediatePriority
      else if reactPriorityLevel = UserBlockingPriority then Inr Scheduler_UserBlockingPriority
      else if reactPriorityLevel = NormalPriority then Inr Scheduler_NormalPriority
      else if reactPriorityLevel = LowPriority then Inr Scheduler_LowPriority
      else if reactPriorityLevel = IdlePriority then Inr Scheduler_IdlePriority
      else Inl (InvariantViolation ''Unknown priority level.''))"

text \<open>
  A callback of the synchronous queue, by what one call of it does: it passes some
  callbacks to \<open>scheduleSyncCallback\<close>, then throws, or returns \<open>null\<close> or a
  continuation.
\<close>

datatype syncCallback =
  Throwing "syncCallback list" error
| Returning "syncCallback list" "syncCallback option"

text \<open>What the host scheduler is asked to run.\<close>

datatype hostTask = FlushSyncCallbackQueueImpl | FlushSyncCallbackQueue | OtherTask nat

text \<open>
  The module's variables, and of the host scheduler what the module touches: its task
  list (\<open>Scheduler_scheduleCallback\<close> appends a node, \<open>Scheduler_cancelCallback\<close>
  removes it) and its current priority level.
\<close>

record syncQueueState =
  syncQueue :: "syncCallback list option"
  immediateQueueCallbackNode :: "nat option"
  isFlushingSyncQueue :: bool
  hostTasks :: "(nat \<times> SchedulerPriority \<times> hostTask) list"
  hostTaskCount :: nat
  schedulerPriorityLevel :: SchedulerPriority

definition Scheduler_scheduleCallback ::
  "SchedulerPriority \<Rightarrow> hostTask \<Rightarrow> syncQueueState \<Rightarrow> nat \<times> syncQueueState" where
  "Scheduler_scheduleCallback priorityLevel task s =
     (hostTaskCount s,
      s\<lparr>hostTasks := hostTasks s @ [(hostTaskCount s, priorityLevel, task)],
        hostTaskCount := Suc (hostTaskCount s)\<rparr>)"

definition Scheduler_cancelCallback :: "nat \<Rightarrow> syncQueueState \<Rightarrow> syncQueueState" where
  "Scheduler_cancelCallback node s = s\<lparr>hostTasks := filter (\<lambda>t. fst t \<noteq> node) (hostTasks s)\<rparr>"

definition scheduleSyncCallback :: "syncCallback \<Rightarrow> syncQueueState \<Rightarrow> syncQueueState" where
  "scheduleSyncCallback callback s =
     (case syncQueue s of
        None \<Rightarrow>
          (let (node, s') = Scheduler_scheduleCallback Scheduler_ImmediatePriority
                              FlushSyncCallbackQueueImpl (s\<lparr>syncQueue := Some [callback]\<rparr>)
           in s'\<lparr>immediateQueueCallbackNode := Some node\<rparr>)
      | Some q \<Rightarrow> s\<lparr>syncQueue := Some (q @ [callback])\<rparr>)"

text \<open>
  \<open>do { callback = callback(isSync); } while (callback !== null)\<close>: the state after the
  calls, and the error if one of them threw.
\<close>

fun runCallback :: "syncCallback \<Rightarrow> syncQueueState \<Rightarrow> syncQueueState \<times> error option" where
  "runCallback (Throwing cs e) s = (fold scheduleSyncCallback cs s, Some e)"
| "runCallback (Returning cs None) s = (fold scheduleSyncCallback cs s, None)"
| "runCallback (Returning cs (Some k)) s = runCallback k (fold scheduleSyncCallback cs s)"

text \<open>
  What a callback hands to \<open>scheduleSyncCallback\<close> over its chain of calls, and how
  the chain ends: these describe a callback, the code does not compute them.
\<close>

fun scheduled :: "syncCallback \<Rightarrow> syncCallback list" where
  "scheduled (Throwing cs e) = cs"
| "scheduled (Returning cs None) = cs"
| "scheduled (Returning cs (Some k)) = cs @ scheduled k"

fun outcome :: "syncCallback \<Rightarrow> error option" where
  "outcome (Throwing cs e) = Some e"
| "outcome (Returning cs None) = None"
| "outcome (Returning cs (Some k)) = outcome k"

lemma fold_scheduleSyncCallback:
  "syncQueue s = Some q \<Longrightarrow> fold scheduleSyncCallback cs s = s\<lparr>syncQueue := Some (q @ cs)\<rparr>"
  by (induction cs arbitrary: s q) (simp_all add: scheduleSyncCallback_def)

lemma runCallback_queue:
  "syncQueue s = Some q \<Longrightarrow>
   runCallback c s = (s\<lparr>syncQueue := Some (q @ scheduled c)\<rparr>, outcome c)"
  by (induction c s arbitrary: q rule: runCallback.induct)
     (simp_all add: fold_scheduleSyncCallback)

lemma size_scheduled: "sum_list (map size (scheduled c)) < size c"
  by (induction c rule: scheduled.induct) (simp_all add: size_list_conv_sum_list)

text \<open>
  The \<open>for\<close> loop of \<open>flushSyncCallbackQueueImpl\<close>. The local \<open>queue\<close> is the array
  \<open>syncQueue\<close> points to, and \<open>scheduleSyncCallback\<close> pushes onto that array while the
  flush runs, so \<open>queue.length\<close> and \<open>queue[i]\<close> read the variable's array. The loop
  returns the index it stopped at and the error that stopped it. It ends because
  every callback schedules finitely many callbacks, each smaller than itself.
\<close>

function flushLoop :: "nat \<Rightarrow> syncQueueState \<Rightarrow> nat \<times> syncQueueState \<times> error option" where
  "flushLoop i s =
     (case syncQueue s of
        None \<Rightarrow> (i, s, None)
      | Some queue \<Rightarrow>
          if i < length queue
          then (case runCallback (queue ! i) s of
                  (s', None) \<Rightarrow> flushLoop (Suc i) s'
                | (s', Some e) \<Rightarrow> (i, s', Some e))
          else (i, s, None))"
  by pat_completeness auto
termination
  apply (relation "measure (\<lambda>(i, s). sum_list (map size
           (drop i (case syncQueue s of None \<Rightarrow> [] | Some q \<Rightarrow> q))))")
   apply simp
  apply (simp add: runCallback_queue Cons_nth_drop_Suc [symmetric])
  using size_scheduled apply auto
  done

text \<open>
  \<open>flushSyncCallbackQueueImpl()\<close>. \<open>runWithPriority(ImmediatePriority, ...)\<close> runs the
  loop at the scheduler's immediate priority and restores the previous level when the
  loop returns or throws. The \<open>finally\<close> clause resets the flag on both paths.
\<close>

definition flushSyncCallbackQueueImpl :: "syncQueueState \<Rightarrow> (error + unit) \<times> syncQueueState" where
  "flushSyncCallbackQueueImpl s =
     (if \<not> isFlushingSyncQueue s \<and> syncQueue s \<noteq> None
      then
        (let s1 = s\<lparr>isFlushingSyncQueue := True\<rparr>;
             previousPriorityLevel = schedulerPriorityLevel s1;
             s2 = s1\<lparr>schedulerPriorityLevel := Scheduler_ImmediatePriority\<rparr>;
             (i, s3, thrown) = flushLoop 0 s2;
             s4 = s3\<lparr>schedulerPriorityLevel := previousPriorityLevel\<rparr>
         in case thrown of
              None \<Rightarrow> (Inr (), s4\<lparr>syncQueue := None, isFlushingSyncQueue := False\<rparr>)
            | Some e \<Rightarrow>
                (let s5 = (case syncQueue s4 of
                             None \<Rightarrow> s4
                           | Some q \<Rightarrow> s4\<lparr>syncQueue := Some (drop (i + 1) q)\<rparr>);
                     (node, s6) = Scheduler_scheduleCallback Scheduler_ImmediatePriority
                                    FlushSyncCallbackQueue s5
                 in (Inl e, s6\<lparr>isFlushingSyncQueue := False\<rparr>)))
      else (Inr (), s))"

definition flushSyncCallbackQueue :: "syncQueueState \<Rightarrow> (error + unit) \<times> syncQueueState" where
  "flushSyncCallbackQueue s =
     (case immediateQueueCallbackNode s of
        Some node \<Rightarrow>
          flushSyncCallbackQueueImpl
            (Scheduler_cancelCallback node (s\<lparr>immediateQueueCallbackNode := None\<rparr>))
      | None \<Rightarrow> flushSyncCallbackQueueImpl s)"

section \<open>The world\<close>

text \<open>Modelled from the spec: \<open>ReactFiberSuspenseConfig\<close> is not among the sources; the
  code reads only \<open>timeoutMs\<close>.\<close>

record suspenseConfig =
  timeoutMs :: int

datatype UpdateTag = UpdateState | ReplaceState | ForceUpdate | CaptureUpdate

text \<open>
  An update's payload: a value, or an updater function. The function is called as
  \<open>payload.call(instance, prevState, nextProps)\<close>; being a HOL function it is pure
  and returns.
\<close>

datatype payload = PayloadValue jsval | PayloadFunction "jsval \<Rightarrow> jsval \<Rightarrow> jsval \<Rightarrow> jsval"

record update =
  expirationTime_u :: int
  suspenseConfig_u :: "suspenseConfig option"
  tag_u :: UpdateTag
  payload :: payload
  callback :: "nat option"
  next_u :: "nat option"
  nextEffect_u :: "nat option"

record updateQueue =
  baseState :: jsval
  firstUpdate :: "nat option"
  lastUpdate :: "nat option"
  firstCapturedUpdate :: "nat option"
  lastCapturedUpdate :: "nat option"
  firstEffect_q :: "nat option"
  lastEffect_q :: "nat option"
  firstCapturedEffect :: "nat option"
  lastCapturedEffect :: "nat option"

datatype RootExitStatus =
  RootIncomplete | RootFatalErrored | RootErrored | RootSuspended | RootSuspendedWithDelay
| RootCompleted

text \<open>Of a \<open>FiberRoot\<close>, the fields the commit reads and writes.\<close>

record fiberRoot =
  current :: nat
  finishedWork :: "nat option"
  finishedExpirationTime :: int
  callbackNode :: "nat option"
  callbackExpirationTime :: int
  callbackPriority :: int
  nextKnownPendingLevel :: int
  firstPendingTime :: int

text \<open>
  Modelled from the spec: the modules below are not among the sources
  (\<open>ReactFiberCommitWork\<close>, \<open>ReactFiberRoot\<close>, \<open>ReactFiberHostConfig\<close>, the tracing
  and DevTools hooks), and the callbacks of the synchronous queue re-enter the work
  loop. A call to one of them is recorded, with its arguments, in the order the code
  makes it.
\<close>

datatype call =
  CommitBeforeMutationEffectOnFiber nat
| CommitResetTextContent nat
| CommitDetachRef nat
| CommitPlacement nat
| CommitWork nat
| CommitDeletion nat
| CommitLayoutEffectOnFiber nat
| CommitAttachRef nat
| ScheduleFlushPassiveEffects
| PrepareForCommit nat
| ResetAfterCommit nat
| RequestPaint
| MarkRootFinishedAtTime nat int int
| MarkRootUpdatedAtTime nat int
| MarkRootSuspendedAtTime nat int
| EnsureRootIsScheduled nat
| SchedulePendingInteractions nat int
| OnCommitRoot "nat option" int
| FlushSyncCallbackQueueCall
| CallCallback nat
| CreateRootErrorUpdate nat nat error
| CreateClassErrorUpdate nat nat error
| CommitPassiveHookEffects nat
| FinishPendingInteractions nat int
| ScheduleInteractions nat int

text \<open>
  The stores of fibers, update queues, updates and roots, the allocation counters, and
  the module variables of \<open>ReactUpdateQueue\<close> and \<open>ReactFiberWorkLoop\<close>. Each
  recorded call comes with what a reader of \<open>root.current\<close> would see at that moment,
  for every root.
\<close>

record world = fiberStore +
  queues :: "nat \<Rightarrow> updateQueue"
  queueCount :: nat
  updates :: "nat \<Rightarrow> update"
  updateCount :: nat
  objectCount :: nat
  hasForceUpdate :: bool
  roots :: "nat \<Rightarrow> fiberRoot"
  executionContext :: int
  workInProgressRoot :: "nat option"
  workInProgress :: "nat option"
  renderExpirationTime :: int
  workInProgressRootExitStatus :: RootExitStatus
  workInProgressRootLatestProcessedExpirationTime :: int
  workInProgressRootLatestSuspenseTimeout :: int
  workInProgressRootCanSuspendUsingConfig :: "suspenseConfig option"
  workInProgressRootNextUnprocessedUpdateTime :: int
  nextEffect_g :: "nat option"
  hasUncaughtError :: bool
  firstUncaughtError :: "error option"
  legacyErrorBoundariesThatAlreadyFailed :: "nat list option"
  rootDoesHavePassiveEffects :: bool
  rootWithPendingPassiveEffects :: "nat option"
  pendingPassiveEffectsRenderPriority :: int
  pendingPassiveEffectsExpirationTime :: int
  nestedUpdateCount :: nat
  rootWithNestedUpdates :: "nat option"
  nestedPassiveUpdateCount :: nat
  spawnedWorkDuringRender :: "int list option"
  calls :: "(call \<times> (nat \<Rightarrow> nat)) list"

definition setQueue :: "nat \<Rightarrow> (updateQueue \<Rightarrow> updateQueue) \<Rightarrow> world \<Rightarrow> world" where
  "setQueue q f w = w\<lparr>queues := (queues w)(q := f (queues w q))\<rparr>"

definition setUpdate :: "nat \<Rightarrow> (update \<Rightarrow> update) \<Rightarrow> world \<Rightarrow> world" where
  "setUpdate u f w = w\<lparr>updates := (updates w)(u := f (updates w u))\<rparr>"

definition setRoot :: "nat \<Rightarrow> (fiberRoot \<Rightarrow> fiberRoot) \<Rightarrow> world \<Rightarrow> world" where
  "setRoot r f w = w\<lparr>roots := (roots w)(r := f (roots w r))\<rparr>"

definition record_call :: "call \<Rightarrow> world \<Rightarrow> world" where
  "record_call c w = w\<lparr>calls := calls w @ [(c, \<lambda>r. current (roots w r))]\<rparr>"

section \<open>ReactFiberWorkLoop.js: what processing an update queue touches\<close>

definition markRenderEventTimeAndConfig ::
  "expirationTimes \<Rightarrow> int \<Rightarrow> suspenseConfig option \<Rightarrow> world \<Rightarrow> world" where
  "markRenderEventTimeAndConfig E expTime config w =
     (let w1 = (if expTime < workInProgressRootLatestProcessedExpirationTime w \<and> expTime > Idle E
                then w\<lparr>workInProgressRootLatestProcessedExpirationTime := expTime\<rparr>
                else w)
      in case config of
           None \<Rightarrow> w1
         | Some c \<Rightarrow>
             if expTime < workInProgressRootLatestSuspenseTimeout w1 \<and> expTime > Idle E
             then w1\<lparr>workInProgressRootLatestSuspenseTimeout := expTime,
                     workInProgressRootCanSuspendUsingConfig := Some c\<rparr>
             else w1)"

definition markUnprocessedUpdateTime :: "int \<Rightarrow> world \<Rightarrow> world" where
  "markUnprocessedUpdateTime expTime w =
     (if expTime > workInProgressRootNextUnprocessedUpdateTime w
      then w\<lparr>workInProgressRootNextUnprocessedUpdateTime := expTime\<rparr>
      else w)"

section \<open>ReactUpdateQueue.js\<close>

definition createUpdateQueue :: "jsval \<Rightarrow> updateQueue" where
  "createUpdateQueue base =
     \<lparr> baseState = base, firstUpdate = None, lastUpdate = None,
       firstCapturedUpdate = None, lastCapturedUpdate = None,
       firstEffect_q = None, lastEffect_q = None,
       firstCapturedEffect = None, lastCapturedEffect = None \<rparr>"

definition cloneUpdateQueue :: "updateQueue \<Rightarrow> updateQueue" where
  "cloneUpdateQueue currentQueue =
     \<lparr> baseState = baseState currentQueue, firstUpdate = firstUpdate currentQueue,
       lastUpdate = lastUpdate currentQueue,
       firstCapturedUpdate = None, lastCapturedUpdate = None,
       firstEffect_q = None, lastEffect_q = None,
       firstCapturedEffect = None, lastCapturedEffect = None \<rparr>"

text \<open>An object literal of the module becomes a queue at a fresh address.\<close>

definition newQueue :: "updateQueue \<Rightarrow> world \<Rightarrow> nat \<times> world" where
  "newQueue q w =
     (queueCount w, w\<lparr>queues := (queues w)(queueCount w := q), queueCount := Suc (queueCount w)\<rparr>)"

definition createUpdate :: "int \<Rightarrow> suspenseConfig option \<Rightarrow> update" where
  "createUpdate expTime config =
     \<lparr> expirationTime_u = expTime, suspenseConfig_u = config, tag_u = UpdateState,
       payload = PayloadValue JSNull, callback = None, next_u = None, nextEffect_u = None \<rparr>"

definition appendUpdateToQueue :: "nat \<Rightarrow> nat \<Rightarrow> world \<Rightarrow> world" where
  "appendUpdateToQueue q u w =
     (case lastUpdate (queues w q) of
        None \<Rightarrow> setQueue q (\<lambda>x. x\<lparr>firstUpdate := Some u, lastUpdate := Some u\<rparr>) w
      | Some l \<Rightarrow>
          setQueue q (\<lambda>x. x\<lparr>lastUpdate := Some u\<rparr>)
            (setUpdate l (\<lambda>x. x\<lparr>next_u := Some u\<rparr>) w))"

text \<open>\<open>enqueueUpdate(fiber, update)\<close>, without its DEV warning.\<close>

definition enqueueUpdate :: "nat \<Rightarrow> nat \<Rightarrow> world \<Rightarrow> world" where
  "enqueueUpdate fib u w =
     (let (queue1, queue2, w1) =
            (case alternate (fibers w fib) of
               None \<Rightarrow>
                 (case updateQueue (fibers w fib) of
                    None \<Rightarrow>
                      (let (q, wa) = newQueue (createUpdateQueue (memoizedState (fibers w fib))) w
                       in (q, None, setFiber fib (\<lambda>f. f\<lparr>updateQueue := Some q\<rparr>) wa))
                  | Some q1 \<Rightarrow> (q1, None, w))
             | Some alt \<Rightarrow>
                 (case updateQueue (fibers w fib) of
                    None \<Rightarrow>
                      (case updateQueue (fibers w alt) of
                         None \<Rightarrow>
                           (let (q1, wa) =
                                  newQueue (createUpdateQueue (memoizedState (fibers w fib))) w;
                                wb = setFiber fib (\<lambda>f. f\<lparr>updateQueue := Some q1\<rparr>) wa;
                                (q2, wc) =
                                  newQueue (createUpdateQueue (memoizedState (fibers wb alt))) wb;
                                wd = setFiber alt (\<lambda>f. f\<lparr>updateQueue := Some q2\<rparr>) wc
                            in (q1, Some q2, wd))
                       | Some q2 \<Rightarrow>
                           (let (q1, wa) = newQueue (cloneUpdateQueue (queues w q2)) w
                            in (q1, Some q2, setFiber fib (\<lambda>f. f\<lparr>updateQueue := Some q1\<rparr>) wa)))
                  | Some q1 \<Rightarrow>
                      (case updateQueue (fibers w alt) of
                         None \<Rightarrow>
                           (let (q2, wa) = newQueue (cloneUpdateQueue (queues w q1)) w
                            in (q1, Some q2, setFiber alt (\<lambda>f. f\<lparr>updateQueue := Some q2\<rparr>) wa))
                       | Some q2 \<Rightarrow> (q1, Some q2, w))))
      in case queue2 of
           None \<Rightarrow> appendUpdateToQueue queue1 u w1
         | Some q2 \<Rightarrow>
             if queue1 = q2 then appendUpdateToQueue queue1 u w1
             else if lastUpdate (queues w1 queue1) = None \<or> lastUpdate (queues w1 q2) = None
             then appendUpdateToQueue q2 u (appendUpdateToQueue queue1 u w1)
             else setQueue q2 (\<lambda>x. x\<lparr>lastUpdate := Some u\<rparr>) (appendUpdateToQueue queue1 u w1))"

definition ensureWorkInProgressQueueIsAClone :: "nat \<Rightarrow> nat \<Rightarrow> world \<Rightarrow> nat \<times> world" where
  "ensureWorkInProgressQueueIsAClone wip q w =
     (case alternate (fibers w wip) of
        None \<Rightarrow> (q, w)
      | Some cur \<Rightarrow>
          if Some q = updateQueue (fibers w cur)
          then (let (q', wa) = newQueue (cloneUpdateQueue (queues w q)) w
                in (q', setFiber wip (\<lambda>f. f\<lparr>updateQueue := Some q'\<rparr>) wa))
          else (q, w))"

definition enqueueCapturedUpdate :: "nat \<Rightarrow> nat \<Rightarrow> world \<Rightarrow> world" where
  "enqueueCapturedUpdate wip u w =
     (let (q, w1) =
            (case updateQueue (fibers w wip) of
               None \<Rightarrow>
                 (let (q', wa) = newQueue (createUpdateQueue (memoizedState (fibers w wip))) w
                  in (q', setFiber wip (\<lambda>f. f\<lparr>updateQueue := Some q'\<rparr>) wa))
             | Some q0 \<Rightarrow> ensureWorkInProgressQueueIsAClone wip q0 w)
      in case lastCapturedUpdate (queues w1 q) of
           None \<Rightarrow> setQueue q (\<lambda>x. x\<lparr>firstCapturedUpdate := Some u,
                                    lastCapturedUpdate := Some u\<rparr>) w1
         | Some l \<Rightarrow>
             setQueue q (\<lambda>x. x\<lparr>lastCapturedUpdate := Some u\<rparr>)
               (setUpdate l (\<lambda>x. x\<lparr>next_u := Some u\<rparr>) w1))"

text \<open>
  \<open>getStateFromUpdate\<close>. \<open>Object.assign({}, prevState, partialState)\<close> makes a new
  object: it gets the next free identity. The \<open>CaptureUpdate\<close> case sets the fiber's
  flags and falls through to the merge.
\<close>

definition mergePartialState ::
  "update \<Rightarrow> jsval \<Rightarrow> jsval \<Rightarrow> jsval \<Rightarrow> world \<Rightarrow> jsval \<times> world" where
  "mergePartialState upd prevState nextProps inst w =
     (let partialState =
            (case payload upd of
               PayloadFunction f \<Rightarrow> f inst prevState nextProps
             | PayloadValue v \<Rightarrow> v)
      in if partialState = JSNull \<or> partialState = JSUndefined
         then (prevState, w)
         else (JSObject (objectCount w)
                 (assignProps (assignProps [] (ownProps prevState)) (ownProps partialState)),
               w\<lparr>objectCount := Suc (objectCount w)\<rparr>))"

definition getStateFromUpdate ::
  "nat \<Rightarrow> nat \<Rightarrow> nat \<Rightarrow> jsval \<Rightarrow> jsval \<Rightarrow> jsval \<Rightarrow> world \<Rightarrow> jsval \<times> world" where
  "getStateFromUpdate wip q u prevState nextProps inst w =
     (let upd = updates w u
      in case tag_u upd of
           ReplaceState \<Rightarrow>
             (case payload upd of
                PayloadFunction f \<Rightarrow> (f inst prevState nextProps, w)
              | PayloadValue v \<Rightarrow> (v, w))
         | CaptureUpdate \<Rightarrow>
             mergePartialState upd prevState nextProps inst
               (setFiber wip (\<lambda>f. f\<lparr>effectTag :=
                  (effectTag f AND NOT ShouldCapture) OR DidCapture\<rparr>) w)
         | UpdateState \<Rightarrow> mergePartialState upd prevState nextProps inst w
         | ForceUpdate \<Rightarrow> (prevState, w\<lparr>hasForceUpdate := True\<rparr>))"

text \<open>The local variables of \<open>processUpdateQueue\<close> that its two loops share.\<close>

record queuePass =
  resultState :: jsval
  newBaseState :: jsval
  newFirstUpdate :: "nat option"
  newFirstCapturedUpdate :: "nat option"
  newExpirationTime :: int

text \<open>Their values before the first loop, from \<open>queue.baseState\<close>.\<close>

definition initialPass :: "expirationTimes \<Rightarrow> jsval \<Rightarrow> queuePass" where
  "initialPass E base =
     \<lparr> resultState = base, newBaseState = base, newFirstUpdate = None,
       newFirstCapturedUpdate = None, newExpirationTime = NoWork E \<rparr>"

text \<open>Collecting an update with a callback into the queue's effect list.\<close>

definition pushEffect :: "nat \<Rightarrow> nat \<Rightarrow> nat \<Rightarrow> world \<Rightarrow> world" where
  "pushEffect wip q u w =
     (let w1 = setFiber wip (\<lambda>f. f\<lparr>effectTag := effectTag f OR Callback\<rparr>) w;
          w2 = setUpdate u (\<lambda>x. x\<lparr>nextEffect_u := None\<rparr>) w1
      in case lastEffect_q (queues w2 q) of
           None \<Rightarrow> setQueue q (\<lambda>x. x\<lparr>firstEffect_q := Some u, lastEffect_q := Some u\<rparr>) w2
         | Some l \<Rightarrow>
             setQueue q (\<lambda>x. x\<lparr>lastEffect_q := Some u\<rparr>)
               (setUpdate l (\<lambda>x. x\<lparr>nextEffect_u := Some u\<rparr>) w2))"

definition pushCapturedEffect :: "nat \<Rightarrow> nat \<Rightarrow> nat \<Rightarrow> world \<Rightarrow> world" where
  "pushCapturedEffect wip q u w =
     (let w1 = setFiber wip (\<lambda>f. f\<lparr>effectTag := effectTag f OR Callback\<rparr>) w;
          w2 = setUpdate u (\<lambda>x. x\<lparr>nextEffect_u := None\<rparr>) w1
      in case lastCapturedEffect (queues w2 q) of
           None \<Rightarrow> setQueue q (\<lambda>x. x\<lparr>firstCapturedEffect := Some u,
                                    lastCapturedEffect := Some u\<rparr>) w2
         | Some l \<Rightarrow>
             setQueue q (\<lambda>x. x\<lparr>lastCapturedEffect := Some u\<rparr>)
               (setUpdate l (\<lambda>x. x\<lparr>nextEffect_u := Some u\<rparr>) w2))"

text \<open>One turn of the first \<open>while\<close> loop, on the update the cursor points to.\<close>

definition processUpdate ::
  "expirationTimes \<Rightarrow> nat \<Rightarrow> nat \<Rightarrow> jsval \<Rightarrow> jsval \<Rightarrow> int \<Rightarrow> nat \<Rightarrow> queuePass \<Rightarrow> world
     \<Rightarrow> queuePass \<times> world" where
  "processUpdate E wip q props inst renderExpTime u p w =
     (let updateExpirationTime = expirationTime_u (updates w u)
      in if updateExpirationTime < renderExpTime
         then
           (let p1 = (if newFirstUpdate p = None
                      then p\<lparr>newFirstUpdate := Some u, newBaseState := resultState p\<rparr>
                      else p);
                p2 = (if newExpirationTime p1 < updateExpirationTime
                      then p1\<lparr>newExpirationTime := updateExpirationTime\<rparr>
                      else p1)
            in (p2, w))
         else
           (let w1 = markRenderEventTimeAndConfig E updateExpirationTime
                       (suspenseConfig_u (updates w u)) w;
                (s, w2) = getStateFromUpdate wip q u (resultState p) props inst w1;
                w3 = (if callback (updates w2 u) \<noteq> None then pushEffect wip q u w2 else w2)
            in (p\<lparr>resultState := s\<rparr>, w3)))"

text \<open>One turn of the second loop, over the captured updates.\<close>

definition processCapturedUpdate ::
  "nat \<Rightarrow> nat \<Rightarrow> jsval \<Rightarrow> jsval \<Rightarrow> int \<Rightarrow> nat \<Rightarrow> queuePass \<Rightarrow> world \<Rightarrow> queuePass \<times> world" where
  "processCapturedUpdate wip q props inst renderExpTime u p w =
     (let updateExpirationTime = expirationTime_u (updates w u)
      in if updateExpirationTime < renderExpTime
         then
           (let p1 = (if newFirstCapturedUpdate p = None
                      then (let pa = p\<lparr>newFirstCapturedUpdate := Some u\<rparr>
                            in if newFirstUpdate pa = None
                               then pa\<lparr>newBaseState := resultState pa\<rparr>
                               else pa)
                      else p);
                p2 = (if newExpirationTime p1 < updateExpirationTime
                      then p1\<lparr>newExpirationTime := updateExpirationTime\<rparr>
                      else p1)
            in (p2, w))
         else
           (let (s, w2) = getStateFromUpdate wip q u (resultState p) props inst w;
                w3 = (if callback (updates w2 u) \<noteq> None
                      then pushCapturedEffect wip q u w2 else w2)
            in (p\<lparr>resultState := s\<rparr>, w3)))"

text \<open>
  The two \<open>while (update !== null)\<close> loops. They follow \<open>next\<close> pointers in the store,
  so on a cyclic list they do not return: the result is \<open>None\<close> then.
\<close>

partial_function (option) processUpdates ::
  "expirationTimes \<Rightarrow> nat \<Rightarrow> nat \<Rightarrow> jsval \<Rightarrow> jsval \<Rightarrow> int \<Rightarrow> nat option \<Rightarrow> queuePass \<Rightarrow> world
     \<Rightarrow> (queuePass \<times> world) option" where
  "processUpdates E wip q props inst renderExpTime cursor p w =
     (case cursor of
        None \<Rightarrow> Some (p, w)
      | Some u \<Rightarrow>
          (case processUpdate E wip q props inst renderExpTime u p w of
             (p', w') \<Rightarrow>
               processUpdates E wip q props inst renderExpTime (next_u (updates w' u)) p' w'))"

partial_function (option) processCapturedUpdates ::
  "nat \<Rightarrow> nat \<Rightarrow> jsval \<Rightarrow> jsval \<Rightarrow> int \<Rightarrow> nat option \<Rightarrow> queuePass \<Rightarrow> world
     \<Rightarrow> (queuePass \<times> world) option" where
  "processCapturedUpdates wip q props inst renderExpTime cursor p w =
     (case cursor of
        None \<Rightarrow> Some (p, w)
      | Some u \<Rightarrow>
          (case processCapturedUpdate wip q props inst renderExpTime u p w of
             (p', w') \<Rightarrow>
               processCapturedUpdates wip q props inst renderExpTime (next_u (updates w' u)) p' w'))"

text \<open>The equations of the two loops, for running them on a concrete store.\<close>

declare processUpdates.simps [code]
declare processCapturedUpdates.simps [code]

text \<open>\<open>processUpdateQueue(workInProgress, queue, props, instance, renderExpirationTime)\<close>.\<close>

definition processUpdateQueue ::
  "expirationTimes \<Rightarrow> nat \<Rightarrow> nat \<Rightarrow> jsval \<Rightarrow> jsval \<Rightarrow> int \<Rightarrow> world \<Rightarrow> world option" where
  "processUpdateQueue E wip queue0 props inst renderExpTime w0 =
     (let (q, w1) = ensureWorkInProgressQueueIsAClone wip queue0 (w0\<lparr>hasForceUpdate := False\<rparr>);
          p0 = initialPass E (baseState (queues w1 q))
      in case processUpdates E wip q props inst renderExpTime (firstUpdate (queues w1 q)) p0 w1 of
           None \<Rightarrow> None
         | Some (p1, w2) \<Rightarrow>
             (case processCapturedUpdates wip q props inst renderExpTime
                     (firstCapturedUpdate (queues w2 q)) p1 w2 of
                None \<Rightarrow> None
              | Some (p2, w3) \<Rightarrow>
                  (let w4 = (if newFirstUpdate p2 = None
                             then setQueue q (\<lambda>x. x\<lparr>lastUpdate := None\<rparr>) w3 else w3);
                       w5 = (if newFirstCapturedUpdate p2 = None
                             then setQueue q (\<lambda>x. x\<lparr>lastCapturedUpdate := None\<rparr>) w4
                             else setFiber wip (\<lambda>f. f\<lparr>effectTag := effectTag f OR Callback\<rparr>) w4);
                       p3 = (if newFirstUpdate p2 = None \<and> newFirstCapturedUpdate p2 = None
                             then p2\<lparr>newBaseState := resultState p2\<rparr> else p2);
                       w6 = setQueue q (\<lambda>x. x\<lparr>baseState := newBaseState p3,
                              firstUpdate := newFirstUpdate p3,
                              firstCapturedUpdate := newFirstCapturedUpdate p3\<rparr>) w5;
                       w7 = markUnprocessedUpdateTime (newExpirationTime p3) w6
                   in Some (setFiber wip (\<lambda>f. f\<lparr>expirationTime := newExpirationTime p3,
                              memoizedState := resultState p3\<rparr>) w7))))"

text \<open>\<open>commitUpdateEffects(effect, instance)\<close>. A callback is a function of the caller, so the
  \<open>invariant\<close> of \<open>callCallback\<close> holds; its call is recorded.\<close>

partial_function (option) commitUpdateEffects :: "nat option \<Rightarrow> world \<Rightarrow> world option" where
  "commitUpdateEffects effect w =
     (case effect of
        None \<Rightarrow> Some w
      | Some e \<Rightarrow>
          let w1 = (case callback (updates w e) of
                      None \<Rightarrow> w
                    | Some cb \<Rightarrow>
                        record_call (CallCallback cb)
                          (setUpdate e (\<lambda>x. x\<lparr>callback := None\<rparr>) w))
          in commitUpdateEffects (nextEffect_u (updates w1 e)) w1)"

declare commitUpdateEffects.simps [code]

text \<open>\<open>commitUpdateQueue(finishedWork, finishedQueue, instance, renderExpirationTime)\<close>: it
  reads neither the fiber nor the expiration time.\<close>

definition commitUpdateQueue :: "nat \<Rightarrow> world \<Rightarrow> world option" where
  "commitUpdateQueue finishedQueue w =
     (let w1 = (if firstCapturedUpdate (queues w finishedQueue) \<noteq> None
                then (let wa = (case lastUpdate (queues w finishedQueue) of
                                  None \<Rightarrow> w
                                | Some l \<Rightarrow>
                                    setQueue finishedQueue
                                      (\<lambda>x. x\<lparr>lastUpdate := lastCapturedUpdate x\<rparr>)
                                      (setUpdate l
                                         (\<lambda>x. x\<lparr>next_u :=
                                                  firstCapturedUpdate (queues w finishedQueue)\<rparr>) w))
                      in setQueue finishedQueue
                           (\<lambda>x. x\<lparr>firstCapturedUpdate := None, lastCapturedUpdate := None\<rparr>) wa)
                else w)
      in case commitUpdateEffects (firstEffect_q (queues w1 finishedQueue)) w1 of
           None \<Rightarrow> None
         | Some w2 \<Rightarrow>
             (let w3 = setQueue finishedQueue
                         (\<lambda>x. x\<lparr>firstEffect_q := None, lastEffect_q := None\<rparr>) w2
              in case commitUpdateEffects (firstCapturedEffect (queues w3 finishedQueue)) w3 of
                   None \<Rightarrow> None
                 | Some w4 \<Rightarrow>
                     Some (setQueue finishedQueue
                             (\<lambda>x. x\<lparr>firstCapturedEffect := None,
                                    lastCapturedEffect := None\<rparr>) w4)))"

section \<open>Describing update lists\<close>

text \<open>
  The definitions of this section are not code of the repository: they say what a
  linked list in the store holds, and they restate a loop as a recursion over that
  list, so that properties of the loops can be stated.

  \<open>updateList us cursor xs\<close>: following \<open>next\<close> from \<open>cursor\<close> visits exactly the updates
  \<open>xs\<close> and then reaches \<open>null\<close>.
\<close>

primrec updateList :: "(nat \<Rightarrow> update) \<Rightarrow> nat option \<Rightarrow> nat list \<Rightarrow> bool" where
  "updateList us cursor [] = (cursor = None)"
| "updateList us cursor (x # xs) = (cursor = Some x \<and> updateList us (next_u (us x)) xs)"

text \<open>The turns of the first loop of \<open>processUpdateQueue\<close> on the updates \<open>xs\<close>, in order.\<close>

primrec runUpdates ::
  "expirationTimes \<Rightarrow> nat \<Rightarrow> nat \<Rightarrow> jsval \<Rightarrow> jsval \<Rightarrow> int \<Rightarrow> nat list \<Rightarrow> queuePass \<Rightarrow> world
     \<Rightarrow> queuePass \<times> world" where
  "runUpdates E wip q props inst t [] p w = (p, w)"
| "runUpdates E wip q props inst t (u # us) p w =
     (case processUpdate E wip q props inst t u p w of
        (p', w') \<Rightarrow> runUpdates E wip q props inst t us p' w')"

text \<open>The turns of the second loop on the captured updates \<open>xs\<close>.\<close>

primrec runCapturedUpdates ::
  "nat \<Rightarrow> nat \<Rightarrow> jsval \<Rightarrow> jsval \<Rightarrow> int \<Rightarrow> nat list \<Rightarrow> queuePass \<Rightarrow> world
     \<Rightarrow> queuePass \<times> world" where
  "runCapturedUpdates wip q props inst t [] p w = (p, w)"
| "runCapturedUpdates wip q props inst t (u # us) p w =
     (case processCapturedUpdate wip q props inst t u p w of
        (p', w') \<Rightarrow> runCapturedUpdates wip q props inst t us p' w')"

text \<open>
  What the loops leave alone: of an update everything but \<open>nextEffect\<close>, of a queue
  everything but its effect lists, of a fiber everything but its effect tag.
\<close>

definition static :: "update \<Rightarrow> update" where
  "static u = u\<lparr>nextEffect_u := None\<rparr>"

definition staticQueue :: "updateQueue \<Rightarrow> updateQueue" where
  "staticQueue x = x\<lparr>firstEffect_q := None, lastEffect_q := None,
                     firstCapturedEffect := None, lastCapturedEffect := None\<rparr>"

definition staticFiber :: "fiber \<Rightarrow> fiber" where
  "staticFiber f = f\<lparr>effectTag := 0\<rparr>"

definition sameStructure :: "world \<Rightarrow> world \<Rightarrow> bool" where
  "sameStructure w w' =
     ((\<forall>u. static (updates w' u) = static (updates w u)) \<and>
      (\<forall>q. staticQueue (queues w' q) = staticQueue (queues w q)) \<and>
      (\<forall>f. staticFiber (fibers w' f) = staticFiber (fibers w f)) \<and>
      queueCount w' = queueCount w)"

text \<open>An update is skipped by a pass at threshold \<open>t\<close> when its priority is below \<open>t\<close>.\<close>

definition skipped :: "world \<Rightarrow> int \<Rightarrow> nat \<Rightarrow> bool" where
  "skipped w t u = (expirationTime_u (updates w u) < t)"

text \<open>A merge-style payload that is a no-op on \<open>prevState\<close>: \<open>null\<close>, \<open>undefined\<close>, or a
  function returning one of them.\<close>

definition noopPayload :: "payload \<Rightarrow> jsval \<Rightarrow> jsval \<Rightarrow> jsval \<Rightarrow> bool" where
  "noopPayload pl inst prevState props =
     (case pl of
        PayloadValue v \<Rightarrow> v = JSNull \<or> v = JSUndefined
      | PayloadFunction f \<Rightarrow> f inst prevState props = JSNull \<or> f inst prevState props = JSUndefined)"

text \<open>
  The state the first loop of \<open>processUpdateQueue\<close> has computed after its turns on
  the updates \<open>us\<close>, starting from the queue's base state.
\<close>

definition stateAfter ::
  "expirationTimes \<Rightarrow> nat \<Rightarrow> nat \<Rightarrow> jsval \<Rightarrow> jsval \<Rightarrow> int \<Rightarrow> nat list \<Rightarrow> world \<Rightarrow> jsval" where
  "stateAfter E wip q props inst t us w =
     (let (q', w1) = ensureWorkInProgressQueueIsAClone wip q (w\<lparr>hasForceUpdate := False\<rparr>)
      in resultState (fst (runUpdates E wip q' props inst t us
                             (initialPass E (baseState (queues w q))) w1)))"

text \<open>
  What a state holds, apart from which object it is: its own properties. Two passes
  over the same updates allocate their merged objects at different identities.
\<close>

fun content :: "jsval \<Rightarrow> jsval" where
  "content (JSObject r ps) = JSObject 0 ps"
| "content JSNull = JSNull"
| "content JSUndefined = JSUndefined"

text \<open>
  A sequence of renders of a fiber, each with its own props, instance and expiration
  time: the render processes \<open>workInProgress.updateQueue\<close> when it is not \<open>null\<close>, as the
  callers of \<open>processUpdateQueue\<close> do, and the commit that follows it calls
  \<open>commitUpdateQueue\<close> on the processed queue.
\<close>

primrec renderPasses ::
  "expirationTimes \<Rightarrow> nat \<Rightarrow> (jsval \<times> jsval \<times> int) list \<Rightarrow> world \<Rightarrow> world option" where
  "renderPasses E wip [] w = Some w"
| "renderPasses E wip (pass # passes) w =
     (case updateQueue (fibers w wip) of
        None \<Rightarrow> renderPasses E wip passes w
      | Some q \<Rightarrow>
          (case processUpdateQueue E wip q (fst pass) (fst (snd pass)) (snd (snd pass)) w of
             None \<Rightarrow> None
           | Some w1 \<Rightarrow>
               (case updateQueue (fibers w1 wip) of
                  None \<Rightarrow> renderPasses E wip passes w1
                | Some q1 \<Rightarrow>
                    (case commitUpdateQueue q1 w1 of
                       None \<Rightarrow> None
                     | Some w2 \<Rightarrow> renderPasses E wip passes w2))))"

subsection \<open>Reachability along the next pointers\<close>

text \<open>\<open>reachable us cursor u\<close>: following \<open>next\<close> from \<open>cursor\<close> arrives at the update at
  address \<open>u\<close>.\<close>

inductive reachable :: "(nat \<Rightarrow> update) \<Rightarrow> nat option \<Rightarrow> nat \<Rightarrow> bool" for us where
  here: "reachable us (Some u) u"
| step: "reachable us (next_u (us p)) u \<Longrightarrow> reachable us (Some p) u"

code_pred reachable .





text \<open>"Both queues share a persistent, singly-linked list structure" (the module's header
  comment): when both queues are non-empty, the last update of \<open>q1\<close> is on the list of
  \<open>q2\<close>.\<close>

definition lastOnList :: "world \<Rightarrow> nat \<Rightarrow> nat \<Rightarrow> bool" where
  "lastOnList w q1 q2 =
     (case (lastUpdate (queues w q1), lastUpdate (queues w q2)) of
        (Some l1, Some l2) \<Rightarrow> reachable (updates w) (firstUpdate (queues w q2)) l1
      | _ \<Rightarrow> True)"


subsection \<open>ReactFiberWorkLoop: execution context and expiration times\<close>

definition NoContext :: int where "NoContext = 0"
definition BatchedContext :: int where "BatchedContext = 1"
definition EventContext :: int where "EventContext = 2"
definition DiscreteEventContext :: int where "DiscreteEventContext = 4"
definition LegacyUnbatchedContext :: int where "LegacyUnbatchedContext = 8"
definition RenderContext :: int where "RenderContext = 16"
definition CommitContext :: int where "CommitContext = 32"

text \<open>\<open>x | 0\<close> on an integral number.\<close>

definition toInt32 :: "int \<Rightarrow> int" where
  "toInt32 x = (x + 2 ^ 31) mod 2 ^ 32 - 2 ^ 31"

text \<open>The value of the local \<open>expirationTime\<close> of \<open>computeExpirationForFiber\<close> before its last
  \<open>if\<close>: the time computed from the Suspense timeout or from the Scheduler priority.\<close>

definition priorityExpirationTime ::
  "expirationTimes \<Rightarrow> int \<Rightarrow> int \<Rightarrow> suspenseConfig option \<Rightarrow> error + int" where
  "priorityExpirationTime E priorityLevel currentTime config =
     (case config of
        Some c \<Rightarrow>
          Inr (computeSuspenseExpiration E currentTime
                 (if toInt32 (timeoutMs c) \<noteq> 0 then toInt32 (timeoutMs c)
                  else LOW_PRIORITY_EXPIRATION E))
      | None \<Rightarrow>
          if priorityLevel = ImmediatePriority then Inr (Sync E)
          else if priorityLevel = UserBlockingPriority
          then Inr (computeInteractiveExpiration E currentTime)
          else if priorityLevel = NormalPriority \<or> priorityLevel = LowPriority
          then Inr (computeAsyncExpiration E currentTime)
          else if priorityLevel = IdlePriority then Inr (Idle E)
          else Inl (InvariantViolation ''Expected a valid priority level''))"

text \<open>\<open>computeExpirationForFiber(currentTime, fiber, suspenseConfig)\<close>;
  \<open>schedulerPriority\<close> is what \<open>Scheduler_getCurrentPriorityLevel()\<close> returns.\<close>

definition computeExpirationForFiber ::
  "expirationTimes \<Rightarrow> SchedulerPriority \<Rightarrow> world \<Rightarrow> int \<Rightarrow> nat \<Rightarrow> suspenseConfig option
     \<Rightarrow> error + int" where
  "computeExpirationForFiber E schedulerPriority w currentTime fib config =
     (let md = mode (fibers w fib) in
      if (md AND BlockingMode) = NoMode then Inr (Sync E)
      else
        case getCurrentPriorityLevel schedulerPriority of
          Inl e \<Rightarrow> Inl e
        | Inr priorityLevel \<Rightarrow>
            if (md AND ConcurrentMode) = NoMode
            then Inr (if priorityLevel = ImmediatePriority then Sync E else Batched E)
            else if (executionContext w AND RenderContext) \<noteq> NoContext
            then Inr (renderExpirationTime w)
            else
              case priorityExpirationTime E priorityLevel currentTime config of
                Inl e \<Rightarrow> Inl e
              | Inr expTime \<Rightarrow>
                  Inr (if workInProgressRoot w \<noteq> None \<and> expTime = renderExpirationTime w
                       then expTime - 1 else expTime))"

text \<open>
  Modelled from the spec: \<open>markRootSuspendedAtTime\<close> and \<open>markRootUpdatedAtTime\<close> belong to
  \<open>ReactFiberRoot\<close>, which is not among the sources; a call of either is recorded in the
  log of the world, and its effect on the fields of the root is left out.
\<close>

text \<open>The \<open>while (node !== null)\<close> loop of \<open>markUpdateTimeFromFiberToRoot\<close>; it returns the
  root it found and the world.\<close>

partial_function (option) markUpdateTimeLoop ::
  "int \<Rightarrow> nat option \<Rightarrow> world \<Rightarrow> (nat option \<times> world) option" where
  "markUpdateTimeLoop expTime node w =
     (case node of
        None \<Rightarrow> Some (None, w)
      | Some n \<Rightarrow>
          let w1 =
                (if childExpirationTime (fibers w n) < expTime
                 then (let wa = setFiber n (\<lambda>f. f\<lparr>childExpirationTime := expTime\<rparr>) w
                       in case alternate (fibers w n) of
                            None \<Rightarrow> wa
                          | Some a \<Rightarrow>
                              if childExpirationTime (fibers wa a) < expTime
                              then setFiber a (\<lambda>f. f\<lparr>childExpirationTime := expTime\<rparr>) wa
                              else wa)
                 else case alternate (fibers w n) of
                        None \<Rightarrow> w
                      | Some a \<Rightarrow>
                          if childExpirationTime (fibers w a) < expTime
                          then setFiber a (\<lambda>f. f\<lparr>childExpirationTime := expTime\<rparr>) w
                          else w)
          in if return (fibers w1 n) = None \<and> tag (fibers w1 n) = HostRoot
             then Some (stateNode (fibers w1 n), w1)
             else markUpdateTimeLoop expTime (return (fibers w1 n)) w1)"

declare markUpdateTimeLoop.simps [code]

definition markUpdateTimeFromFiberToRoot ::
  "nat \<Rightarrow> int \<Rightarrow> world \<Rightarrow> (nat option \<times> world) option" where
  "markUpdateTimeFromFiberToRoot fib expTime w =
     (let w1 = (if expirationTime (fibers w fib) < expTime
                then setFiber fib (\<lambda>f. f\<lparr>expirationTime := expTime\<rparr>) w else w);
          w2 = (case alternate (fibers w1 fib) of
                  None \<Rightarrow> w1
                | Some a \<Rightarrow>
                    if expirationTime (fibers w1 a) < expTime
                    then setFiber a (\<lambda>f. f\<lparr>expirationTime := expTime\<rparr>) w1 else w1);
          node = return (fibers w2 fib)
      in case (if node = None \<and> tag (fibers w2 fib) = HostRoot
               then Some (stateNode (fibers w2 fib), w2)
               else markUpdateTimeLoop expTime node w2) of
           None \<Rightarrow> None
         | Some (root, w3) \<Rightarrow>
             Some (root,
               case root of
                 None \<Rightarrow> w3
               | Some r \<Rightarrow>
                   let w4 =
                         (if workInProgressRoot w3 = Some r
                          then (let w5 = markUnprocessedUpdateTime expTime w3
                                in if workInProgressRootExitStatus w5 = RootSuspendedWithDelay
                                   then record_call
                                          (MarkRootSuspendedAtTime r (renderExpirationTime w5)) w5
                                   else w5)
                          else w3)
                   in record_call (MarkRootUpdatedAtTime r expTime) w4))"

text \<open>The two \<open>while (child !== null)\<close> loops of \<open>resetChildExpirationTime\<close>: without and
  with the profiler durations \<open>(newChildExpirationTime, actualDuration, treeBaseDuration)\<close>.\<close>

partial_function (option) bubbleExpirationTime ::
  "world \<Rightarrow> nat option \<Rightarrow> int \<Rightarrow> int option" where
  "bubbleExpirationTime w c newChildExpirationTime =
     (case c of
        None \<Rightarrow> Some newChildExpirationTime
      | Some ch \<Rightarrow>
          let childUpdateExpirationTime = expirationTime (fibers w ch);
              childChildExpirationTime = childExpirationTime (fibers w ch);
              n1 = (if childUpdateExpirationTime > newChildExpirationTime
                    then childUpdateExpirationTime else newChildExpirationTime);
              n2 = (if childChildExpirationTime > n1 then childChildExpirationTime else n1)
          in bubbleExpirationTime w (sibling (fibers w ch)) n2)"

declare bubbleExpirationTime.simps [code]

partial_function (option) bubbleProfiled ::
  "world \<Rightarrow> bool \<Rightarrow> nat option \<Rightarrow> int \<times> int \<times> int \<Rightarrow> (int \<times> int \<times> int) option" where
  "bubbleProfiled w shouldBubbleActualDurations c acc =
     (case c of
        None \<Rightarrow> Some acc
      | Some ch \<Rightarrow>
          let newChildExpirationTime = fst acc;
              childUpdateExpirationTime = expirationTime (fibers w ch);
              childChildExpirationTime = childExpirationTime (fibers w ch);
              n1 = (if childUpdateExpirationTime > newChildExpirationTime
                    then childUpdateExpirationTime else newChildExpirationTime);
              n2 = (if childChildExpirationTime > n1 then childChildExpirationTime else n1);
              ad = (if shouldBubbleActualDurations
                    then fst (snd acc) + actualDuration (fibers w ch) else fst (snd acc));
              tbd = snd (snd acc) + treeBaseDuration (fibers w ch)
          in bubbleProfiled w shouldBubbleActualDurations (sibling (fibers w ch)) (n2, ad, tbd))"

declare bubbleProfiled.simps [code]

definition resetChildExpirationTime ::
  "expirationTimes \<Rightarrow> bool \<Rightarrow> nat \<Rightarrow> world \<Rightarrow> world option" where
  "resetChildExpirationTime E enableProfilerTimer completedWork w =
     (if renderExpirationTime w \<noteq> Never E \<and>
         childExpirationTime (fibers w completedWork) = Never E
      then Some w
      else if enableProfilerTimer \<and> (mode (fibers w completedWork) AND ProfileMode) \<noteq> NoMode
      then (let shouldBubbleActualDurations =
                  (case alternate (fibers w completedWork) of
                     None \<Rightarrow> True
                   | Some a \<Rightarrow> child (fibers w completedWork) \<noteq> child (fibers w a))
            in case bubbleProfiled w shouldBubbleActualDurations (child (fibers w completedWork))
                      (NoWork E, actualDuration (fibers w completedWork),
                       selfBaseDuration (fibers w completedWork)) of
                 None \<Rightarrow> None
               | Some (n, ad, tbd) \<Rightarrow>
                   Some (setFiber completedWork
                           (\<lambda>f. f\<lparr>actualDuration := ad, treeBaseDuration := tbd,
                                  childExpirationTime := n\<rparr>) w))
      else case bubbleExpirationTime w (child (fibers w completedWork)) (NoWork E) of
             None \<Rightarrow> None
           | Some n \<Rightarrow>
               Some (setFiber completedWork (\<lambda>f. f\<lparr>childExpirationTime := n\<rparr>) w))"

subsection \<open>The fiber tree\<close>

text \<open>The fibers on the \<open>return\<close> path from \<open>cursor\<close>, and those on the \<open>sibling\<close> list.\<close>

primrec returnPath :: "(nat \<Rightarrow> fiber) \<Rightarrow> nat option \<Rightarrow> nat list \<Rightarrow> bool" where
  "returnPath fs cursor [] = (cursor = None)"
| "returnPath fs cursor (x # xs) = (cursor = Some x \<and> returnPath fs (return (fs x)) xs)"

primrec siblingList :: "(nat \<Rightarrow> fiber) \<Rightarrow> nat option \<Rightarrow> nat list \<Rightarrow> bool" where
  "siblingList fs cursor [] = (cursor = None)"
| "siblingList fs cursor (x # xs) = (cursor = Some x \<and> siblingList fs (sibling (fs x)) xs)"

text \<open>\<open>c\<close> is on the child list of \<open>p\<close>; \<open>d\<close> is a descendant of \<open>p\<close>.\<close>

inductive childOf :: "(nat \<Rightarrow> fiber) \<Rightarrow> nat \<Rightarrow> nat \<Rightarrow> bool" for fs where
  firstChild: "child (fs p) = Some c \<Longrightarrow> childOf fs p c"
| nextSibling: "childOf fs p c \<Longrightarrow> sibling (fs c) = Some s \<Longrightarrow> childOf fs p s"

inductive descendant :: "(nat \<Rightarrow> fiber) \<Rightarrow> nat \<Rightarrow> nat \<Rightarrow> bool" for fs where
  direct: "childOf fs p c \<Longrightarrow> descendant fs p c"
| deeper: "descendant fs p c \<Longrightarrow> childOf fs c d \<Longrightarrow> descendant fs p d"

text \<open>The invariant: the \<open>childExpirationTime\<close> of a fiber is at least the \<open>expirationTime\<close>
  of each of its descendants.\<close>

definition childPriorityInvariant :: "world \<Rightarrow> bool" where
  "childPriorityInvariant w =
     (\<forall>p d. descendant (fibers w) p d \<longrightarrow>
        expirationTime (fibers w d) \<le> childExpirationTime (fibers w p))"

text \<open>\<open>x\<close> and \<open>y\<close> are the same fiber or \<open>y\<close> is the alternate of \<open>x\<close>.\<close>

definition samePair :: "(nat \<Rightarrow> fiber) \<Rightarrow> nat \<Rightarrow> nat \<Rightarrow> bool" where
  "samePair fs x y = (x = y \<or> alternate (fs x) = Some y)"

text \<open>The \<open>return\<close> pointers agree with the child lists up to alternates: \<open>alternate\<close> is
  symmetric, the \<open>return\<close> pointers of a fiber and of its alternate name the same pair, and
  the \<open>return\<close> pointer of a child names its parent or the alternate of its parent.\<close>

definition consistentTree :: "(nat \<Rightarrow> fiber) \<Rightarrow> bool" where
  "consistentTree fs =
     ((\<forall>n a. alternate (fs n) = Some a \<longrightarrow>
         alternate (fs a) = Some n \<and>
         (case (return (fs n), return (fs a)) of
            (None, None) \<Rightarrow> True
          | (Some r, Some r') \<Rightarrow> samePair fs r r'
          | _ \<Rightarrow> False)) \<and>
      (\<forall>p c. childOf fs p c \<longrightarrow>
         (case return (fs c) of None \<Rightarrow> False | Some r \<Rightarrow> samePair fs r p)))"

text \<open>The invariant at every fiber but \<open>n\<close>.\<close>

definition childPriorityInvariantExcept :: "world \<Rightarrow> nat \<Rightarrow> bool" where
  "childPriorityInvariantExcept w n =
     (\<forall>p d. p \<noteq> n \<longrightarrow> descendant (fibers w) p d \<longrightarrow>
        expirationTime (fibers w d) \<le> childExpirationTime (fibers w p))"

text \<open>What the two functions leave alone: the pointers of every fiber; no time decreases.\<close>

definition raised :: "(nat \<Rightarrow> fiber) \<Rightarrow> (nat \<Rightarrow> fiber) \<Rightarrow> bool" where
  "raised fs fs' =
     (\<forall>n. return (fs' n) = return (fs n) \<and> child (fs' n) = child (fs n) \<and>
          sibling (fs' n) = sibling (fs n) \<and> alternate (fs' n) = alternate (fs n) \<and>
          tag (fs' n) = tag (fs n) \<and> stateNode (fs' n) = stateNode (fs n) \<and>
          expirationTime (fs n) \<le> expirationTime (fs' n) \<and>
          childExpirationTime (fs n) \<le> childExpirationTime (fs' n))"

text \<open>One iteration of the loop of \<open>markUpdateTimeFromFiberToRoot\<close> on the fiber \<open>n\<close>.\<close>

definition markNode :: "int \<Rightarrow> nat \<Rightarrow> world \<Rightarrow> world" where
  "markNode expTime n w =
     (if childExpirationTime (fibers w n) < expTime
      then (let wa = setFiber n (\<lambda>f. f\<lparr>childExpirationTime := expTime\<rparr>) w
            in case alternate (fibers w n) of
                 None \<Rightarrow> wa
               | Some a \<Rightarrow>
                   if childExpirationTime (fibers wa a) < expTime
                   then setFiber a (\<lambda>f. f\<lparr>childExpirationTime := expTime\<rparr>) wa
                   else wa)
      else case alternate (fibers w n) of
             None \<Rightarrow> w
           | Some a \<Rightarrow>
               if childExpirationTime (fibers w a) < expTime
               then setFiber a (\<lambda>f. f\<lparr>childExpirationTime := expTime\<rparr>) w
               else w)"

text \<open>The fibers the walk marks: those of the return path and their alternates.\<close>

definition marked :: "(nat \<Rightarrow> fiber) \<Rightarrow> nat list \<Rightarrow> nat \<Rightarrow> bool" where
  "marked fs xs n = (\<exists>x\<in>set xs. samePair fs x n)"

section \<open>ReactFiberWorkLoop.js: the phases of the commit\<close>

text \<open>
  Whether a class component can capture an error: \<open>typeof ctor.getDerivedStateFromError
  === 'function'\<close> is read from the fiber's \<open>type\<close>, \<open>typeof instance.componentDidCatch ===
  'function'\<close> from its \<open>stateNode\<close>. Both answers are parameters of the model.
\<close>

record boundaries =
  hasGetDerivedStateFromError :: "jsval \<Rightarrow> bool"
  hasComponentDidCatch :: "nat option \<Rightarrow> bool"

definition isAlreadyFailedLegacyErrorBoundary :: "nat option \<Rightarrow> world \<Rightarrow> bool" where
  "isAlreadyFailedLegacyErrorBoundary inst w =
     (case legacyErrorBoundariesThatAlreadyFailed w of
        None \<Rightarrow> False
      | Some failed \<Rightarrow> (case inst of None \<Rightarrow> False | Some i \<Rightarrow> i \<in> set failed))"

text \<open>
  Modelled from the spec: \<open>createCapturedValue\<close>, \<open>createRootErrorUpdate\<close> and
  \<open>createClassErrorUpdate\<close> belong to \<open>ReactCapturedValue\<close> and \<open>ReactFiberThrow\<close>, which are
  not among the sources. The spec has a commit-phase error "attributed to the nearest
  boundary via a synthetic update scheduled at synchronous priority", "converted into a
  captured Update": the update is \<open>createUpdate(expirationTime, null)\<close> with the tag
  \<open>CaptureUpdate\<close>, at a fresh address. What its payload and callback do with the error is
  left out; the call is recorded with the capturing fiber, the source fiber and the
  error.
\<close>

definition newUpdate :: "update \<Rightarrow> world \<Rightarrow> nat \<times> world" where
  "newUpdate u w =
     (updateCount w,
      w\<lparr>updates := (updates w)(updateCount w := u), updateCount := Suc (updateCount w)\<rparr>)"

definition createRootErrorUpdate :: "nat \<Rightarrow> nat \<Rightarrow> error \<Rightarrow> int \<Rightarrow> world \<Rightarrow> nat \<times> world" where
  "createRootErrorUpdate fib sourceFiber err expTime w =
     newUpdate ((createUpdate expTime None)\<lparr>tag_u := CaptureUpdate\<rparr>)
       (record_call (CreateRootErrorUpdate fib sourceFiber err) w)"

definition createClassErrorUpdate :: "nat \<Rightarrow> nat \<Rightarrow> error \<Rightarrow> int \<Rightarrow> world \<Rightarrow> nat \<times> world" where
  "createClassErrorUpdate fib sourceFiber err expTime w =
     newUpdate ((createUpdate expTime None)\<lparr>tag_u := CaptureUpdate\<rparr>)
       (record_call (CreateClassErrorUpdate fib sourceFiber err) w)"

text \<open>What \<open>captureCommitPhaseErrorOnRoot\<close> and the class-component branch of
  \<open>captureCommitPhaseError\<close> do once the update is made: \<open>enqueueUpdate\<close>,
  \<open>markUpdateTimeFromFiberToRoot\<close> at \<open>Sync\<close> and, when a root is found,
  \<open>ensureRootIsScheduled\<close> and \<open>schedulePendingInteractions\<close>, which are recorded.\<close>

definition scheduleCapturedUpdate :: "expirationTimes \<Rightarrow> nat \<Rightarrow> nat \<Rightarrow> world \<Rightarrow> world option" where
  "scheduleCapturedUpdate E fib u w =
     (case markUpdateTimeFromFiberToRoot fib (Sync E) (enqueueUpdate fib u w) of
        None \<Rightarrow> None
      | Some (root, w1) \<Rightarrow>
          Some (case root of
                  None \<Rightarrow> w1
                | Some r \<Rightarrow>
                    record_call (SchedulePendingInteractions r (Sync E))
                      (record_call (EnsureRootIsScheduled r) w1)))"

definition captureCommitPhaseErrorOnRoot ::
  "expirationTimes \<Rightarrow> nat \<Rightarrow> nat \<Rightarrow> error \<Rightarrow> world \<Rightarrow> world option" where
  "captureCommitPhaseErrorOnRoot E rootFiber sourceFiber err w =
     (let (u, w1) = createRootErrorUpdate rootFiber sourceFiber err (Sync E) w
      in scheduleCapturedUpdate E rootFiber u w1)"

text \<open>The \<open>while (fiber !== null)\<close> loop of \<open>captureCommitPhaseError\<close>.\<close>

partial_function (option) captureCommitPhaseErrorLoop ::
  "expirationTimes \<Rightarrow> boundaries \<Rightarrow> nat \<Rightarrow> error \<Rightarrow> nat option \<Rightarrow> world \<Rightarrow> world option" where
  "captureCommitPhaseErrorLoop E B sourceFiber err fib w =
     (case fib of
        None \<Rightarrow> Some w
      | Some f \<Rightarrow>
          if tag (fibers w f) = HostRoot
          then captureCommitPhaseErrorOnRoot E f sourceFiber err w
          else if tag (fibers w f) = ClassComponent \<and>
                  (hasGetDerivedStateFromError B (fiberType (fibers w f)) \<or>
                   (hasComponentDidCatch B (stateNode (fibers w f)) \<and>
                    \<not> isAlreadyFailedLegacyErrorBoundary (stateNode (fibers w f)) w))
          then (let (u, w1) = createClassErrorUpdate f sourceFiber err (Sync E) w
                in scheduleCapturedUpdate E f u w1)
          else captureCommitPhaseErrorLoop E B sourceFiber err (return (fibers w f)) w)"

declare captureCommitPhaseErrorLoop.simps [code]

definition captureCommitPhaseError ::
  "expirationTimes \<Rightarrow> boundaries \<Rightarrow> nat \<Rightarrow> error \<Rightarrow> world \<Rightarrow> world option" where
  "captureCommitPhaseError E B sourceFiber err w =
     (if tag (fibers w sourceFiber) = HostRoot
      then captureCommitPhaseErrorOnRoot E sourceFiber sourceFiber err w
      else captureCommitPhaseErrorLoop E B sourceFiber err (return (fibers w sourceFiber)) w)"

text \<open>
  A call of a function of \<open>ReactFiberCommitWork\<close>: it is recorded, and \<open>throws\<close> says
  whether it throws, and what, in the world it is called in. What these functions do to
  the host tree is outside the model. A step of a phase returns the error thrown, if any,
  with the world at that moment.
\<close>

definition invoke :: "(call \<Rightarrow> world \<Rightarrow> error option) \<Rightarrow> call \<Rightarrow> world \<Rightarrow> error option \<times> world" where
  "invoke throws c w = (throws c w, record_call c w)"

definition thenDo ::
  "error option \<times> world \<Rightarrow> (world \<Rightarrow> error option \<times> world) \<Rightarrow> error option \<times> world" where
  "thenDo r f = (case r of (Some e, w) \<Rightarrow> (Some e, w) | (None, w) \<Rightarrow> f w)"

text \<open>The body of the \<open>while\<close> loop of \<open>commitBeforeMutationEffects\<close>, of
  \<open>commitMutationEffects\<close> and of \<open>commitLayoutEffects\<close>, on the effect \<open>n\<close>, up to the
  step to the next effect. \<open>scheduleCallback(NormalPriority, ...)\<close> is recorded.\<close>

definition commitBeforeMutationEffectsOn ::
  "(call \<Rightarrow> world \<Rightarrow> error option) \<Rightarrow> nat \<Rightarrow> world \<Rightarrow> error option \<times> world" where
  "commitBeforeMutationEffectsOn throws n w =
     (let tg = effectTag (fibers w n)
      in thenDo (if (tg AND Snapshot) \<noteq> NoEffect
                 then invoke throws (CommitBeforeMutationEffectOnFiber n) w else (None, w))
           (\<lambda>w1. (None,
              if (tg AND Passive) \<noteq> NoEffect \<and> \<not> rootDoesHavePassiveEffects w1
              then record_call ScheduleFlushPassiveEffects
                     (w1\<lparr>rootDoesHavePassiveEffects := True\<rparr>)
              else w1)))"

definition commitMutationEffectsOn ::
  "(call \<Rightarrow> world \<Rightarrow> error option) \<Rightarrow> nat \<Rightarrow> world \<Rightarrow> error option \<times> world" where
  "commitMutationEffectsOn throws n w =
     (let tg = effectTag (fibers w n)
      in thenDo (if (tg AND ContentReset) \<noteq> 0
                 then invoke throws (CommitResetTextContent n) w else (None, w))
           (\<lambda>w1.
         thenDo (if (tg AND Ref) \<noteq> 0
                 then (case alternate (fibers w1 n) of
                         None \<Rightarrow> (None, w1)
                       | Some cur \<Rightarrow> invoke throws (CommitDetachRef cur) w1)
                 else (None, w1))
           (\<lambda>w2.
         (let primaryEffectTag = tg AND (Placement OR Update OR Deletion OR Hydrating)
          in if primaryEffectTag = Placement
             then thenDo (invoke throws (CommitPlacement n) w2)
                    (\<lambda>w3. (None, setFiber n (\<lambda>f. f\<lparr>effectTag := effectTag f AND NOT Placement\<rparr>) w3))
             else if primaryEffectTag = PlacementAndUpdate
             then thenDo (invoke throws (CommitPlacement n) w2)
                    (\<lambda>w3. invoke throws (CommitWork n)
                            (setFiber n (\<lambda>f. f\<lparr>effectTag := effectTag f AND NOT Placement\<rparr>) w3))
             else if primaryEffectTag = Hydrating
             then (None, setFiber n (\<lambda>f. f\<lparr>effectTag := effectTag f AND NOT Hydrating\<rparr>) w2)
             else if primaryEffectTag = HydratingAndUpdate
             then invoke throws (CommitWork n)
                    (setFiber n (\<lambda>f. f\<lparr>effectTag := effectTag f AND NOT Hydrating\<rparr>) w2)
             else if primaryEffectTag = Update then invoke throws (CommitWork n) w2
             else if primaryEffectTag = Deletion then invoke throws (CommitDeletion n) w2
             else (None, w2)))))"

definition commitLayoutEffectsOn ::
  "(call \<Rightarrow> world \<Rightarrow> error option) \<Rightarrow> nat \<Rightarrow> world \<Rightarrow> error option \<times> world" where
  "commitLayoutEffectsOn throws n w =
     (let tg = effectTag (fibers w n)
      in thenDo (if (tg AND (Update OR Callback)) \<noteq> 0
                 then invoke throws (CommitLayoutEffectOnFiber n) w else (None, w))
           (\<lambda>w1. if (tg AND Ref) \<noteq> 0 then invoke throws (CommitAttachRef n) w1 else (None, w1)))"

datatype commitPhase = BeforeMutation | Mutation | Layout

fun effectsOn ::
  "commitPhase \<Rightarrow> (call \<Rightarrow> world \<Rightarrow> error option) \<Rightarrow> nat \<Rightarrow> world \<Rightarrow> error option \<times> world" where
  "effectsOn BeforeMutation = commitBeforeMutationEffectsOn"
| "effectsOn Mutation = commitMutationEffectsOn"
| "effectsOn Layout = commitLayoutEffectsOn"

text \<open>\<open>commitBeforeMutationEffects()\<close>, \<open>commitMutationEffects(root, renderPriorityLevel)\<close> and
  \<open>commitLayoutEffects(root, committedExpirationTime)\<close>: the loop over the module variable
  \<open>nextEffect\<close>. The arguments go to the recorded calls only.\<close>

partial_function (option) commitEffects ::
  "commitPhase \<Rightarrow> (call \<Rightarrow> world \<Rightarrow> error option) \<Rightarrow> world \<Rightarrow> (error option \<times> world) option" where
  "commitEffects ph throws w =
     (case nextEffect_g w of
        None \<Rightarrow> Some (None, w)
      | Some n \<Rightarrow>
          (case effectsOn ph throws n w of
             (Some e, w1) \<Rightarrow> Some (Some e, w1)
           | (None, w1) \<Rightarrow>
               commitEffects ph throws
                 (w1\<lparr>nextEffect_g := (case nextEffect_g w1 of
                                          None \<Rightarrow> None
                                        | Some m \<Rightarrow> nextEffect (fibers w1 m))\<rparr>)))"

declare commitEffects.simps [code]

definition commitBeforeMutationEffects ::
  "(call \<Rightarrow> world \<Rightarrow> error option) \<Rightarrow> world \<Rightarrow> (error option \<times> world) option" where
  "commitBeforeMutationEffects = commitEffects BeforeMutation"

definition commitMutationEffects ::
  "(call \<Rightarrow> world \<Rightarrow> error option) \<Rightarrow> world \<Rightarrow> (error option \<times> world) option" where
  "commitMutationEffects = commitEffects Mutation"

definition commitLayoutEffects ::
  "(call \<Rightarrow> world \<Rightarrow> error option) \<Rightarrow> world \<Rightarrow> (error option \<times> world) option" where
  "commitLayoutEffects = commitEffects Layout"

text \<open>
  The \<open>do { try { ... } catch (error) { ... } } while (nextEffect !== null)\<close> loop that
  \<open>commitRootImpl\<close> runs around each of the three phases.
\<close>

partial_function (option) commitPhaseLoop ::
  "expirationTimes \<Rightarrow> boundaries \<Rightarrow> commitPhase \<Rightarrow> (call \<Rightarrow> world \<Rightarrow> error option) \<Rightarrow> world
     \<Rightarrow> (error option \<times> world) option" where
  "commitPhaseLoop E B ph throws w =
     (case commitEffects ph throws w of
        None \<Rightarrow> None
      | Some (None, w1) \<Rightarrow>
          if nextEffect_g w1 \<noteq> None then commitPhaseLoop E B ph throws w1 else Some (None, w1)
      | Some (Some e, w1) \<Rightarrow>
          (case nextEffect_g w1 of
             None \<Rightarrow> Some (Some (InvariantViolation ''Should be working on an effect.''), w1)
           | Some n \<Rightarrow>
               (case captureCommitPhaseError E B n e w1 of
                  None \<Rightarrow> None
                | Some w2 \<Rightarrow>
                    (let w3 = w2\<lparr>nextEffect_g := nextEffect (fibers w2 n)\<rparr>
                     in if nextEffect_g w3 \<noteq> None then commitPhaseLoop E B ph throws w3
                        else Some (None, w3)))))"

declare commitPhaseLoop.simps [code]

subsection \<open>The effect list\<close>

text \<open>The fibers on the \<open>nextEffect\<close> list from \<open>cursor\<close>.\<close>

primrec effectPath :: "(nat \<Rightarrow> fiber) \<Rightarrow> nat option \<Rightarrow> nat list \<Rightarrow> bool" where
  "effectPath fs cursor [] = (cursor = None)"
| "effectPath fs cursor (x # xs) = (cursor = Some x \<and> effectPath fs (nextEffect (fs x)) xs)"

text \<open>The fiber that captures an error thrown at \<open>sourceFiber\<close>: the source itself when it
  is a \<open>HostRoot\<close>, else the first fiber of its return path \<open>rs\<close> that is a \<open>HostRoot\<close> or a
  class component able to capture.\<close>

definition canCapture :: "boundaries \<Rightarrow> world \<Rightarrow> nat \<Rightarrow> bool" where
  "canCapture B w f =
     (tag (fibers w f) = HostRoot \<or>
      (tag (fibers w f) = ClassComponent \<and>
       (hasGetDerivedStateFromError B (fiberType (fibers w f)) \<or>
        (hasComponentDidCatch B (stateNode (fibers w f)) \<and>
         \<not> isAlreadyFailedLegacyErrorBoundary (stateNode (fibers w f)) w))))"

definition capturingFiber :: "boundaries \<Rightarrow> world \<Rightarrow> nat \<Rightarrow> nat list \<Rightarrow> nat option" where
  "capturingFiber B w sourceFiber rs =
     (if tag (fibers w sourceFiber) = HostRoot then Some sourceFiber
      else find (canCapture B w) rs)"

text \<open>The captured update made for the fiber \<open>b\<close>, and the world after its recorded call.\<close>

definition capturedUpdate :: "expirationTimes \<Rightarrow> world \<Rightarrow> nat \<Rightarrow> nat \<Rightarrow> error \<Rightarrow> nat \<times> world" where
  "capturedUpdate E w b sourceFiber err =
     (if tag (fibers w b) = HostRoot then createRootErrorUpdate b sourceFiber err (Sync E) w
      else createClassErrorUpdate b sourceFiber err (Sync E) w)"

text \<open>The return path \<open>rs\<close> of the fiber \<open>x\<close> ends at a \<open>HostRoot\<close>, as every path of a fiber
  tree does.\<close>

definition rootedPath :: "world \<Rightarrow> nat \<Rightarrow> nat list \<Rightarrow> bool" where
  "rootedPath w x rs =
     (returnPath (fibers w) (return (fibers w x)) rs \<and> tag (fibers w (last (x # rs))) = HostRoot)"

subsection \<open>Error containment, in the words of the specification\<close>

text \<open>
  What the specification says of one entry \<open>x\<close> of the effect list, whose return path is
  \<open>rs\<close>: the step of the phase is made on it. If a call of the step throws, the error is
  captured by the nearest ancestor able to capture, or by the root: a captured update at
  \<open>Sync\<close> is made for that fiber, enqueued on it and scheduled. In both cases the next
  entry is the one that follows \<open>x\<close> on the list. \<open>containedPhase\<close> does so for the entries of
  a list, one after the other.
\<close>

definition containedEffect ::
  "expirationTimes \<Rightarrow> boundaries \<Rightarrow> commitPhase \<Rightarrow> (call \<Rightarrow> world \<Rightarrow> error option)
     \<Rightarrow> nat \<times> nat list \<Rightarrow> world \<Rightarrow> world option" where
  "containedEffect E B ph throws xr w =
     (let x = fst xr;
          following = (\<lambda>v. v\<lparr>nextEffect_g := nextEffect (fibers w x)\<rparr>)
      in case effectsOn ph throws x w of
           (None, w1) \<Rightarrow> Some (following w1)
         | (Some e, w1) \<Rightarrow>
             (case capturingFiber B w1 x (snd xr) of
                None \<Rightarrow> None
              | Some b \<Rightarrow>
                  (case capturedUpdate E w1 b x e of
                     (u, w2) \<Rightarrow> map_option following (scheduleCapturedUpdate E b u w2))))"

primrec containedPhase ::
  "expirationTimes \<Rightarrow> boundaries \<Rightarrow> commitPhase \<Rightarrow> (call \<Rightarrow> world \<Rightarrow> error option)
     \<Rightarrow> (nat \<times> nat list) list \<Rightarrow> world \<Rightarrow> world option" where
  "containedPhase E B ph throws [] w = Some w"
| "containedPhase E B ph throws (xr # xrs) w =
     (case containedEffect E B ph throws xr w of
        None \<Rightarrow> None
      | Some w1 \<Rightarrow> containedPhase E B ph throws xrs w1)"

subsection \<open>What a commit phase leaves in place\<close>

text \<open>The effect lists, the return pointers and the tags of the fibers are the same in both
  worlds, and so is the module variable \<open>nextEffect\<close>.\<close>

definition sameLinks :: "world \<Rightarrow> world \<Rightarrow> bool" where
  "sameLinks w w' =
     ((\<forall>n. nextEffect (fibers w' n) = nextEffect (fibers w n) \<and>
           lastEffect (fibers w' n) = lastEffect (fibers w n) \<and>
           return (fibers w' n) = return (fibers w n) \<and>
           tag (fibers w' n) = tag (fibers w n)) \<and>
      nextEffect_g w' = nextEffect_g w)"

definition keeps :: "world \<Rightarrow> error option \<times> world \<Rightarrow> bool" where
  "keeps w r = sameLinks w (snd r)"

section \<open>Sample data\<close>

text \<open>
  Concrete inputs on which the theorems below are run. \<open>sampleTimes\<close> gives the
  expiration-time module one possible content: the sentinels in their documented
  order, and bucketing functions that only subtract a window.
\<close>

definition sampleTimes :: expirationTimes where
  "sampleTimes = \<lparr> NoWork = 0, Never = 1, Idle = 2, Sync = 1073741823, Batched = 1073741822,
      LOW_PRIORITY_EXPIRATION = 5000,
      computeInteractiveExpiration = (\<lambda>t. t - 15),
      computeAsyncExpiration = (\<lambda>t. t - 500),
      computeSuspenseExpiration = (\<lambda>t ms. t - ms div 10) \<rparr>"

definition sampleFiber :: fiber where
  "sampleFiber = FiberNode sampleTimes HostRoot JSNull None NoMode"

text \<open>A root fiber at address 0 and its alternate at address 1, which carries an
  \<open>Update\<close> effect and a stale effect-list pointer from the previous render.\<close>

definition pairedStore :: fiberStore where
  "pairedStore = \<lparr> fibers = (\<lambda>_. sampleFiber)
       (0 := sampleFiber\<lparr>alternate := Some 1, child := Some 2\<rparr>,
        1 := sampleFiber\<lparr>alternate := Some 0, effectTag := Update, nextEffect := Some 2\<rparr>),
     fiberCount = 3 \<rparr>"

text \<open>A synchronous queue of three callbacks whose second one throws.\<close>

definition throwingQueue :: syncQueueState where
  "throwingQueue = \<lparr> syncQueue = Some [Returning [] None, Throwing [] (Thrown 7),
                                      Returning [] None],
       immediateQueueCallbackNode = Some 0, isFlushingSyncQueue = False,
       hostTasks = [(0, Scheduler_ImmediatePriority, FlushSyncCallbackQueueImpl)],
       hostTaskCount = 1, schedulerPriorityLevel = Scheduler_NormalPriority \<rparr>"

text \<open>A world with nothing in it, from which the sample worlds are built.\<close>

definition sampleRoot :: fiberRoot where
  "sampleRoot = \<lparr> current = 0, finishedWork = None, finishedExpirationTime = 0,
       callbackNode = None, callbackExpirationTime = 0, callbackPriority = NoPriority,
       nextKnownPendingLevel = 0, firstPendingTime = 0 \<rparr>"

definition emptyWorld :: world where
  "emptyWorld = \<lparr> fibers = (\<lambda>_. sampleFiber), fiberCount = 0,
       queues = (\<lambda>_. createUpdateQueue JSNull), queueCount = 0,
       updates = (\<lambda>_. createUpdate 0 None), updateCount = 0,
       objectCount = 0, hasForceUpdate = False, roots = (\<lambda>_. sampleRoot),
       executionContext = 0, workInProgressRoot = None, workInProgress = None,
       renderExpirationTime = 0, workInProgressRootExitStatus = RootIncomplete,
       workInProgressRootLatestProcessedExpirationTime = 1073741823,
       workInProgressRootLatestSuspenseTimeout = 1073741823,
       workInProgressRootCanSuspendUsingConfig = None,
       workInProgressRootNextUnprocessedUpdateTime = 0,
       nextEffect_g = None, hasUncaughtError = False, firstUncaughtError = None,
       legacyErrorBoundariesThatAlreadyFailed = None,
       rootDoesHavePassiveEffects = False, rootWithPendingPassiveEffects = None,
       pendingPassiveEffectsRenderPriority = NoPriority,
       pendingPassiveEffectsExpirationTime = 0,
       nestedUpdateCount = 0, rootWithNestedUpdates = None,
       nestedPassiveUpdateCount = 0, spawnedWorkDuringRender = None, calls = [] \<rparr>"

definition mergeUpdate :: "int \<Rightarrow> jsval \<Rightarrow> nat option \<Rightarrow> update" where
  "mergeUpdate expTime partialState nxt =
     (createUpdate expTime None)\<lparr>payload := PayloadValue partialState, next_u := nxt\<rparr>"

text \<open>The queue of the module's header comment, A1 - B2 - C1 - D2, on the fiber at
  address 0: A and C expire at 10, B and D at 5; each update merges its letter.\<close>

definition letterWorld :: world where
  "letterWorld = emptyWorld\<lparr>
     fibers := (\<lambda>_. sampleFiber)(0 := sampleFiber\<lparr>updateQueue := Some 0\<rparr>),
     fiberCount := 1,
     queues := (\<lambda>_. createUpdateQueue JSNull)
        (0 := (createUpdateQueue (JSObject 0 []))\<lparr>firstUpdate := Some 0, lastUpdate := Some 3\<rparr>),
     queueCount := 1,
     updates := (\<lambda>_. createUpdate 0 None)
        (0 := mergeUpdate 10 (JSObject 1 [(''a'', 1)]) (Some 1),
         1 := mergeUpdate 5 (JSObject 2 [(''b'', 1)]) (Some 2),
         2 := mergeUpdate 10 (JSObject 3 [(''c'', 1)]) (Some 3),
         3 := mergeUpdate 5 (JSObject 4 [(''d'', 1)]) None),
     updateCount := 4, objectCount := 5\<rparr>"

text \<open>A queue holding one update whose payload is \<open>null\<close>.\<close>

definition nullUpdateWorld :: world where
  "nullUpdateWorld = emptyWorld\<lparr>
     fibers := (\<lambda>_. sampleFiber)(0 := sampleFiber\<lparr>updateQueue := Some 0\<rparr>),
     fiberCount := 1,
     queues := (\<lambda>_. createUpdateQueue JSNull)
        (0 := (createUpdateQueue (JSObject 0 [(''count'', 1)]))
                \<lparr>firstUpdate := Some 0, lastUpdate := Some 0\<rparr>),
     queueCount := 1,
     updates := (\<lambda>_. createUpdate 0 None)(0 := createUpdate 7 None),
     updateCount := 1, objectCount := 1\<rparr>"

text \<open>A queue with one low-priority update (expiring at 5) and one pending captured
  update of high priority (expiring at 10).\<close>

definition capturedWorld :: world where
  "capturedWorld = emptyWorld\<lparr>
     fibers := (\<lambda>_. sampleFiber)(0 := sampleFiber\<lparr>updateQueue := Some 0\<rparr>),
     fiberCount := 1,
     queues := (\<lambda>_. createUpdateQueue JSNull)
        (0 := (createUpdateQueue (JSObject 0 []))\<lparr>firstUpdate := Some 0, lastUpdate := Some 0,
                 firstCapturedUpdate := Some 1, lastCapturedUpdate := Some 1\<rparr>),
     queueCount := 1,
     updates := (\<lambda>_. createUpdate 0 None)
        (0 := mergeUpdate 5 (JSObject 1 [(''a'', 1)]) None,
         1 := (mergeUpdate 10 (JSObject 2 [(''c'', 1)]) None)\<lparr>tag_u := CaptureUpdate\<rparr>),
     updateCount := 2, objectCount := 3\<rparr>"





text \<open>A concurrent-mode fiber at address 0 while the root at address 0 is being rendered
  at expiration time 500: \<open>yieldedWorld\<close> outside the render context (the render has
  yielded), \<open>renderingWorld\<close> inside it.\<close>

definition yieldedWorld :: world where
  "yieldedWorld = emptyWorld\<lparr>
     fibers := (\<lambda>_. sampleFiber)
        (0 := sampleFiber\<lparr>mode := ConcurrentMode OR BlockingMode OR StrictMode\<rparr>),
     fiberCount := 1, workInProgressRoot := Some 0, workInProgress := Some 0,
     renderExpirationTime := 500\<rparr>"

definition renderingWorld :: world where
  "renderingWorld = yieldedWorld\<lparr>executionContext := RenderContext\<rparr>"

text \<open>A root fiber (address 0) with its alternate (address 1); each has one child, at
  addresses 2 and 3, which are alternates of one another and carry an update that
  expires at 5.\<close>

definition treeWorld :: world where
  "treeWorld = emptyWorld\<lparr>
     fibers := (\<lambda>_. sampleFiber)
        (0 := sampleFiber\<lparr>stateNode := Some 0, child := Some 2, alternate := Some 1,
                childExpirationTime := 5\<rparr>,
         1 := sampleFiber\<lparr>stateNode := Some 0, child := Some 3, alternate := Some 0,
                childExpirationTime := 5\<rparr>,
         2 := sampleFiber\<lparr>tag := ClassComponent, return := Some 0, alternate := Some 3,
                expirationTime := 5\<rparr>,
         3 := sampleFiber\<lparr>tag := ClassComponent, return := Some 1, alternate := Some 2,
                expirationTime := 5\<rparr>),
     fiberCount := 4\<rparr>"

text \<open>The completed fiber at address 1 is hidden: its \<open>childExpirationTime\<close> is \<open>Never\<close>
  while the render is at expiration time 5, the time of the update pending on its child.\<close>

definition hiddenWorld :: world where
  "hiddenWorld = treeWorld\<lparr>
     fibers := (fibers treeWorld)
        (1 := (fibers treeWorld 1)\<lparr>childExpirationTime := Never sampleTimes\<rparr>),
     renderExpirationTime := 5\<rparr>"

text \<open>A root fiber (address 0), a class component with \<open>componentDidCatch\<close> under it
  (address 1), and two host components under the class (addresses 2 and 3), both on the
  effect list with an \<open>Update\<close>. \<open>commitWork\<close> throws on the first of them.\<close>

definition commitWorld :: world where
  "commitWorld = emptyWorld\<lparr>
     fibers := (\<lambda>_. sampleFiber)
        (0 := sampleFiber\<lparr>stateNode := Some 0, child := Some 1\<rparr>,
         1 := sampleFiber\<lparr>tag := ClassComponent, stateNode := Some 1, return := Some 0,
                child := Some 2\<rparr>,
         2 := sampleFiber\<lparr>tag := OtherWork 5, return := Some 1, sibling := Some 3,
                effectTag := Update, nextEffect := Some 3\<rparr>,
         3 := sampleFiber\<lparr>tag := OtherWork 5, return := Some 1, effectTag := Update\<rparr>),
     fiberCount := 4,
     nextEffect_g := Some 2\<rparr>"

definition sampleBoundaries :: boundaries where
  "sampleBoundaries =
     \<lparr> hasGetDerivedStateFromError = (\<lambda>_. False),
       hasComponentDidCatch = (\<lambda>inst. inst = Some 1) \<rparr>"

definition throwingWork :: "call \<Rightarrow> world \<Rightarrow> error option" where
  "throwingWork c w = (case c of CommitWork n \<Rightarrow> if n = 2 then Some (Thrown 7) else None | _ \<Rightarrow> None)"

section \<open>ReactFiberWorkLoop.js: commitRootImpl\<close>

text \<open>
  The timers of \<open>ReactProfilerTimer\<close> and of \<open>ReactDebugFiberPerf\<close>, \<open>ReactCurrentOwner\<close>, the
  interaction reference of the tracing module (\<open>pushInteractions\<close>, \<open>popInteractions\<close>) and
  the warnings of the development build are left out. \<open>tracing\<close> is the flag
  \<open>enableSchedulerTracing\<close>. A function ends with \<open>None\<close> when it returns and with
  \<open>Some e\<close> when it throws \<open>e\<close>.
\<close>

definition getRemainingExpirationTime :: "fiber \<Rightarrow> int" where
  "getRemainingExpirationTime f =
     (if expirationTime f > childExpirationTime f then expirationTime f
      else childExpirationTime f)"

subsection \<open>flushPassiveEffects\<close>

text \<open>The \<open>while (effect !== null)\<close> loop of \<open>flushPassiveEffectsImpl\<close>.\<close>

partial_function (option) commitPassiveHookEffectsLoop ::
  "expirationTimes \<Rightarrow> boundaries \<Rightarrow> (call \<Rightarrow> world \<Rightarrow> error option) \<Rightarrow> nat option \<Rightarrow> world
     \<Rightarrow> world option" where
  "commitPassiveHookEffectsLoop E B throws effect w =
     (case effect of
        None \<Rightarrow> Some w
      | Some n \<Rightarrow>
          (case (case invoke throws (CommitPassiveHookEffects n) w of
                   (None, w1) \<Rightarrow> Some w1
                 | (Some e, w1) \<Rightarrow> captureCommitPhaseError E B n e w1) of
             None \<Rightarrow> None
           | Some w2 \<Rightarrow>
               commitPassiveHookEffectsLoop E B throws (nextEffect (fibers w2 n))
                 (setFiber n (\<lambda>f. f\<lparr>nextEffect := None\<rparr>) w2)))"

declare commitPassiveHookEffectsLoop.simps [code]

definition flushPassiveEffectsImpl ::
  "expirationTimes \<Rightarrow> bool \<Rightarrow> boundaries \<Rightarrow> (call \<Rightarrow> world \<Rightarrow> error option) \<Rightarrow> world
     \<Rightarrow> (error option \<times> world) option" where
  "flushPassiveEffectsImpl E tracing B throws w =
     (case rootWithPendingPassiveEffects w of
        None \<Rightarrow> Some (None, w)
      | Some root \<Rightarrow>
          (let expTime = pendingPassiveEffectsExpirationTime w;
               w1 = w\<lparr>rootWithPendingPassiveEffects := None,
                      pendingPassiveEffectsExpirationTime := NoWork E\<rparr>
           in if (executionContext w1 AND (RenderContext OR CommitContext)) \<noteq> NoContext
              then Some (Some (InvariantViolation
                     ''Cannot flush passive effects while already rendering.''), w1)
              else
                (let prevExecutionContext = executionContext w1;
                     w2 = w1\<lparr>executionContext := executionContext w1 OR CommitContext\<rparr>
                 in case commitPassiveHookEffectsLoop E B throws
                           (firstEffect (fibers w2 (current (roots w2 root)))) w2 of
                      None \<Rightarrow> None
                    | Some w3 \<Rightarrow>
                        (let w4 = (if tracing
                                   then record_call (FinishPendingInteractions root expTime) w3
                                   else w3);
                             w5 = record_call FlushSyncCallbackQueueCall
                                    (w4\<lparr>executionContext := prevExecutionContext\<rparr>)
                         in Some (None,
                              w5\<lparr>nestedPassiveUpdateCount :=
                                    (if rootWithPendingPassiveEffects w5 = None then 0
                                     else nestedPassiveUpdateCount w5 + 1)\<rparr>)))))"

text \<open>\<open>runWithPriority(priorityLevel, flushPassiveEffectsImpl)\<close> throws when
  \<open>reactPriorityToSchedulerPriority\<close> does.\<close>

definition flushPassiveEffects ::
  "expirationTimes \<Rightarrow> bool \<Rightarrow> boundaries \<Rightarrow> (call \<Rightarrow> world \<Rightarrow> error option) \<Rightarrow> world
     \<Rightarrow> (error option \<times> world) option" where
  "flushPassiveEffects E tracing B throws w =
     (if pendingPassiveEffectsRenderPriority w \<noteq> NoPriority
      then (let priorityLevel =
                  (if pendingPassiveEffectsRenderPriority w > NormalPriority then NormalPriority
                   else pendingPassiveEffectsRenderPriority w);
                w1 = w\<lparr>pendingPassiveEffectsRenderPriority := NoPriority\<rparr>
            in case reactPriorityToSchedulerPriority priorityLevel of
                 Inl e \<Rightarrow> Some (Some e, w1)
               | Inr p \<Rightarrow> flushPassiveEffectsImpl E tracing B throws w1)
      else Some (None, w))"

text \<open>The loop \<open>do { flushPassiveEffects(); } while (rootWithPendingPassiveEffects !==
  null)\<close> at the head of \<open>commitRootImpl\<close>.\<close>

partial_function (option) flushPassiveEffectsLoop ::
  "expirationTimes \<Rightarrow> bool \<Rightarrow> boundaries \<Rightarrow> (call \<Rightarrow> world \<Rightarrow> error option) \<Rightarrow> world
     \<Rightarrow> (error option \<times> world) option" where
  "flushPassiveEffectsLoop E tracing B throws w =
     (case flushPassiveEffects E tracing B throws w of
        None \<Rightarrow> None
      | Some (Some e, w1) \<Rightarrow> Some (Some e, w1)
      | Some (None, w1) \<Rightarrow>
          if rootWithPendingPassiveEffects w1 \<noteq> None
          then flushPassiveEffectsLoop E tracing B throws w1
          else Some (None, w1))"

declare flushPassiveEffectsLoop.simps [code]

subsection \<open>The effect list of the finished work\<close>

text \<open>"Get the list of effects": the first effect, after the root itself has been added to
  the end of its list when it has an effect.\<close>

definition getEffectList :: "nat \<Rightarrow> world \<Rightarrow> nat option \<times> world" where
  "getEffectList fw w =
     (if effectTag (fibers w fw) > PerformedWork
      then (case lastEffect (fibers w fw) of
              Some l \<Rightarrow>
                (let w1 = setFiber l (\<lambda>f. f\<lparr>nextEffect := Some fw\<rparr>) w
                 in (firstEffect (fibers w1 fw), w1))
            | None \<Rightarrow> (Some fw, w))
      else (firstEffect (fibers w fw), w))"

subsection \<open>The three phases and the swap\<close>

text \<open>The branch \<open>if (firstEffect !== null) { ... } else { ... }\<close>: with effects, the three
  loops, and \<open>root.current = finishedWork\<close> between the mutation loop and the layout loop;
  without, the assignment alone.\<close>

definition commitEffectList ::
  "expirationTimes \<Rightarrow> boundaries \<Rightarrow> (call \<Rightarrow> world \<Rightarrow> error option) \<Rightarrow> nat \<Rightarrow> nat \<Rightarrow> nat option
     \<Rightarrow> world \<Rightarrow> (error option \<times> world) option" where
  "commitEffectList E B throws root fw firstEff w =
     (if firstEff \<noteq> None
      then
        (let prevExecutionContext = executionContext w;
             w1 = record_call (PrepareForCommit root)
                    (w\<lparr>executionContext := executionContext w OR CommitContext\<rparr>)
         in case commitPhaseLoop E B BeforeMutation throws (w1\<lparr>nextEffect_g := firstEff\<rparr>) of
              None \<Rightarrow> None
            | Some (Some e, w2) \<Rightarrow> Some (Some e, w2)
            | Some (None, w2) \<Rightarrow>
                (case commitPhaseLoop E B Mutation throws (w2\<lparr>nextEffect_g := firstEff\<rparr>) of
                   None \<Rightarrow> None
                 | Some (Some e, w3) \<Rightarrow> Some (Some e, w3)
                 | Some (None, w3) \<Rightarrow>
                     (let w4 = record_call (ResetAfterCommit root) w3;
                          w5 = setRoot root (\<lambda>r. r\<lparr>current := fw\<rparr>) w4
                      in case commitPhaseLoop E B Layout throws
                                (w5\<lparr>nextEffect_g := firstEff\<rparr>) of
                           None \<Rightarrow> None
                         | Some (Some e, w6) \<Rightarrow> Some (Some e, w6)
                         | Some (None, w6) \<Rightarrow>
                             Some (None,
                               (record_call RequestPaint (w6\<lparr>nextEffect_g := None\<rparr>))
                                 \<lparr>executionContext := prevExecutionContext\<rparr>))))
      else Some (None, setRoot root (\<lambda>r. r\<lparr>current := fw\<rparr>) w))"

subsection \<open>After the phases\<close>

text \<open>The loop that clears the \<open>nextEffect\<close> pointers, over the module variable
  \<open>nextEffect\<close>.\<close>

partial_function (option) clearNextEffects :: "world \<Rightarrow> world option" where
  "clearNextEffects w =
     (case nextEffect_g w of
        None \<Rightarrow> Some w
      | Some n \<Rightarrow>
          clearNextEffects
            ((setFiber n (\<lambda>f. f\<lparr>nextEffect := None\<rparr>) w)
               \<lparr>nextEffect_g := nextEffect (fibers w n)\<rparr>))"

declare clearNextEffects.simps [code]

text \<open>From \<open>const rootDidHavePassiveEffects = rootDoesHavePassiveEffects\<close> to the end of
  \<open>commitRootImpl\<close>. The thrown value is \<open>firstUncaughtError\<close>, which may be \<open>null\<close>.\<close>

definition finishCommit ::
  "expirationTimes \<Rightarrow> bool \<Rightarrow> nat \<Rightarrow> nat \<Rightarrow> nat option \<Rightarrow> int \<Rightarrow> int \<Rightarrow> world
     \<Rightarrow> (error option option \<times> world) option" where
  "finishCommit E tracing root fw firstEff expTime renderPriorityLevel w =
     (let rootDidHavePassiveEffects = rootDoesHavePassiveEffects w
      in case (if rootDoesHavePassiveEffects w
               then Some (w\<lparr>rootDoesHavePassiveEffects := False,
                             rootWithPendingPassiveEffects := Some root,
                             pendingPassiveEffectsExpirationTime := expTime,
                             pendingPassiveEffectsRenderPriority := renderPriorityLevel\<rparr>)
               else clearNextEffects (w\<lparr>nextEffect_g := firstEff\<rparr>)) of
           None \<Rightarrow> None
         | Some w1 \<Rightarrow>
             (let remainingExpirationTime = firstPendingTime (roots w1 root);
                  w2 = (if remainingExpirationTime \<noteq> NoWork E
                        then (if tracing
                              then record_call
                                     (SchedulePendingInteractions root remainingExpirationTime)
                                     (case spawnedWorkDuringRender w1 of
                                        None \<Rightarrow> w1
                                      | Some expTimes \<Rightarrow>
                                          fold (\<lambda>t. record_call (ScheduleInteractions root t))
                                            expTimes (w1\<lparr>spawnedWorkDuringRender := None\<rparr>))
                              else w1)
                        else w1\<lparr>legacyErrorBoundariesThatAlreadyFailed := None\<rparr>);
                  w3 = (if tracing \<and> \<not> rootDidHavePassiveEffects
                        then record_call (FinishPendingInteractions root expTime) w2 else w2);
                  w4 = (if remainingExpirationTime = Sync E
                        then (if Some root = rootWithNestedUpdates w3
                              then w3\<lparr>nestedUpdateCount := nestedUpdateCount w3 + 1\<rparr>
                              else w3\<lparr>nestedUpdateCount := 0,
                                      rootWithNestedUpdates := Some root\<rparr>)
                        else w3\<lparr>nestedUpdateCount := 0\<rparr>);
                  w5 = record_call (EnsureRootIsScheduled root)
                         (record_call (OnCommitRoot (stateNode (fibers w4 fw)) expTime) w4)
              in if hasUncaughtError w5
                 then Some (Some (firstUncaughtError w5),
                        w5\<lparr>hasUncaughtError := False, firstUncaughtError := None\<rparr>)
                 else if (executionContext w5 AND LegacyUnbatchedContext) \<noteq> NoContext
                 then Some (None, w5)
                 else Some (None, record_call FlushSyncCallbackQueueCall w5)))"

subsection \<open>commitRootImpl\<close>

text \<open>\<open>commitRootImpl(root, renderPriorityLevel)\<close>. \<open>markRootFinishedAtTime\<close> belongs to
  \<open>ReactFiberRoot\<close> and is recorded; \<open>ensureRootIsScheduled\<close>, \<open>onCommitRoot\<close> and the host
  configuration are recorded too.\<close>

definition commitRootImpl ::
  "expirationTimes \<Rightarrow> bool \<Rightarrow> boundaries \<Rightarrow> (call \<Rightarrow> world \<Rightarrow> error option) \<Rightarrow> nat \<Rightarrow> int \<Rightarrow> world
     \<Rightarrow> (error option option \<times> world) option" where
  "commitRootImpl E tracing B throws root renderPriorityLevel w =
     (case flushPassiveEffectsLoop E tracing B throws w of
        None \<Rightarrow> None
      | Some (Some e, w0) \<Rightarrow> Some (Some (Some e), w0)
      | Some (None, w0) \<Rightarrow>
          if (executionContext w0 AND (RenderContext OR CommitContext)) \<noteq> NoContext
          then Some (Some (Some (InvariantViolation ''Should not already be working.'')), w0)
          else
            (case finishedWork (roots w0 root) of
               None \<Rightarrow> Some (None, w0)
             | Some fw \<Rightarrow>
                 (let expTime = finishedExpirationTime (roots w0 root);
                      w1 = setRoot root
                             (\<lambda>r. r\<lparr>finishedWork := None, finishedExpirationTime := NoWork E\<rparr>)
                             w0
                  in if fw = current (roots w1 root)
                     then Some (Some (Some (InvariantViolation
                            ''Cannot commit the same tree as before.'')), w1)
                     else
                       (let w2 = setRoot root
                                   (\<lambda>r. r\<lparr>callbackNode := None,
                                          callbackExpirationTime := NoWork E,
                                          callbackPriority := NoPriority,
                                          nextKnownPendingLevel := NoWork E\<rparr>) w1;
                            w3 = record_call
                                   (MarkRootFinishedAtTime root expTime
                                      (getRemainingExpirationTime (fibers w2 fw))) w2;
                            w4 = (if Some root = workInProgressRoot w3
                                  then w3\<lparr>workInProgressRoot := None, workInProgress := None,
                                          renderExpirationTime := NoWork E\<rparr>
                                  else w3);
                            (firstEff, w5) = getEffectList fw w4
                        in case commitEffectList E B throws root fw firstEff w5 of
                             None \<Rightarrow> None
                           | Some (Some e, w6) \<Rightarrow> Some (Some (Some e), w6)
                           | Some (None, w6) \<Rightarrow>
                               finishCommit E tracing root fw firstEff expTime
                                 renderPriorityLevel w6))))"

subsection \<open>What a reader of root.current sees\<close>

text \<open>The phase whose loop makes the call, for the calls that commit an effect.\<close>

fun phaseOf :: "call \<Rightarrow> commitPhase option" where
  "phaseOf (CommitBeforeMutationEffectOnFiber n) = Some BeforeMutation"
| "phaseOf (CommitResetTextContent n) = Some Mutation"
| "phaseOf (CommitDetachRef n) = Some Mutation"
| "phaseOf (CommitPlacement n) = Some Mutation"
| "phaseOf (CommitWork n) = Some Mutation"
| "phaseOf (CommitDeletion n) = Some Mutation"
| "phaseOf (CommitLayoutEffectOnFiber n) = Some Layout"
| "phaseOf (CommitAttachRef n) = Some Layout"
| "phaseOf c = None"

text \<open>\<open>adds P w w'\<close>: from \<open>w\<close> to \<open>w'\<close> no root has changed its \<open>current\<close>, and the log has
  grown by calls that satisfy \<open>P\<close>, each made while \<open>current\<close> was what it is in \<open>w\<close>.\<close>

definition adds :: "(call \<Rightarrow> bool) \<Rightarrow> world \<Rightarrow> world \<Rightarrow> bool" where
  "adds P w w' =
     ((\<forall>r. current (roots w' r) = current (roots w r)) \<and>
      take (length (calls w)) (calls w') = calls w \<and>
      (\<forall>e\<in>set (drop (length (calls w)) (calls w')).
          P (fst e) \<and> snd e = (\<lambda>r. current (roots w r))))"

definition addsTo :: "(call \<Rightarrow> bool) \<Rightarrow> world \<Rightarrow> error option \<times> world \<Rightarrow> bool" where
  "addsTo P w r = adds P w (snd r)"

text \<open>The \<open>nextEffect\<close> pointers and the \<open>return\<close> pointers have no cycle.\<close>

definition finiteEffectLists :: "world \<Rightarrow> bool" where
  "finiteEffectLists w = (\<forall>c. \<exists>xs. effectPath (fibers w) c xs)"

definition finiteReturnPaths :: "world \<Rightarrow> bool" where
  "finiteReturnPaths w = (\<forall>c. \<exists>rs. returnPath (fibers w) c rs)"

text \<open>\<open>shortened w w'\<close>: a \<open>nextEffect\<close> pointer of \<open>w'\<close> is the one of \<open>w\<close> or \<open>null\<close>; the
  \<open>lastEffect\<close> and \<open>return\<close> pointers are those of \<open>w\<close>.\<close>

definition shortened :: "world \<Rightarrow> world \<Rightarrow> bool" where
  "shortened w w' =
     (\<forall>n. (nextEffect (fibers w' n) = nextEffect (fibers w n) \<or>
           nextEffect (fibers w' n) = None) \<and>
          lastEffect (fibers w' n) = lastEffect (fibers w n) \<and>
          return (fibers w' n) = return (fibers w n))"

text \<open>What the log of a commit of \<open>fw\<close> on \<open>root\<close> shows: the calls come in two runs. Those
  of the first run were made while \<open>root.current\<close> was still \<open>old\<close>, and none of them
  belongs to the layout phase; those of the second run were made while \<open>root.current\<close> was
  \<open>fw\<close>, and none of them belongs to the phase before mutation or to the mutation
  phase.\<close>

definition swapsOnce :: "nat \<Rightarrow> nat \<Rightarrow> nat \<Rightarrow> (call \<times> (nat \<Rightarrow> nat)) list \<Rightarrow> bool" where
  "swapsOnce root old fw log =
     (\<exists>k \<le> length log.
        (\<forall>e\<in>set (take k log). snd e root = old \<and> phaseOf (fst e) \<noteq> Some Layout) \<and>
        (\<forall>e\<in>set (drop k log).
            snd e root = fw \<and> phaseOf (fst e) \<noteq> Some BeforeMutation \<and>
            phaseOf (fst e) \<noteq> Some Mutation))"

text \<open>A root (address 0) whose current tree is the fiber at address 0 and whose finished
  work is the fiber at address 4, the alternate of the root fiber: the class component
  (address 1) and the two host components (addresses 2 and 3) of \<open>commitWorld\<close> are under
  it, and the host components are its effect list.\<close>

definition finishedWorld :: world where
  "finishedWorld = commitWorld\<lparr>
     fibers := (fibers commitWorld)
        (0 := sampleFiber\<lparr>stateNode := Some 0, alternate := Some 4\<rparr>,
         1 := (fibers commitWorld 1)\<lparr>return := Some 4\<rparr>,
         4 := sampleFiber\<lparr>stateNode := Some 0, child := Some 1, alternate := Some 0,
                firstEffect := Some 2, lastEffect := Some 3\<rparr>),
     fiberCount := 5,
     roots := (\<lambda>_. sampleRoot)
        (0 := sampleRoot\<lparr>finishedWork := Some 4, finishedExpirationTime := 1073741823\<rparr>),
     nextEffect_g := None\<rparr>"

section \<open>Properties\<close>

subsection \<open>Reusing the alternate (createWorkInProgress)\<close>

text \<open>
  C8, as the code has it. When the current fiber \<open>cur\<close> already has an alternate,
  \<open>createWorkInProgress\<close> returns that alternate and allocates nothing. The
  alternate's effect tag is reset to \<open>NoEffect\<close> (all bits, not only the placement
  bit), its \<open>nextEffect\<close>, \<open>firstEffect\<close> and \<open>lastEffect\<close> are cleared, with the
  profiler on its \<open>actualDuration\<close> and \<open>actualStartTime\<close> are reset, it receives the
  new pending props, and its child pointer, memoized props, memoized state, update
  queue and dependencies are those of \<open>cur\<close>. No other fiber changes.
\<close>

theorem createWorkInProgress_reuses_alternate:
  "alternate (fibers w cur) = Some wip \<Longrightarrow>
   (case createWorkInProgress E prof cur pending t w of (r, w') \<Rightarrow>
      r = wip \<and> fiberCount w' = fiberCount w \<and>
      effectTag (fibers w' wip) = NoEffect \<and>
      nextEffect (fibers w' wip) = None \<and> firstEffect (fibers w' wip) = None \<and>
      lastEffect (fibers w' wip) = None \<and>
      (prof \<longrightarrow> actualDuration (fibers w' wip) = 0 \<and> actualStartTime (fibers w' wip) = - 1) \<and>
      pendingProps (fibers w' wip) = pending \<and>
      child (fibers w' wip) = child (fibers w cur) \<and>
      memoizedProps (fibers w' wip) = memoizedProps (fibers w cur) \<and>
      memoizedState (fibers w' wip) = memoizedState (fibers w cur) \<and>
      updateQueue (fibers w' wip) = updateQueue (fibers w cur) \<and>
      dependencies (fibers w' wip) = dependencies (fibers w cur) \<and>
      (\<forall>p. p \<noteq> wip \<longrightarrow> fibers w' p = fibers w p))"
  by (simp add: createWorkInProgress_def setFiber_def Let_def)

theorem createWorkInProgress_reuses_alternate_witness:
  "alternate (fibers pairedStore 0) = Some 1 \<and>
   fst (createWorkInProgress sampleTimes False 0 JSNull 0 pairedStore) = 1 \<and>
   effectTag (fibers (snd (createWorkInProgress sampleTimes False 0 JSNull 0 pairedStore)) 1) = 0 \<and>
   nextEffect (fibers (snd (createWorkInProgress sampleTimes False 0 JSNull 0 pairedStore)) 1) = None \<and>
   child (fibers (snd (createWorkInProgress sampleTimes False 0 JSNull 0 pairedStore)) 1) = Some 2"
proof -
  have h: "alternate (fibers pairedStore 0) = Some 1"
    by (simp add: pairedStore_def)
  show ?thesis
    using h createWorkInProgress_reuses_alternate
            [OF h, where E = sampleTimes and prof = False and pending = JSNull and t = 0]
    by (simp add: split_beta NoEffect_def pairedStore_def)
qed

text \<open>
  C8 as the claim words it fails: the alternate at address 1 carries the \<open>Update\<close>
  effect, whose value minus the placement bit is still \<open>Update\<close>, and
  \<open>createWorkInProgress\<close> leaves it with no effect at all.
\<close>

theorem createWorkInProgress_effectTag_counterexample:
  "alternate (fibers pairedStore 0) = Some 1 \<and>
   effectTag (fibers (snd (createWorkInProgress sampleTimes False 0 JSNull 0 pairedStore)) 1)
     \<noteq> effectTag (fibers pairedStore 1) AND NOT Placement"
  by (simp add: createWorkInProgress_def setFiber_def Let_def pairedStore_def sampleFiber_def
      FiberNode_def NoEffect_def Update_def Placement_def)

subsection \<open>Flushing the synchronous queue\<close>

lemma flushLoop_throw:
  "syncQueue s = Some (ds @ pre @ c # rest) \<Longrightarrow> length ds = i \<Longrightarrow>
   \<forall>p \<in> set pre. outcome p = None \<Longrightarrow> outcome c = Some e \<Longrightarrow>
   flushLoop i s =
     (i + length pre,
      s\<lparr>syncQueue := Some (ds @ pre @ c # rest @ concat (map scheduled pre) @ scheduled c)\<rparr>,
      Some e)"
proof (induction pre arbitrary: s ds i rest)
  case Nil
  then show ?case
    by (simp add: runCallback_queue nth_append)
next
  case (Cons p pre)
  let ?s' = "s\<lparr>syncQueue := Some ((ds @ [p]) @ pre @ c # (rest @ scheduled p))\<rparr>"
  have run: "runCallback p s = (?s', None)"
    using Cons.prems by (simp add: runCallback_queue)
  have step: "flushLoop i s = flushLoop (Suc i) ?s'"
    using Cons.prems run by (simp add: nth_append)
  have "flushLoop (Suc i) ?s' =
     (Suc i + length pre,
      ?s'\<lparr>syncQueue := Some ((ds @ [p]) @ pre @ c # (rest @ scheduled p) @
         concat (map scheduled pre) @ scheduled c)\<rparr>, Some e)"
    by (rule Cons.IH) (use Cons.prems in simp_all)
  then show ?case
    using step by simp
qed

text \<open>
  C9. A flush that is not re-entrant finds the queue \<open>pre @ c # rest\<close>, where the
  callbacks of \<open>pre\<close> finish and \<open>c\<close> throws \<open>e\<close>. Then the flush throws \<open>e\<close> to
  its caller, after this bookkeeping: the queue holds the entries after \<open>c\<close> (those of
  \<open>rest\<close>, then whatever the callbacks that ran had scheduled), the host scheduler has
  one new task, \<open>flushSyncCallbackQueue\<close> at immediate priority, the flag is reset and
  the scheduler's priority level is restored.
\<close>

theorem flushSyncCallbackQueueImpl_requeues_on_throw:
  assumes "\<not> isFlushingSyncQueue s"
    and "syncQueue s = Some (pre @ c # rest)"
    and "\<forall>p \<in> set pre. outcome p = None"
    and "outcome c = Some e"
  shows "\<exists>s'. flushSyncCallbackQueueImpl s = (Inl e, s') \<and>
           syncQueue s' = Some (rest @ concat (map scheduled pre) @ scheduled c) \<and>
           hostTasks s' = hostTasks s @
             [(hostTaskCount s, Scheduler_ImmediatePriority, FlushSyncCallbackQueue)] \<and>
           \<not> isFlushingSyncQueue s' \<and>
           schedulerPriorityLevel s' = schedulerPriorityLevel s"
proof -
  let ?s2 = "s\<lparr>isFlushingSyncQueue := True,
                schedulerPriorityLevel := Scheduler_ImmediatePriority\<rparr>"
  have "flushLoop 0 ?s2 =
     (0 + length pre,
      ?s2\<lparr>syncQueue := Some ([] @ pre @ c # rest @ concat (map scheduled pre) @ scheduled c)\<rparr>,
      Some e)"
    by (rule flushLoop_throw) (use assms in simp_all)
  then show ?thesis
    using assms
    by (simp add: flushSyncCallbackQueueImpl_def Scheduler_scheduleCallback_def Let_def)
qed

theorem flushSyncCallbackQueueImpl_requeues_on_throw_witness:
  "fst (flushSyncCallbackQueueImpl throwingQueue) = Inl (Thrown 7) \<and>
   syncQueue (snd (flushSyncCallbackQueueImpl throwingQueue)) = Some [Returning [] None] \<and>
   hostTasks (snd (flushSyncCallbackQueueImpl throwingQueue)) =
     [(0, Scheduler_ImmediatePriority, FlushSyncCallbackQueueImpl),
      (1, Scheduler_ImmediatePriority, FlushSyncCallbackQueue)] \<and>
   \<not> isFlushingSyncQueue (snd (flushSyncCallbackQueueImpl throwingQueue))"
proof -
  have a: "\<not> isFlushingSyncQueue throwingQueue"
    by (simp add: throwingQueue_def)
  have b: "syncQueue throwingQueue =
             Some ([Returning [] None] @ Throwing [] (Thrown 7) # [Returning [] None])"
    by (simp add: throwingQueue_def)
  have c: "\<forall>p \<in> set [Returning [] None]. outcome p = None"
    by simp
  have d: "outcome (Throwing [] (Thrown 7)) = Some (Thrown 7)"
    by simp
  from flushSyncCallbackQueueImpl_requeues_on_throw [OF a b c d]
  obtain s' where "flushSyncCallbackQueueImpl throwingQueue = (Inl (Thrown 7), s')"
    and "syncQueue s' = Some ([Returning [] None] @ concat (map scheduled [Returning [] None])
            @ scheduled (Throwing [] (Thrown 7)))"
    and "hostTasks s' = hostTasks throwingQueue @
            [(hostTaskCount throwingQueue, Scheduler_ImmediatePriority, FlushSyncCallbackQueue)]"
    and "\<not> isFlushingSyncQueue s'"
    by blast
  then show ?thesis
    by (simp add: throwingQueue_def)
qed

subsection \<open>The loops of processUpdateQueue on a list of updates\<close>

lemma sameStructure_refl [simp]: "sameStructure w w"
  by (simp add: sameStructure_def)

lemma sameStructure_trans: "sameStructure a b \<Longrightarrow> sameStructure b c \<Longrightarrow> sameStructure a c"
  by (simp add: sameStructure_def)

lemma sameStructure_update:
  assumes "sameStructure w w'"
  shows "next_u (updates w' u) = next_u (updates w u)"
    and "expirationTime_u (updates w' u) = expirationTime_u (updates w u)"
    and "tag_u (updates w' u) = tag_u (updates w u)"
    and "payload (updates w' u) = payload (updates w u)"
    and "callback (updates w' u) = callback (updates w u)"
    and "suspenseConfig_u (updates w' u) = suspenseConfig_u (updates w u)"
proof -
  have e: "static (updates w' u) = static (updates w u)"
    using assms by (simp add: sameStructure_def)
  show "next_u (updates w' u) = next_u (updates w u)"
    using arg_cong [OF e, of next_u] by (simp add: static_def)
  show "expirationTime_u (updates w' u) = expirationTime_u (updates w u)"
    using arg_cong [OF e, of expirationTime_u] by (simp add: static_def)
  show "tag_u (updates w' u) = tag_u (updates w u)"
    using arg_cong [OF e, of tag_u] by (simp add: static_def)
  show "payload (updates w' u) = payload (updates w u)"
    using arg_cong [OF e, of payload] by (simp add: static_def)
  show "callback (updates w' u) = callback (updates w u)"
    using arg_cong [OF e, of callback] by (simp add: static_def)
  show "suspenseConfig_u (updates w' u) = suspenseConfig_u (updates w u)"
    using arg_cong [OF e, of suspenseConfig_u] by (simp add: static_def)
qed

lemma sameStructure_queue:
  assumes "sameStructure w w'"
  shows "baseState (queues w' q) = baseState (queues w q)"
    and "firstUpdate (queues w' q) = firstUpdate (queues w q)"
    and "lastUpdate (queues w' q) = lastUpdate (queues w q)"
    and "firstCapturedUpdate (queues w' q) = firstCapturedUpdate (queues w q)"
    and "lastCapturedUpdate (queues w' q) = lastCapturedUpdate (queues w q)"
proof -
  have e: "staticQueue (queues w' q) = staticQueue (queues w q)"
    using assms by (simp add: sameStructure_def)
  show "baseState (queues w' q) = baseState (queues w q)"
    using arg_cong [OF e, of baseState] by (simp add: staticQueue_def)
  show "firstUpdate (queues w' q) = firstUpdate (queues w q)"
    using arg_cong [OF e, of firstUpdate] by (simp add: staticQueue_def)
  show "lastUpdate (queues w' q) = lastUpdate (queues w q)"
    using arg_cong [OF e, of lastUpdate] by (simp add: staticQueue_def)
  show "firstCapturedUpdate (queues w' q) = firstCapturedUpdate (queues w q)"
    using arg_cong [OF e, of firstCapturedUpdate] by (simp add: staticQueue_def)
  show "lastCapturedUpdate (queues w' q) = lastCapturedUpdate (queues w q)"
    using arg_cong [OF e, of lastCapturedUpdate] by (simp add: staticQueue_def)
qed

lemma sameStructure_fiber:
  assumes "sameStructure w w'"
  shows "alternate (fibers w' f) = alternate (fibers w f)"
    and "updateQueue (fibers w' f) = updateQueue (fibers w f)"
    and "memoizedState (fibers w' f) = memoizedState (fibers w f)"
    and "expirationTime (fibers w' f) = expirationTime (fibers w f)"
proof -
  have e: "staticFiber (fibers w' f) = staticFiber (fibers w f)"
    using assms by (simp add: sameStructure_def)
  show "alternate (fibers w' f) = alternate (fibers w f)"
    using arg_cong [OF e, of alternate] by (simp add: staticFiber_def)
  show "updateQueue (fibers w' f) = updateQueue (fibers w f)"
    using arg_cong [OF e, of updateQueue] by (simp add: staticFiber_def)
  show "memoizedState (fibers w' f) = memoizedState (fibers w f)"
    using arg_cong [OF e, of memoizedState] by (simp add: staticFiber_def)
  show "expirationTime (fibers w' f) = expirationTime (fibers w f)"
    using arg_cong [OF e, of expirationTime] by (simp add: staticFiber_def)
qed

lemma updateList_same:
  "sameStructure w w' \<Longrightarrow> updateList (updates w') c xs = updateList (updates w) c xs"
  by (induction xs arbitrary: c) (simp_all add: sameStructure_update)

lemma sameStructure_mark: "sameStructure w (markRenderEventTimeAndConfig E t c w)"
  by (simp add: sameStructure_def markRenderEventTimeAndConfig_def Let_def split: option.splits)

lemma sameStructure_merge: "sameStructure w (snd (mergePartialState upd s props inst w))"
  by (simp add: sameStructure_def mergePartialState_def Let_def)

lemma sameStructure_effectTag: "sameStructure w (setFiber p (\<lambda>f. f\<lparr>effectTag := g f\<rparr>) w)"
  by (simp add: sameStructure_def setFiber_def staticFiber_def)

lemma sameStructure_getState:
  "sameStructure w (snd (getStateFromUpdate wip q u s props inst w))"
proof (cases "tag_u (updates w u)")
  case CaptureUpdate
  then show ?thesis
    using sameStructure_trans [OF sameStructure_effectTag sameStructure_merge]
    by (simp add: getStateFromUpdate_def Let_def)
next
  case UpdateState
  then show ?thesis
    using sameStructure_merge by (simp add: getStateFromUpdate_def Let_def)
next
  case ReplaceState
  then show ?thesis
    by (simp add: getStateFromUpdate_def Let_def split: payload.splits)
next
  case ForceUpdate
  then show ?thesis
    by (simp add: getStateFromUpdate_def Let_def sameStructure_def)
qed

lemma sameStructure_pushEffect: "sameStructure w (pushEffect wip q u w)"
  by (simp add: sameStructure_def pushEffect_def Let_def setFiber_def setUpdate_def
      setQueue_def static_def staticQueue_def staticFiber_def split: option.splits)

lemma sameStructure_pushCapturedEffect: "sameStructure w (pushCapturedEffect wip q u w)"
  by (simp add: sameStructure_def pushCapturedEffect_def Let_def setFiber_def setUpdate_def
      setQueue_def static_def staticQueue_def staticFiber_def split: option.splits)

lemma sameStructure_processUpdate:
  "sameStructure w (snd (processUpdate E wip q props inst t u p w))"
proof (cases "expirationTime_u (updates w u) < t")
  case True
  then show ?thesis by (simp add: processUpdate_def Let_def)
next
  case False
  let ?w1 = "markRenderEventTimeAndConfig E (expirationTime_u (updates w u))
               (suspenseConfig_u (updates w u)) w"
  let ?r = "getStateFromUpdate wip q u (resultState p) props inst ?w1"
  have a: "sameStructure w (snd ?r)"
    using sameStructure_trans [OF sameStructure_mark sameStructure_getState] .
  have b: "sameStructure w (pushEffect wip q u (snd ?r))"
    using sameStructure_trans [OF a sameStructure_pushEffect] .
  show ?thesis
    using False a b by (simp add: processUpdate_def Let_def split_beta)
qed

lemma sameStructure_processCapturedUpdate:
  "sameStructure w (snd (processCapturedUpdate wip q props inst t u p w))"
proof (cases "expirationTime_u (updates w u) < t")
  case True
  then show ?thesis by (simp add: processCapturedUpdate_def Let_def)
next
  case False
  let ?r = "getStateFromUpdate wip q u (resultState p) props inst w"
  have a: "sameStructure w (snd ?r)"
    by (rule sameStructure_getState)
  have b: "sameStructure w (pushCapturedEffect wip q u (snd ?r))"
    using sameStructure_trans [OF a sameStructure_pushCapturedEffect] .
  show ?thesis
    using False a b by (simp add: processCapturedUpdate_def Let_def split_beta)
qed

lemma sameStructure_runUpdates:
  "sameStructure w (snd (runUpdates E wip q props inst t xs p w))"
proof (induction xs arbitrary: p w)
  case Nil
  show ?case by simp
next
  case (Cons x xs)
  obtain p' w' where step: "processUpdate E wip q props inst t x p w = (p', w')"
    by (cases "processUpdate E wip q props inst t x p w")
  have "sameStructure w w'"
    using sameStructure_processUpdate [of w E wip q props inst t x p] step by simp
  then show ?case
    using step sameStructure_trans [OF _ Cons.IH [where p = p' and w = w']] by simp
qed

lemma sameStructure_runCapturedUpdates:
  "sameStructure w (snd (runCapturedUpdates wip q props inst t xs p w))"
proof (induction xs arbitrary: p w)
  case Nil
  show ?case by simp
next
  case (Cons x xs)
  obtain p' w' where step: "processCapturedUpdate wip q props inst t x p w = (p', w')"
    by (cases "processCapturedUpdate wip q props inst t x p w")
  have "sameStructure w w'"
    using sameStructure_processCapturedUpdate [of w wip q props inst t x p] step by simp
  then show ?case
    using step sameStructure_trans [OF _ Cons.IH [where p = p' and w = w']] by simp
qed

lemma processUpdates_run:
  "updateList (updates w) cursor xs \<Longrightarrow>
   processUpdates E wip q props inst t cursor p w = Some (runUpdates E wip q props inst t xs p w)"
proof (induction xs arbitrary: cursor p w)
  case Nil
  then show ?case by (simp add: processUpdates.simps)
next
  case (Cons x xs)
  obtain p' w' where step: "processUpdate E wip q props inst t x p w = (p', w')"
    by (cases "processUpdate E wip q props inst t x p w")
  have same: "sameStructure w w'"
    using sameStructure_processUpdate [of w E wip q props inst t x p] step by simp
  have "updateList (updates w') (next_u (updates w' x)) xs"
    using Cons.prems same by (simp add: updateList_same sameStructure_update)
  then have "processUpdates E wip q props inst t (next_u (updates w' x)) p' w' =
             Some (runUpdates E wip q props inst t xs p' w')"
    by (rule Cons.IH)
  then show ?case
    using Cons.prems step by (subst processUpdates.simps) simp
qed

lemma processCapturedUpdates_run:
  "updateList (updates w) cursor xs \<Longrightarrow>
   processCapturedUpdates wip q props inst t cursor p w =
     Some (runCapturedUpdates wip q props inst t xs p w)"
proof (induction xs arbitrary: cursor p w)
  case Nil
  then show ?case by (simp add: processCapturedUpdates.simps)
next
  case (Cons x xs)
  obtain p' w' where step: "processCapturedUpdate wip q props inst t x p w = (p', w')"
    by (cases "processCapturedUpdate wip q props inst t x p w")
  have same: "sameStructure w w'"
    using sameStructure_processCapturedUpdate [of w wip q props inst t x p] step by simp
  have "updateList (updates w') (next_u (updates w' x)) xs"
    using Cons.prems same by (simp add: updateList_same sameStructure_update)
  then have "processCapturedUpdates wip q props inst t (next_u (updates w' x)) p' w' =
             Some (runCapturedUpdates wip q props inst t xs p' w')"
    by (rule Cons.IH)
  then show ?case
    using Cons.prems step by (subst processCapturedUpdates.simps) simp
qed

lemma skipped_same: "sameStructure w w' \<Longrightarrow> skipped w' t u = skipped w t u"
  by (simp add: skipped_def sameStructure_update)

lemma ensure_cases:
  "ensureWorkInProgressQueueIsAClone wip q w = (q', w1) \<Longrightarrow>
   updates w1 = updates w \<and> objectCount w1 = objectCount w \<and>
   baseState (queues w1 q') = baseState (queues w q) \<and>
   firstUpdate (queues w1 q') = firstUpdate (queues w q) \<and>
   lastUpdate (queues w1 q') = lastUpdate (queues w q) \<and>
   (firstCapturedUpdate (queues w1 q') = firstCapturedUpdate (queues w q) \<or>
    firstCapturedUpdate (queues w1 q') = None)"
  by (auto simp: ensureWorkInProgressQueueIsAClone_def newQueue_def setFiber_def
      cloneUpdateQueue_def Let_def split: option.splits if_splits)

lemma ensure_hasForceUpdate:
  "fst (ensureWorkInProgressQueueIsAClone wip q (w\<lparr>hasForceUpdate := b\<rparr>)) =
   fst (ensureWorkInProgressQueueIsAClone wip q w)"
  by (simp add: ensureWorkInProgressQueueIsAClone_def newQueue_def Let_def split: option.splits)

lemma processUpdate_skipped:
  "skipped w t u \<Longrightarrow>
   processUpdate E wip q props inst t u p w =
     ((if newFirstUpdate p = None
       then p\<lparr>newFirstUpdate := Some u, newBaseState := resultState p\<rparr> else p)
      \<lparr>newExpirationTime := max (newExpirationTime p) (expirationTime_u (updates w u))\<rparr>, w)"
  by (auto simp: processUpdate_def skipped_def Let_def max_def)

lemma processUpdate_applied:
  "\<not> skipped w t u \<Longrightarrow>
   fst (processUpdate E wip q props inst t u p w) =
     p\<lparr>resultState := fst (getStateFromUpdate wip q u (resultState p) props inst
          (markRenderEventTimeAndConfig E (expirationTime_u (updates w u))
             (suspenseConfig_u (updates w u)) w))\<rparr>"
  by (simp add: processUpdate_def skipped_def Let_def split_beta)

lemma runUpdates_append:
  "runUpdates E wip q props inst t (xs @ ys) p w =
     (case runUpdates E wip q props inst t xs p w of
        (p', w') \<Rightarrow> runUpdates E wip q props inst t ys p' w')"
  by (induction xs arbitrary: p w) (simp_all split: prod.splits)

lemma runUpdates_applied:
  "\<forall>u \<in> set xs. \<not> skipped w t u \<Longrightarrow>
   newFirstUpdate (fst (runUpdates E wip q props inst t xs p w)) = newFirstUpdate p \<and>
   newBaseState (fst (runUpdates E wip q props inst t xs p w)) = newBaseState p \<and>
   newFirstCapturedUpdate (fst (runUpdates E wip q props inst t xs p w)) = newFirstCapturedUpdate p \<and>
   newExpirationTime (fst (runUpdates E wip q props inst t xs p w)) = newExpirationTime p"
proof (induction xs arbitrary: p w)
  case Nil
  show ?case by simp
next
  case (Cons x xs)
  obtain p' w' where step: "processUpdate E wip q props inst t x p w = (p', w')"
    by (cases "processUpdate E wip q props inst t x p w")
  have same: "sameStructure w w'"
    using sameStructure_processUpdate [of w E wip q props inst t x p] step by simp
  have p': "p' = p\<lparr>resultState := resultState p'\<rparr>"
    using processUpdate_applied [of w t x E wip q props inst p] Cons.prems step by simp
  have "\<forall>u \<in> set xs. \<not> skipped w' t u"
    using Cons.prems same by (simp add: skipped_same)
  from Cons.IH [OF this, where p = p'] show ?case
    using step by (simp, subst (1 2 3 4) p', simp)
qed

lemma runUpdates_rebased:
  "newFirstUpdate p \<noteq> None \<Longrightarrow>
   newFirstUpdate (fst (runUpdates E wip q props inst t xs p w)) = newFirstUpdate p \<and>
   newBaseState (fst (runUpdates E wip q props inst t xs p w)) = newBaseState p"
proof (induction xs arbitrary: p w)
  case Nil
  show ?case by simp
next
  case (Cons x xs)
  obtain p' w' where step: "processUpdate E wip q props inst t x p w = (p', w')"
    by (cases "processUpdate E wip q props inst t x p w")
  have a: "newFirstUpdate p' = newFirstUpdate p \<and> newBaseState p' = newBaseState p"
  proof (cases "skipped w t x")
    case True
    then show ?thesis
      using processUpdate_skipped [OF True, of E wip q props inst p] step Cons.prems by auto
  next
    case False
    then show ?thesis
      using processUpdate_applied [OF False, of E wip q props inst p] step
      by (metis fst_conv queuePass.select_convs(2,3) queuePass.surjective queuePass.update_convs(1))
  qed
  then have "newFirstUpdate p' \<noteq> None"
    using Cons.prems by simp
  from Cons.IH [OF this, where w = w'] a show ?case
    using step by simp
qed

lemma processCapturedUpdate_skipped:
  "skipped w t u \<Longrightarrow>
   processCapturedUpdate wip q props inst t u p w =
     ((if newFirstCapturedUpdate p = None
       then (if newFirstUpdate p = None
             then p\<lparr>newFirstCapturedUpdate := Some u, newBaseState := resultState p\<rparr>
             else p\<lparr>newFirstCapturedUpdate := Some u\<rparr>)
       else p)
      \<lparr>newExpirationTime := max (newExpirationTime p) (expirationTime_u (updates w u))\<rparr>, w)"
  by (auto simp: processCapturedUpdate_def skipped_def Let_def max_def)

lemma processCapturedUpdate_applied:
  "\<not> skipped w t u \<Longrightarrow>
   fst (processCapturedUpdate wip q props inst t u p w) =
     p\<lparr>resultState := fst (getStateFromUpdate wip q u (resultState p) props inst w)\<rparr>"
  by (simp add: processCapturedUpdate_def skipped_def Let_def split_beta)

lemma processCapturedUpdate_newFirstUpdate:
  "newFirstUpdate (fst (processCapturedUpdate wip q props inst t u p w)) = newFirstUpdate p"
  by (cases "skipped w t u")
     (simp_all add: processCapturedUpdate_skipped processCapturedUpdate_applied)

lemma runCapturedUpdates_newFirstUpdate:
  "newFirstUpdate (fst (runCapturedUpdates wip q props inst t xs p w)) = newFirstUpdate p"
proof (induction xs arbitrary: p w)
  case Nil
  show ?case by simp
next
  case (Cons x xs)
  obtain p' w' where step: "processCapturedUpdate wip q props inst t x p w = (p', w')"
    by (cases "processCapturedUpdate wip q props inst t x p w")
  have "newFirstUpdate p' = newFirstUpdate p"
    using processCapturedUpdate_newFirstUpdate [of wip q props inst t x p w] step by simp
  then show ?case
    using step Cons.IH [where p = p' and w = w'] by simp
qed

lemma runCapturedUpdates_rebased:
  "newFirstUpdate p \<noteq> None \<Longrightarrow>
   newBaseState (fst (runCapturedUpdates wip q props inst t xs p w)) = newBaseState p"
proof (induction xs arbitrary: p w)
  case Nil
  show ?case by simp
next
  case (Cons x xs)
  obtain p' w' where step: "processCapturedUpdate wip q props inst t x p w = (p', w')"
    by (cases "processCapturedUpdate wip q props inst t x p w")
  have a: "newFirstUpdate p' = newFirstUpdate p"
    using processCapturedUpdate_newFirstUpdate [of wip q props inst t x p w] step by simp
  have b: "newBaseState p' = newBaseState p"
  proof (cases "skipped w t x")
    case True
    then show ?thesis
      using processCapturedUpdate_skipped [OF True, of wip q props inst p] step Cons.prems
      by auto
  next
    case False
    have "p' = p\<lparr>resultState := resultState p'\<rparr>"
      using processCapturedUpdate_applied [OF False, of wip q props inst p] step by simp
    then show ?thesis
      by (metis queuePass.select_convs(2) queuePass.surjective queuePass.update_convs(1))
  qed
  from Cons.IH [where p = p' and w = w'] a b Cons.prems show ?case
    using step by simp
qed

lemma runCapturedUpdates_applied:
  "\<forall>u \<in> set xs. \<not> skipped w t u \<Longrightarrow>
   newBaseState (fst (runCapturedUpdates wip q props inst t xs p w)) = newBaseState p \<and>
   newFirstCapturedUpdate (fst (runCapturedUpdates wip q props inst t xs p w)) =
     newFirstCapturedUpdate p"
proof (induction xs arbitrary: p w)
  case Nil
  show ?case by simp
next
  case (Cons x xs)
  obtain p' w' where step: "processCapturedUpdate wip q props inst t x p w = (p', w')"
    by (cases "processCapturedUpdate wip q props inst t x p w")
  have same: "sameStructure w w'"
    using sameStructure_processCapturedUpdate [of w wip q props inst t x p] step by simp
  have p': "p' = p\<lparr>resultState := resultState p'\<rparr>"
    using processCapturedUpdate_applied [of w t x wip q props inst p] Cons.prems step by simp
  have "\<forall>u \<in> set xs. \<not> skipped w' t u"
    using Cons.prems same by (simp add: skipped_same)
  from Cons.IH [OF this, where p = p'] show ?case
    using step by (simp, subst (1 2) p', simp)
qed

lemma updateList_suffix:
  "updateList us c (xs @ y # ys) \<Longrightarrow> updateList us (Some y) (y # ys)"
  by (induction xs arbitrary: c) auto

text \<open>The first loop on a list split at the first skipped update.\<close>

lemma runUpdates_first_skipped:
  assumes "\<forall>u \<in> set pre. \<not> skipped w t u" and "skipped w t x"
    and "newFirstUpdate p = None"
  shows "newFirstUpdate (fst (runUpdates E wip q props inst t (pre @ x # post) p w)) = Some x \<and>
         newBaseState (fst (runUpdates E wip q props inst t (pre @ x # post) p w)) =
           resultState (fst (runUpdates E wip q props inst t pre p w))"
proof -
  obtain p1 w1 where r: "runUpdates E wip q props inst t pre p w = (p1, w1)"
    by (cases "runUpdates E wip q props inst t pre p w")
  have same: "sameStructure w w1"
    using sameStructure_runUpdates [of w E wip q props inst t pre p] r by simp
  have n: "newFirstUpdate p1 = None"
    using runUpdates_applied [OF assms(1), of E wip q props inst p] r assms(3) by simp
  have sk: "skipped w1 t x"
    using assms(2) same by (simp add: skipped_same)
  let ?p2 = "p1\<lparr>newFirstUpdate := Some x, newBaseState := resultState p1,
                newExpirationTime := max (newExpirationTime p1) (expirationTime_u (updates w1 x))\<rparr>"
  have s: "processUpdate E wip q props inst t x p1 w1 = (?p2, w1)"
    using processUpdate_skipped [OF sk, of E wip q props inst p1] n by simp
  have "newFirstUpdate ?p2 \<noteq> None"
    by simp
  from runUpdates_rebased [OF this, of E wip q props inst t post w1]
  show ?thesis
    using r s by (simp add: runUpdates_append)
qed

lemma processUpdateQueue_run:
  assumes e: "ensureWorkInProgressQueueIsAClone wip q (w\<lparr>hasForceUpdate := False\<rparr>) = (q', w1)"
    and xs: "updateList (updates w) (firstUpdate (queues w q)) xs"
    and cs: "updateList (updates w1) (firstCapturedUpdate (queues w1 q')) cs"
    and r1: "runUpdates E wip q' props inst t xs (initialPass E (baseState (queues w q))) w1
               = (p1, w2)"
    and r2: "runCapturedUpdates wip q' props inst t cs p1 w2 = (p2, w3)"
  shows "\<exists>w'. processUpdateQueue E wip q props inst t w = Some w' \<and>
      updates w' = updates w3 \<and> objectCount w' = objectCount w3 \<and>
      updateQueue (fibers w' wip) = updateQueue (fibers w3 wip) \<and>
      memoizedState (fibers w' wip) = resultState p2 \<and>
      expirationTime (fibers w' wip) = newExpirationTime p2 \<and>
      firstUpdate (queues w' q') = newFirstUpdate p2 \<and>
      firstCapturedUpdate (queues w' q') = newFirstCapturedUpdate p2 \<and>
      lastUpdate (queues w' q') =
        (if newFirstUpdate p2 = None then None else lastUpdate (queues w q)) \<and>
      baseState (queues w' q') =
        (if newFirstUpdate p2 = None \<and> newFirstCapturedUpdate p2 = None
         then resultState p2 else newBaseState p2)"
proof -
  note f = ensure_cases [OF e]
  have xs1: "updateList (updates w1) (firstUpdate (queues w1 q')) xs"
    using xs f by simp
  have s12: "sameStructure w1 w2"
    using sameStructure_runUpdates [of w1 E wip q' props inst t xs
            "initialPass E (baseState (queues w q))"] r1 by simp
  have s23: "sameStructure w2 w3"
    using sameStructure_runCapturedUpdates [of w2 wip q' props inst t cs p1] r2 by simp
  have cs2: "updateList (updates w2) (firstCapturedUpdate (queues w2 q')) cs"
    using cs s12 by (simp add: updateList_same sameStructure_queue)
  have l3: "lastUpdate (queues w3 q') = lastUpdate (queues w q)"
    using f s12 s23 by (simp add: sameStructure_queue)
  have a: "processUpdates E wip q' props inst t (firstUpdate (queues w1 q'))
             (initialPass E (baseState (queues w1 q'))) w1 = Some (p1, w2)"
    using processUpdates_run [OF xs1] r1 f by simp
  have b: "processCapturedUpdates wip q' props inst t (firstCapturedUpdate (queues w2 q')) p1 w2
             = Some (p2, w3)"
    using processCapturedUpdates_run [OF cs2] r2 by simp
  show ?thesis
    using e a b l3
    by (simp add: processUpdateQueue_def Let_def setQueue_def setFiber_def
        markUnprocessedUpdateTime_def)
qed

lemma mergePartialState_noop:
  "noopPayload (payload upd) inst s props \<Longrightarrow> mergePartialState upd s props inst w = (s, w)"
  by (auto simp: noopPayload_def mergePartialState_def Let_def split: payload.splits)

lemma objectCount_pushEffect [simp]: "objectCount (pushEffect wip q u w) = objectCount w"
  by (simp add: pushEffect_def Let_def setFiber_def setUpdate_def setQueue_def split: option.splits)

lemma objectCount_mark [simp]: "objectCount (markRenderEventTimeAndConfig E t c w) = objectCount w"
  by (simp add: markRenderEventTimeAndConfig_def Let_def split: option.splits)

lemma processUpdate_noop:
  assumes "tag_u (updates w u) = UpdateState"
    and "noopPayload (payload (updates w u)) inst (resultState p) props"
  shows "resultState (fst (processUpdate E wip q props inst t u p w)) = resultState p \<and>
         objectCount (snd (processUpdate E wip q props inst t u p w)) = objectCount w"
proof (cases "skipped w t u")
  case True
  then show ?thesis
    by (simp add: processUpdate_skipped)
next
  case False
  let ?w1 = "markRenderEventTimeAndConfig E (expirationTime_u (updates w u))
               (suspenseConfig_u (updates w u)) w"
  have u1: "tag_u (updates ?w1 u) = UpdateState"
    "payload (updates ?w1 u) = payload (updates w u)"
    using assms(1) by (simp_all add: sameStructure_update [OF sameStructure_mark])
  have "getStateFromUpdate wip q u (resultState p) props inst ?w1 = (resultState p, ?w1)"
    using u1 assms(2) by (simp add: getStateFromUpdate_def mergePartialState_noop)
  then show ?thesis
    using False by (simp add: processUpdate_def skipped_def Let_def)
qed

subsection \<open>A null payload is a no-op\<close>

text \<open>
  C3. The queue holds one merge-style (\<open>UpdateState\<close>) update, whose payload is
  \<open>null\<close> or \<open>undefined\<close> or a function returning one of them on the queue's base
  state. Then \<open>processUpdateQueue\<close> returns, and the fiber's memoized state is the
  base state itself: the same object, with the same identity, and no object has been
  allocated (an \<open>Object.assign\<close> would have taken the next identity). This holds at
  every render expiration time, whether the update is applied or skipped.
\<close>

theorem processUpdateQueue_null_payload_is_noop:
  assumes l: "updateList (updates w) (firstUpdate (queues w q)) [u]"
    and c: "firstCapturedUpdate (queues w q) = None"
    and t: "tag_u (updates w u) = UpdateState"
    and n: "noopPayload (payload (updates w u)) inst (baseState (queues w q)) props"
  shows "\<exists>w'. processUpdateQueue E wip q props inst renderExpTime w = Some w' \<and>
           memoizedState (fibers w' wip) = baseState (queues w q) \<and>
           objectCount w' = objectCount w"
proof -
  let ?w0 = "w\<lparr>hasForceUpdate := False\<rparr>"
  let ?p0 = "initialPass E (baseState (queues w q))"
  obtain q' w1 where e: "ensureWorkInProgressQueueIsAClone wip q ?w0 = (q', w1)"
    by (cases "ensureWorkInProgressQueueIsAClone wip q ?w0")
  note f = ensure_cases [OF e]
  obtain p1 w2 where s: "processUpdate E wip q' props inst renderExpTime u ?p0 w1 = (p1, w2)"
    by (cases "processUpdate E wip q' props inst renderExpTime u ?p0 w1")
  have r: "resultState p1 = baseState (queues w q) \<and> objectCount w2 = objectCount w"
    using processUpdate_noop [of w1 u inst ?p0 props E wip q' renderExpTime] t n f s
    by (simp add: initialPass_def)
  have cs: "updateList (updates w1) (firstCapturedUpdate (queues w1 q')) []"
    using f c by auto
  have r1: "runUpdates E wip q' props inst renderExpTime [u] ?p0 w1 = (p1, w2)"
    using s by simp
  have r2: "runCapturedUpdates wip q' props inst renderExpTime [] p1 w2 = (p1, w2)"
    by simp
  from processUpdateQueue_run [OF e l cs r1 r2] r show ?thesis
    by auto
qed

theorem processUpdateQueue_null_payload_is_noop_witness:
  "\<exists>w'. processUpdateQueue sampleTimes 0 0 JSNull JSNull 7 nullUpdateWorld = Some w' \<and>
         memoizedState (fibers w' 0) = JSObject 0 [(''count'', 1)] \<and> objectCount w' = 1"
proof -
  have a: "updateList (updates nullUpdateWorld) (firstUpdate (queues nullUpdateWorld 0)) [0]"
    by (simp add: nullUpdateWorld_def emptyWorld_def createUpdateQueue_def createUpdate_def)
  have b: "firstCapturedUpdate (queues nullUpdateWorld 0) = None"
    by (simp add: nullUpdateWorld_def emptyWorld_def createUpdateQueue_def)
  have c: "tag_u (updates nullUpdateWorld 0) = UpdateState"
    by (simp add: nullUpdateWorld_def emptyWorld_def createUpdate_def)
  have d: "noopPayload (payload (updates nullUpdateWorld 0)) JSNull
             (baseState (queues nullUpdateWorld 0)) JSNull"
    by (simp add: nullUpdateWorld_def emptyWorld_def createUpdate_def noopPayload_def)
  from processUpdateQueue_null_payload_is_noop [OF a b c d, of sampleTimes 0 7]
  show ?thesis
    by (simp add: nullUpdateWorld_def emptyWorld_def createUpdateQueue_def)
qed

subsection \<open>Rebasing on the first skipped update\<close>

text \<open>
  C2. The queue's list holds the updates \<open>xs\<close> and its captured list \<open>cs\<close>.
  \<open>processUpdateQueue\<close> at threshold \<open>t\<close> returns, and of the queue it processed
  (the given one, or its fresh clone): \<open>pre\<close> being the updates before the first one
  whose priority is below \<open>t\<close>, and \<open>post\<close> that update and all after it, the new
  \<open>firstUpdate\<close> is the head of \<open>post\<close>, and the whole of \<open>post\<close> is still linked from
  it, whatever the priorities of its later updates; the new base state is the state the
  loop had computed from the old base state by the updates of \<open>pre\<close>, and
  \<open>lastUpdate\<close> is kept. When nothing of the list is skipped, the list is emptied
  (\<open>firstUpdate\<close> and \<open>lastUpdate\<close> are \<open>null\<close>); when no captured update is skipped
  either, the new base state is the resulting memoized state.
\<close>

theorem processUpdateQueue_rebases_on_first_skipped:
  assumes xs: "updateList (updates w) (firstUpdate (queues w q)) xs"
    and cs: "updateList (updates w) (firstCapturedUpdate (queues w q)) cs"
  shows "\<exists>w'. processUpdateQueue E wip q props inst t w = Some w' \<and>
     (let q' = fst (ensureWorkInProgressQueueIsAClone wip q w);
          pre = takeWhile (\<lambda>u. \<not> skipped w t u) xs;
          post = dropWhile (\<lambda>u. \<not> skipped w t u) xs
      in firstUpdate (queues w' q') = (case post of [] \<Rightarrow> None | x # rest \<Rightarrow> Some x) \<and>
         updateList (updates w') (firstUpdate (queues w' q')) post \<and>
         (post \<noteq> [] \<longrightarrow>
            baseState (queues w' q') = stateAfter E wip q props inst t pre w \<and>
            lastUpdate (queues w' q') = lastUpdate (queues w q)) \<and>
         (post = [] \<longrightarrow> lastUpdate (queues w' q') = None) \<and>
         (post = [] \<and> (\<forall>c \<in> set cs. \<not> skipped w t c) \<longrightarrow>
            baseState (queues w' q') = memoizedState (fibers w' wip)))"
proof -
  let ?w0 = "w\<lparr>hasForceUpdate := False\<rparr>"
  let ?p0 = "initialPass E (baseState (queues w q))"
  let ?pre = "takeWhile (\<lambda>u. \<not> skipped w t u) xs"
  let ?post = "dropWhile (\<lambda>u. \<not> skipped w t u) xs"
  obtain q' w1 where e: "ensureWorkInProgressQueueIsAClone wip q ?w0 = (q', w1)"
    by (cases "ensureWorkInProgressQueueIsAClone wip q ?w0")
  have q': "fst (ensureWorkInProgressQueueIsAClone wip q w) = q'"
    using ensure_hasForceUpdate [where wip = wip and q = q and w = w and b = False] e by simp
  note f = ensure_cases [OF e]
  have sk1: "skipped w1 t = skipped w t"
    using f by (simp add: skipped_def fun_eq_iff)
  have "\<exists>cs'. updateList (updates w1) (firstCapturedUpdate (queues w1 q')) cs' \<and>
              set cs' \<subseteq> set cs"
  proof (cases "firstCapturedUpdate (queues w1 q') = None")
    case True
    then have "updateList (updates w1) (firstCapturedUpdate (queues w1 q')) [] \<and>
               set [] \<subseteq> set cs"
      by simp
    then show ?thesis by blast
  next
    case False
    then have "updateList (updates w1) (firstCapturedUpdate (queues w1 q')) cs \<and>
               set cs \<subseteq> set cs"
      using f cs by auto
    then show ?thesis by blast
  qed
  then obtain cs' where cs': "updateList (updates w1) (firstCapturedUpdate (queues w1 q')) cs'"
    and sub: "set cs' \<subseteq> set cs"
    by blast
  obtain p1 w2 where r1: "runUpdates E wip q' props inst t xs ?p0 w1 = (p1, w2)"
    by (cases "runUpdates E wip q' props inst t xs ?p0 w1")
  obtain p2 w3 where r2: "runCapturedUpdates wip q' props inst t cs' p1 w2 = (p2, w3)"
    by (cases "runCapturedUpdates wip q' props inst t cs' p1 w2")
  have s12: "sameStructure w1 w2"
    using sameStructure_runUpdates [of w1 E wip q' props inst t xs ?p0] r1 by simp
  have s23: "sameStructure w2 w3"
    using sameStructure_runCapturedUpdates [of w2 wip q' props inst t cs' p1] r2 by simp
  have s13: "sameStructure w1 w3"
    using sameStructure_trans [OF s12 s23] .
  from processUpdateQueue_run [OF e xs cs' r1 r2]
  obtain w' where run: "processUpdateQueue E wip q props inst t w = Some w'"
    and u': "updates w' = updates w3"
    and ms: "memoizedState (fibers w' wip) = resultState p2"
    and fu: "firstUpdate (queues w' q') = newFirstUpdate p2"
    and fc: "firstCapturedUpdate (queues w' q') = newFirstCapturedUpdate p2"
    and lu: "lastUpdate (queues w' q') =
               (if newFirstUpdate p2 = None then None else lastUpdate (queues w q))"
    and bs: "baseState (queues w' q') =
               (if newFirstUpdate p2 = None \<and> newFirstCapturedUpdate p2 = None
                then resultState p2 else newBaseState p2)"
    by blast
  have n2: "newFirstUpdate p2 = newFirstUpdate p1"
    using runCapturedUpdates_newFirstUpdate [of wip q' props inst t cs' p1 w2] r2 by simp
  have list': "\<And>c ys. updateList (updates w') c ys = updateList (updates w) c ys"
  proof -
    fix c ys
    have "updateList (updates w3) c ys = updateList (updates w1) c ys"
      using updateList_same [OF s13] .
    then show "updateList (updates w') c ys = updateList (updates w) c ys"
      using u' f by simp
  qed
  have split: "xs = ?pre @ ?post"
    by simp
  have pre_ok: "\<forall>u \<in> set ?pre. \<not> skipped w1 t u"
    using sk1 by (auto dest: set_takeWhileD)
  show ?thesis
  proof (cases ?post)
    case Nil
    then have all: "\<forall>u \<in> set xs. \<not> skipped w1 t u"
      using sk1 by (metis dropWhile_eq_Nil_conv)
    have n1: "newFirstUpdate p1 = None \<and> newBaseState p1 = baseState (queues w q) \<and>
              newFirstCapturedUpdate p1 = None"
      using runUpdates_applied [OF all, of E wip q' props inst ?p0] r1
      by (simp add: initialPass_def)
    have cap: "(\<forall>c \<in> set cs. \<not> skipped w t c) \<longrightarrow> newFirstCapturedUpdate p2 = None"
    proof
      assume "\<forall>c \<in> set cs. \<not> skipped w t c"
      then have "\<forall>c \<in> set cs'. \<not> skipped w2 t c"
        using sub sk1 s12 by (auto simp: skipped_same)
      from runCapturedUpdates_applied [OF this, of wip q' props inst p1] r2 n1
      show "newFirstCapturedUpdate p2 = None" by simp
    qed
    show ?thesis
      unfolding Let_def q' Nil
      using run fu lu bs ms n1 n2 cap by (simp add: list')
  next
    case (Cons x rest)
    have skx: "skipped w1 t x"
      using Cons sk1 by (metis dropWhile_eq_Cons_conv)
    have xs': "xs = ?pre @ x # rest"
      using Cons split by simp
    have "newFirstUpdate (fst (runUpdates E wip q' props inst t (?pre @ x # rest) ?p0 w1)) = Some x \<and>
          newBaseState (fst (runUpdates E wip q' props inst t (?pre @ x # rest) ?p0 w1)) =
            resultState (fst (runUpdates E wip q' props inst t ?pre ?p0 w1))"
      by (rule runUpdates_first_skipped [OF pre_ok skx]) (simp add: initialPass_def)
    then have n1: "newFirstUpdate p1 = Some x \<and>
                   newBaseState p1 = stateAfter E wip q props inst t ?pre w"
      using r1 xs' e by (simp add: stateAfter_def)
    have nb: "newBaseState p2 = newBaseState p1"
      using runCapturedUpdates_rebased [of p1 wip q' props inst t cs' w2] n1 r2 by simp
    have lst: "updateList (updates w) (Some x) (x # rest)"
      using updateList_suffix [of "updates w" "firstUpdate (queues w q)" ?pre x rest] xs xs'
      by simp
    have lst': "updateList (updates w') (Some x) (x # rest)"
      using lst list' by blast
    show ?thesis
      unfolding Let_def q' Cons
      using run fu lu bs n1 n2 nb lst' by simp
  qed
qed

lemma letter_skipped:
  "skipped letterWorld 10 u = (u = 1 \<or> u = 3 \<or> u \<ge> 4)"
  by (simp add: skipped_def letterWorld_def emptyWorld_def mergeUpdate_def createUpdate_def)

theorem processUpdateQueue_rebases_on_first_skipped_witness:
  "\<exists>w'. processUpdateQueue sampleTimes 0 0 JSNull JSNull 10 letterWorld = Some w' \<and>
         firstUpdate (queues w' 0) = Some 1 \<and>
         updateList (updates w') (Some 1) [1, 2, 3] \<and>
         baseState (queues w' 0) = JSObject 5 [(''a'', 1)] \<and>
         lastUpdate (queues w' 0) = Some 3"
proof -
  have a: "updateList (updates letterWorld) (firstUpdate (queues letterWorld 0)) [0, 1, 2, 3]"
    by (simp add: letterWorld_def emptyWorld_def createUpdateQueue_def mergeUpdate_def
        createUpdate_def)
  have b: "updateList (updates letterWorld) (firstCapturedUpdate (queues letterWorld 0)) []"
    by (simp add: letterWorld_def emptyWorld_def createUpdateQueue_def)
  have q: "fst (ensureWorkInProgressQueueIsAClone 0 0 letterWorld) = 0"
    by (simp add: ensureWorkInProgressQueueIsAClone_def letterWorld_def emptyWorld_def
        sampleFiber_def FiberNode_def)
  have e: "ensureWorkInProgressQueueIsAClone 0 0 (letterWorld\<lparr>hasForceUpdate := False\<rparr>) =
             (0, letterWorld\<lparr>hasForceUpdate := False\<rparr>)"
    by (simp add: ensureWorkInProgressQueueIsAClone_def letterWorld_def emptyWorld_def
        sampleFiber_def FiberNode_def)
  have s: "stateAfter sampleTimes 0 0 JSNull JSNull 10 [0] letterWorld = JSObject 5 [(''a'', 1)]"
    unfolding stateAfter_def e
    by (simp add: processUpdate_def skipped_def initialPass_def
        getStateFromUpdate_def mergePartialState_def markRenderEventTimeAndConfig_def
        letterWorld_def emptyWorld_def mergeUpdate_def createUpdate_def createUpdateQueue_def
        sampleTimes_def Let_def)
  have l: "lastUpdate (queues letterWorld 0) = Some 3"
    by (simp add: letterWorld_def emptyWorld_def createUpdateQueue_def)
  from processUpdateQueue_rebases_on_first_skipped [OF a b, of sampleTimes 0 JSNull JSNull 10]
  show ?thesis
    by (simp add: q s l letter_skipped)
qed

subsection \<open>Passes at several thresholds\<close>

text \<open>
  C1. On a queue with a pending update that expires at 5 and a pending captured update
  that expires at 10, a render at 10 followed by a render at 5 ends in the state
  \<open>{a}\<close>, a single render at 5 in the state \<open>{a, c}\<close>: the render at 10 applies the
  captured update and takes it off the queue, so \<open>commitUpdateQueue\<close> finds no captured
  update to join to the list and the render at 5 no longer sees it.
\<close>

theorem processUpdateQueue_drops_applied_captured_update:
  "map_option (\<lambda>w. content (memoizedState (fibers w 0)))
     (renderPasses sampleTimes 0 [(JSNull, JSNull, 10), (JSNull, JSNull, 5)] capturedWorld) =
     Some (JSObject 0 [(''a'', 1)]) \<and>
   map_option (\<lambda>w. content (memoizedState (fibers w 0)))
     (renderPasses sampleTimes 0 [(JSNull, JSNull, 5)] capturedWorld) =
     Some (JSObject 0 [(''a'', 1), (''c'', 1)])"
  by code_simp

subsection \<open>enqueueUpdate\<close>





lemma append_fibers [simp]: "fibers (appendUpdateToQueue q u w) = fibers w"
  by (simp add: appendUpdateToQueue_def setQueue_def setUpdate_def split: option.splits)













lemma lastOnList_empty: "lastUpdate (queues w q1) = None \<Longrightarrow> lastOnList w q1 q2"
  by (simp add: lastOnList_def)










subsection \<open>computeExpirationForFiber\<close>

text \<open>C10. For a concurrent-mode fiber, outside the render context and while a
  work-in-progress root exists, \<open>computeExpirationForFiber\<close> returns the time computed from
  the priority (or the Suspense timeout), minus 1 when that time is the expiration time
  being rendered; so the returned time is never the one being rendered.\<close>

theorem computeExpirationForFiber_separates_batch:
  assumes "(mode (fibers w fib) AND BlockingMode) \<noteq> NoMode"
    and "(mode (fibers w fib) AND ConcurrentMode) \<noteq> NoMode"
    and "(executionContext w AND RenderContext) = NoContext"
    and "workInProgressRoot w \<noteq> None"
    and "getCurrentPriorityLevel schedulerPriority = Inr priorityLevel"
    and "priorityExpirationTime E priorityLevel currentTime config = Inr t"
  shows "computeExpirationForFiber E schedulerPriority w currentTime fib config =
           Inr (if t = renderExpirationTime w then t - 1 else t) \<and>
         computeExpirationForFiber E schedulerPriority w currentTime fib config \<noteq>
           Inr (renderExpirationTime w)"
  using assms by (simp add: computeExpirationForFiber_def)

theorem computeExpirationForFiber_separates_batch_witness:
  "priorityExpirationTime sampleTimes NormalPriority 1000 None =
     Inr (renderExpirationTime yieldedWorld) \<and>
   computeExpirationForFiber sampleTimes Scheduler_NormalPriority yieldedWorld 1000 0 None =
     Inr 499"
proof -
  have m: "mode (fibers yieldedWorld 0) = 7"
    by (simp add: yieldedWorld_def emptyWorld_def ConcurrentMode_def BlockingMode_def
        StrictMode_def)
  have p: "priorityExpirationTime sampleTimes NormalPriority 1000 None = Inr 500"
    by (simp add: priorityExpirationTime_def sampleTimes_def NormalPriority_def
        ImmediatePriority_def UserBlockingPriority_def)
  have r: "renderExpirationTime yieldedWorld = 500" "workInProgressRoot yieldedWorld \<noteq> None"
    "executionContext yieldedWorld = 0"
    by (simp_all add: yieldedWorld_def emptyWorld_def)
  show ?thesis
    using computeExpirationForFiber_separates_batch [where w = yieldedWorld and fib = 0
        and schedulerPriority = Scheduler_NormalPriority and priorityLevel = NormalPriority
        and E = sampleTimes and currentTime = 1000 and config = None and t = 500]
    by (simp add: m p r BlockingMode_def ConcurrentMode_def NoMode_def NoContext_def
        RenderContext_def)
qed

theorem computeExpirationForFiber_render_context_counterexample:
  "workInProgressRoot renderingWorld \<noteq> None \<and>
   priorityExpirationTime sampleTimes NormalPriority 1000 None =
     Inr (renderExpirationTime renderingWorld) \<and>
   computeExpirationForFiber sampleTimes Scheduler_NormalPriority renderingWorld 1000 0 None =
     Inr (renderExpirationTime renderingWorld)"
  by (simp add: computeExpirationForFiber_def priorityExpirationTime_def renderingWorld_def
      yieldedWorld_def emptyWorld_def sampleTimes_def NormalPriority_def
      ImmediatePriority_def UserBlockingPriority_def ConcurrentMode_def BlockingMode_def
      StrictMode_def NoMode_def NoContext_def RenderContext_def)

subsection \<open>The childExpirationTime invariant\<close>

lemma raised_refl: "raised fs fs"
  by (simp add: raised_def)

lemma raised_trans: "raised a b \<Longrightarrow> raised b c \<Longrightarrow> raised a c"
  unfolding raised_def by (metis order_trans)

lemma childOf_same:
  assumes "childOf fs' p c"
    and "\<And>n. child (fs' n) = child (fs n) \<and> sibling (fs' n) = sibling (fs n)"
  shows "childOf fs p c"
  using assms
proof (induction rule: childOf.induct)
  case (firstChild p c)
  then show ?case by (simp add: childOf.firstChild)
next
  case (nextSibling p c s)
  then have "sibling (fs c) = Some s" by simp
  with nextSibling show ?case by (blast intro: childOf.nextSibling)
qed

lemma descendant_same:
  assumes "descendant fs' p d"
    and "\<And>n. child (fs' n) = child (fs n) \<and> sibling (fs' n) = sibling (fs n)"
  shows "descendant fs p d"
  using assms
proof (induction rule: descendant.induct)
  case (direct p c)
  then show ?case by (blast intro: descendant.direct childOf_same)
next
  case (deeper p c d)
  then show ?case by (blast intro: descendant.deeper childOf_same)
qed

lemma raised_descendant_back: "descendant fs' p d \<Longrightarrow> raised fs fs' \<Longrightarrow> descendant fs p d"
  by (erule descendant_same) (simp add: raised_def)

lemma raised_returnPath: "returnPath fs c xs \<Longrightarrow> raised fs fs' \<Longrightarrow> returnPath fs' c xs"
  by (induction xs arbitrary: c) (simp_all add: raised_def)

lemma descendant_first:
  "descendant fs p d \<Longrightarrow> childOf fs p d \<or> (\<exists>c. childOf fs p c \<and> descendant fs c d)"
proof (induction rule: descendant.induct)
  case (direct p c)
  then show ?case by simp
next
  case (deeper p c d)
  then show ?case by (blast intro: descendant.direct descendant.deeper)
qed

lemma consistentTree_alternate:
  "consistentTree fs \<Longrightarrow> alternate (fs n) = Some a \<Longrightarrow> alternate (fs a) = Some n"
  unfolding consistentTree_def by blast

lemma consistentTree_return:
  assumes "consistentTree fs" and "alternate (fs n) = Some a"
  shows "(return (fs n) = None \<and> return (fs a) = None) \<or>
         (\<exists>r r'. return (fs n) = Some r \<and> return (fs a) = Some r' \<and> samePair fs r r')"
proof -
  have "case (return (fs n), return (fs a)) of
            (None, None) \<Rightarrow> True
          | (Some r, Some r') \<Rightarrow> samePair fs r r'
          | _ \<Rightarrow> False"
    using assms unfolding consistentTree_def by blast
  then show ?thesis
    by (cases "return (fs n)"; cases "return (fs a)") simp_all
qed

lemma consistentTree_child:
  assumes "consistentTree fs" and "childOf fs p c"
  shows "\<exists>r. return (fs c) = Some r \<and> samePair fs r p"
proof -
  have "case return (fs c) of None \<Rightarrow> False | Some r \<Rightarrow> samePair fs r p"
    using assms unfolding consistentTree_def by blast
  then show ?thesis
    by (cases "return (fs c)") simp_all
qed

lemma samePair_trans:
  assumes "consistentTree fs" and "samePair fs x y" and "samePair fs y z"
  shows "samePair fs x z"
proof (cases "x = y")
  case True
  then show ?thesis using assms(3) by simp
next
  case False
  then have a: "alternate (fs x) = Some y"
    using assms(2) by (simp add: samePair_def)
  show ?thesis
  proof (cases "y = z")
    case True
    then show ?thesis using assms(2) by simp
  next
    case False
    then have "alternate (fs y) = Some z"
      using assms(3) by (simp add: samePair_def)
    moreover have "alternate (fs y) = Some x"
      by (rule consistentTree_alternate [OF assms(1) a])
    ultimately show ?thesis
      by (simp add: samePair_def)
  qed
qed

lemma returnPath_next:
  "returnPath fs c xs \<Longrightarrow> x \<in> set xs \<Longrightarrow> return (fs x) = Some r \<Longrightarrow> r \<in> set xs"
proof (induction xs arbitrary: c)
  case Nil
  then show ?case by simp
next
  case (Cons y ys)
  show ?case
  proof (cases "x = y")
    case True
    then have "returnPath fs (Some r) ys"
      using Cons.prems by simp
    then show ?thesis
      by (cases ys) simp_all
  next
    case False
    then show ?thesis
      using Cons by auto
  qed
qed

lemma parent_marked:
  assumes ct: "consistentTree fs"
    and rp: "returnPath fs (return (fs fib)) xs"
    and c: "samePair fs fib c \<or> marked fs xs c"
    and p: "childOf fs p c"
  shows "marked fs xs p"
proof -
  obtain r where r: "return (fs c) = Some r" "samePair fs r p"
    using consistentTree_child [OF ct p] by blast
  have up: "\<And>x. x = fib \<or> x \<in> set xs \<Longrightarrow> samePair fs x c \<Longrightarrow>
      \<exists>r0. return (fs x) = Some r0 \<and> samePair fs r0 p"
  proof -
    fix x assume x: "x = fib \<or> x \<in> set xs" and s: "samePair fs x c"
    show "\<exists>r0. return (fs x) = Some r0 \<and> samePair fs r0 p"
    proof (cases "x = c")
      case True
      then show ?thesis using r by simp
    next
      case False
      then have a: "alternate (fs x) = Some c"
        using s by (simp add: samePair_def)
      obtain r0 where r0: "return (fs x) = Some r0" "samePair fs r0 r"
        using consistentTree_return [OF ct a] r(1) by auto
      show ?thesis
        using r0 samePair_trans [OF ct r0(2) r(2)] by simp
    qed
  qed
  have "\<exists>x r0. (x = fib \<or> x \<in> set xs) \<and> return (fs x) = Some r0 \<and> samePair fs r0 p"
    using c up unfolding marked_def by blast
  then obtain x r0 where x: "x = fib \<or> x \<in> set xs" "return (fs x) = Some r0" "samePair fs r0 p"
    by blast
  have "r0 \<in> set xs"
  proof (cases "x = fib")
    case True
    then show ?thesis
      using rp x(2) by (cases xs) simp_all
  next
    case False
    then show ?thesis
      using x(1,2) returnPath_next [OF rp] by blast
  qed
  then show ?thesis
    using x(3) unfolding marked_def by blast
qed

lemma ancestor_marked:
  assumes ct: "consistentTree fs"
    and rp: "returnPath fs (return (fs fib)) xs"
  shows "descendant fs p d \<Longrightarrow> samePair fs fib d \<or> marked fs xs d \<Longrightarrow> marked fs xs p"
proof (induction rule: descendant.induct)
  case (direct p c)
  then show ?case
    using parent_marked [OF ct rp] by blast
next
  case (deeper p c d)
  have "marked fs xs c"
    using parent_marked [OF ct rp deeper.prems deeper.hyps(2)] .
  then show ?case
    using deeper.IH by blast
qed

lemma markNode_raised: "raised (fibers w) (fibers (markNode t n w))"
  by (simp add: markNode_def raised_def setFiber_def Let_def split: option.splits)

lemma markNode_expirationTime:
  "expirationTime (fibers (markNode t n w) m) = expirationTime (fibers w m)"
  by (simp add: markNode_def setFiber_def Let_def split: option.splits)

lemma markNode_marks:
  "samePair (fibers w) n m \<Longrightarrow> t \<le> childExpirationTime (fibers (markNode t n w) m)"
  by (auto simp: markNode_def samePair_def setFiber_def Let_def split: option.splits)

lemma markUpdateTimeLoop_Some:
  "markUpdateTimeLoop t (Some n) w =
     (if return (fibers (markNode t n w) n) = None \<and> tag (fibers (markNode t n w) n) = HostRoot
      then Some (stateNode (fibers (markNode t n w) n), markNode t n w)
      else markUpdateTimeLoop t (return (fibers (markNode t n w) n)) (markNode t n w))"
  by (subst markUpdateTimeLoop.simps) (simp add: markNode_def Let_def)

lemma markUpdateTimeLoop_None: "markUpdateTimeLoop t None w = Some (None, w)"
  by (subst markUpdateTimeLoop.simps) simp

lemma raised_samePair: "raised fs fs' \<Longrightarrow> samePair fs' x y = samePair fs x y"
  by (simp add: raised_def samePair_def)

lemma raised_marked: "raised fs fs' \<Longrightarrow> marked fs' xs n = marked fs xs n"
  by (simp add: marked_def raised_samePair)

lemma markUpdateTimeLoop_run:
  "returnPath (fibers w) node xs \<Longrightarrow>
   \<exists>root w'. markUpdateTimeLoop t node w = Some (root, w') \<and>
     raised (fibers w) (fibers w') \<and>
     (\<forall>m. expirationTime (fibers w' m) = expirationTime (fibers w m)) \<and>
     (\<forall>n. marked (fibers w) xs n \<longrightarrow> t \<le> childExpirationTime (fibers w' n))"
proof (induction xs arbitrary: node w)
  case Nil
  then show ?case
    by (simp add: markUpdateTimeLoop_None raised_refl marked_def)
next
  case (Cons x xs)
  let ?w1 = "markNode t x w"
  have node: "node = Some x" and rest: "returnPath (fibers w) (return (fibers w x)) xs"
    using Cons.prems by simp_all
  have r1: "raised (fibers w) (fibers ?w1)"
    by (rule markNode_raised)
  have ret: "return (fibers ?w1 x) = return (fibers w x)"
    using r1 by (simp add: raised_def)
  show ?case
  proof (cases "return (fibers ?w1 x) = None \<and> tag (fibers ?w1 x) = HostRoot")
    case True
    have "xs = []"
      using rest True ret by (cases xs) simp_all
    then have "\<forall>n. marked (fibers w) (x # xs) n \<longrightarrow> t \<le> childExpirationTime (fibers ?w1 n)"
      by (simp add: marked_def markNode_marks)
    then show ?thesis
      using True r1 unfolding node markUpdateTimeLoop_Some
      by (simp add: markNode_expirationTime)
  next
    case False
    have "returnPath (fibers ?w1) (return (fibers ?w1 x)) xs"
      unfolding ret by (rule raised_returnPath [OF rest r1])
    from Cons.IH [OF this] obtain root w' where
      run: "markUpdateTimeLoop t (return (fibers ?w1 x)) ?w1 = Some (root, w')"
      and r2: "raised (fibers ?w1) (fibers w')"
      and e: "\<forall>m. expirationTime (fibers w' m) = expirationTime (fibers ?w1 m)"
      and m: "\<forall>n. marked (fibers ?w1) xs n \<longrightarrow> t \<le> childExpirationTime (fibers w' n)"
      by blast
    have "\<forall>n. marked (fibers w) (x # xs) n \<longrightarrow> t \<le> childExpirationTime (fibers w' n)"
    proof (intro allI impI)
      fix n assume "marked (fibers w) (x # xs) n"
      then consider "samePair (fibers w) x n" | "marked (fibers w) xs n"
        by (auto simp: marked_def)
      then show "t \<le> childExpirationTime (fibers w' n)"
      proof cases
        case 1
        have "t \<le> childExpirationTime (fibers ?w1 n)"
          by (rule markNode_marks [OF 1])
        also have "\<dots> \<le> childExpirationTime (fibers w' n)"
          using r2 by (simp add: raised_def)
        finally show ?thesis .
      next
        case 2
        then show ?thesis
          using m raised_marked [OF r1] by simp
      qed
    qed
    moreover have "markUpdateTimeLoop t (Some x) w = Some (root, w')"
      by (subst markUpdateTimeLoop_Some) (simp only: False if_False run)
    ultimately show ?thesis
      using raised_trans [OF r1 r2] e unfolding node
      by (simp add: markNode_expirationTime)
  qed
qed

lemma fibers_record_call: "fibers (record_call c w) = fibers w"
  by (simp add: record_call_def)

lemma fibers_markUnprocessedUpdateTime: "fibers (markUnprocessedUpdateTime t w) = fibers w"
  by (simp add: markUnprocessedUpdateTime_def)

lemma markUpdateTimeFromFiberToRoot_invariant:
  assumes inv: "childPriorityInvariant w"
    and ct: "consistentTree (fibers w)"
    and rp: "returnPath (fibers w) (return (fibers w fib)) xs"
  shows "\<exists>root w'. markUpdateTimeFromFiberToRoot fib t w = Some (root, w') \<and>
           childPriorityInvariant w'"
proof -
  define w1 where "w1 = (if expirationTime (fibers w fib) < t
                then setFiber fib (\<lambda>f. f\<lparr>expirationTime := t\<rparr>) w else w)"
  define w2 where "w2 = (case alternate (fibers w1 fib) of
                  None \<Rightarrow> w1
                | Some a \<Rightarrow>
                    if expirationTime (fibers w1 a) < t
                    then setFiber a (\<lambda>f. f\<lparr>expirationTime := t\<rparr>) w1 else w1)"
  have r2: "raised (fibers w) (fibers w2)"
    by (simp add: w2_def w1_def raised_def setFiber_def split: option.splits)
  have e2: "\<And>m. expirationTime (fibers w2 m) \<noteq> expirationTime (fibers w m) \<Longrightarrow>
               samePair (fibers w) fib m \<and> expirationTime (fibers w2 m) = t"
    by (auto simp: w2_def w1_def samePair_def setFiber_def split: option.splits if_splits)
  have ret: "return (fibers w2 fib) = return (fibers w fib)"
    using r2 by (simp add: raised_def)
  have "\<exists>root w3.
      (if return (fibers w2 fib) = None \<and> tag (fibers w2 fib) = HostRoot
       then Some (stateNode (fibers w2 fib), w2)
       else markUpdateTimeLoop t (return (fibers w2 fib)) w2) = Some (root, w3) \<and>
      raised (fibers w2) (fibers w3) \<and>
      (\<forall>m. expirationTime (fibers w3 m) = expirationTime (fibers w2 m)) \<and>
      (\<forall>n. marked (fibers w2) xs n \<longrightarrow> t \<le> childExpirationTime (fibers w3 n))"
  proof (cases "return (fibers w2 fib) = None \<and> tag (fibers w2 fib) = HostRoot")
    case True
    then have "xs = []"
      using rp ret by (cases xs) simp_all
    then show ?thesis
      using True by (simp add: raised_refl marked_def)
  next
    case False
    have "returnPath (fibers w2) (return (fibers w2 fib)) xs"
      unfolding ret by (rule raised_returnPath [OF rp r2])
    from markUpdateTimeLoop_run [OF this, of t] show ?thesis
      by (simp only: False if_False)
  qed
  then obtain root w3 where
    run: "(if return (fibers w2 fib) = None \<and> tag (fibers w2 fib) = HostRoot
       then Some (stateNode (fibers w2 fib), w2)
       else markUpdateTimeLoop t (return (fibers w2 fib)) w2) = Some (root, w3)"
    and r3: "raised (fibers w2) (fibers w3)"
    and e3: "\<forall>m. expirationTime (fibers w3 m) = expirationTime (fibers w2 m)"
    and m3: "\<forall>n. marked (fibers w2) xs n \<longrightarrow> t \<le> childExpirationTime (fibers w3 n)"
    by blast
  define w' where "w' = (case root of
                 None \<Rightarrow> w3
               | Some r \<Rightarrow>
                   let w4 =
                         (if workInProgressRoot w3 = Some r
                          then (let w5 = markUnprocessedUpdateTime t w3
                                in if workInProgressRootExitStatus w5 = RootSuspendedWithDelay
                                   then record_call
                                          (MarkRootSuspendedAtTime r (renderExpirationTime w5)) w5
                                   else w5)
                          else w3)
                   in record_call (MarkRootUpdatedAtTime r t) w4)"
  have f: "fibers w' = fibers w3"
    by (simp add: w'_def fibers_record_call fibers_markUnprocessedUpdateTime Let_def
        split: option.splits)
  have res: "markUpdateTimeFromFiberToRoot fib t w = Some (root, w')"
    unfolding markUpdateTimeFromFiberToRoot_def w1_def [symmetric] Let_def
    unfolding w2_def [symmetric] run
    by (simp add: w'_def Let_def cong: option.case_cong if_cong)
  have r: "raised (fibers w) (fibers w3)"
    by (rule raised_trans [OF r2 r3])
  have "childPriorityInvariant w'"
    unfolding childPriorityInvariant_def f
  proof (intro allI impI)
    fix p d assume "descendant (fibers w3) p d"
    then have d: "descendant (fibers w) p d"
      by (rule raised_descendant_back [OF _ r])
    then have old: "expirationTime (fibers w d) \<le> childExpirationTime (fibers w p)"
      using inv by (simp add: childPriorityInvariant_def)
    have up: "childExpirationTime (fibers w p) \<le> childExpirationTime (fibers w3 p)"
      using r by (simp add: raised_def)
    show "expirationTime (fibers w3 d) \<le> childExpirationTime (fibers w3 p)"
    proof (cases "expirationTime (fibers w2 d) = expirationTime (fibers w d)")
      case True
      then show ?thesis
        using old up e3 by simp
    next
      case False
      then have s: "samePair (fibers w) fib d" and t: "expirationTime (fibers w2 d) = t"
        using e2 by blast+
      have "marked (fibers w) xs p"
        using ancestor_marked [OF ct rp d] s by blast
      then have "marked (fibers w2) xs p"
        using raised_marked [OF r2] by simp
      then show ?thesis
        using m3 e3 t by simp
    qed
  qed
  then show ?thesis
    using res by blast
qed

lemma siblingList_next:
  "siblingList fs c xs \<Longrightarrow> x \<in> set xs \<Longrightarrow> sibling (fs x) = Some r \<Longrightarrow> r \<in> set xs"
proof (induction xs arbitrary: c)
  case Nil
  then show ?case by simp
next
  case (Cons y ys)
  show ?case
  proof (cases "x = y")
    case True
    then have "siblingList fs (Some r) ys"
      using Cons.prems by simp
    then show ?thesis
      by (cases ys) simp_all
  next
    case False
    then show ?thesis
      using Cons by auto
  qed
qed

lemma childOf_siblingList:
  assumes "childOf fs p c" and "siblingList fs (child (fs p)) cs"
  shows "c \<in> set cs"
  using assms
proof (induction rule: childOf.induct)
  case (firstChild p c)
  then show ?case by (cases cs) simp_all
next
  case (nextSibling p c s)
  then show ?case using siblingList_next by blast
qed

lemma bubbleExpirationTime_run:
  "siblingList (fibers w) c cs \<Longrightarrow>
   \<exists>n. bubbleExpirationTime w c acc = Some n \<and> acc \<le> n \<and>
     (\<forall>x\<in>set cs. expirationTime (fibers w x) \<le> n \<and> childExpirationTime (fibers w x) \<le> n)"
proof (induction cs arbitrary: c acc)
  case Nil
  then show ?case
    by (subst bubbleExpirationTime.simps) simp
next
  case (Cons x xs)
  let ?n1 = "if expirationTime (fibers w x) > acc then expirationTime (fibers w x) else acc"
  let ?n2 = "if childExpirationTime (fibers w x) > ?n1 then childExpirationTime (fibers w x)
             else ?n1"
  have c: "c = Some x" and rest: "siblingList (fibers w) (sibling (fibers w x)) xs"
    using Cons.prems by simp_all
  from Cons.IH [OF rest, of ?n2] obtain n where
    n: "bubbleExpirationTime w (sibling (fibers w x)) ?n2 = Some n" "?n2 \<le> n"
    "\<forall>y\<in>set xs. expirationTime (fibers w y) \<le> n \<and> childExpirationTime (fibers w y) \<le> n"
    by blast
  have "bubbleExpirationTime w (Some x) acc = Some n"
    by (subst bubbleExpirationTime.simps) (simp add: Let_def n(1))
  moreover have "acc \<le> n" "expirationTime (fibers w x) \<le> n"
    "childExpirationTime (fibers w x) \<le> n"
    using n(2) by (simp_all split: if_splits)
  ultimately show ?case
    using n(3) c by simp
qed

lemma bubbleProfiled_run:
  "siblingList (fibers w) c cs \<Longrightarrow>
   \<exists>n ad tbd. bubbleProfiled w b c acc = Some (n, ad, tbd) \<and> fst acc \<le> n \<and>
     (\<forall>x\<in>set cs. expirationTime (fibers w x) \<le> n \<and> childExpirationTime (fibers w x) \<le> n)"
proof (induction cs arbitrary: c acc)
  case Nil
  then show ?case
    by (subst bubbleProfiled.simps) (cases acc, simp)
next
  case (Cons x xs)
  let ?n1 = "if expirationTime (fibers w x) > fst acc then expirationTime (fibers w x)
             else fst acc"
  let ?n2 = "if childExpirationTime (fibers w x) > ?n1 then childExpirationTime (fibers w x)
             else ?n1"
  let ?acc = "(?n2, (if b then fst (snd acc) + actualDuration (fibers w x) else fst (snd acc)),
               snd (snd acc) + treeBaseDuration (fibers w x))"
  have c: "c = Some x" and rest: "siblingList (fibers w) (sibling (fibers w x)) xs"
    using Cons.prems by simp_all
  from Cons.IH [OF rest, of ?acc] obtain n ad tbd where
    n: "bubbleProfiled w b (sibling (fibers w x)) ?acc = Some (n, ad, tbd)" "?n2 \<le> n"
    "\<forall>y\<in>set xs. expirationTime (fibers w y) \<le> n \<and> childExpirationTime (fibers w y) \<le> n"
    by auto
  have "bubbleProfiled w b (Some x) acc = Some (n, ad, tbd)"
    by (subst bubbleProfiled.simps) (simp add: Let_def n(1))
  moreover have "fst acc \<le> n" "expirationTime (fibers w x) \<le> n"
    "childExpirationTime (fibers w x) \<le> n"
    using n(2) by (simp_all split: if_splits)
  ultimately show ?case
    using n(3) c by simp
qed

lemma recomputed_invariant:
  assumes inv: "childPriorityInvariantExcept w cw"
    and sl: "siblingList (fibers w) (child (fibers w cw)) cs"
    and own: "cw \<notin> set cs"
    and n: "\<forall>x\<in>set cs. expirationTime (fibers w x) \<le> n \<and> childExpirationTime (fibers w x) \<le> n"
    and same: "\<And>m. child (fibers w' m) = child (fibers w m) \<and>
                 sibling (fibers w' m) = sibling (fibers w m)"
    and exps: "\<And>m. expirationTime (fibers w' m) = expirationTime (fibers w m)"
    and others: "\<And>m. m \<noteq> cw \<Longrightarrow>
                 childExpirationTime (fibers w' m) = childExpirationTime (fibers w m)"
    and cw: "childExpirationTime (fibers w' cw) = n"
  shows "childPriorityInvariant w'"
  unfolding childPriorityInvariant_def
proof (intro allI impI)
  fix p d assume "descendant (fibers w') p d"
  then have d: "descendant (fibers w) p d"
    using same by (rule descendant_same)
  show "expirationTime (fibers w' d) \<le> childExpirationTime (fibers w' p)"
  proof (cases "p = cw")
    case False
    then have "expirationTime (fibers w d) \<le> childExpirationTime (fibers w p)"
      using inv d by (simp add: childPriorityInvariantExcept_def)
    then show ?thesis
      using False exps others by simp
  next
    case True
    from descendant_first [OF d] show ?thesis
    proof
      assume "childOf (fibers w) p d"
      then have "d \<in> set cs"
        using sl True childOf_siblingList by blast
      then show ?thesis
        using n exps cw True by simp
    next
      assume "\<exists>c. childOf (fibers w) p c \<and> descendant (fibers w) c d"
      then obtain c where c: "childOf (fibers w) p c" "descendant (fibers w) c d"
        by blast
      have m: "c \<in> set cs"
        using sl True c(1) childOf_siblingList by blast
      then have "childExpirationTime (fibers w c) \<le> n"
        using n by simp
      moreover have "c \<noteq> cw"
        using m own by blast
      then have "expirationTime (fibers w d) \<le> childExpirationTime (fibers w c)"
        using inv c(2) by (simp add: childPriorityInvariantExcept_def)
      ultimately show ?thesis
        using exps cw True by simp
    qed
  qed
qed

lemma resetChildExpirationTime_recomputes:
  assumes inv: "childPriorityInvariantExcept w cw"
    and sl: "siblingList (fibers w) (child (fibers w cw)) cs"
    and own: "cw \<notin> set cs"
    and hidden: "\<not> (renderExpirationTime w \<noteq> Never E \<and>
                   childExpirationTime (fibers w cw) = Never E)"
  shows "\<exists>w'. resetChildExpirationTime E prof cw w = Some w' \<and> childPriorityInvariant w'"
proof (cases "prof \<and> (mode (fibers w cw) AND ProfileMode) \<noteq> NoMode")
  case True
  let ?b = "case alternate (fibers w cw) of
              None \<Rightarrow> True
            | Some a \<Rightarrow> child (fibers w cw) \<noteq> child (fibers w a)"
  from bubbleProfiled_run [OF sl, of ?b
      "(NoWork E, actualDuration (fibers w cw), selfBaseDuration (fibers w cw))"]
  obtain n ad tbd where
    run: "bubbleProfiled w ?b (child (fibers w cw))
            (NoWork E, actualDuration (fibers w cw), selfBaseDuration (fibers w cw)) =
          Some (n, ad, tbd)"
    and n: "\<forall>x\<in>set cs. expirationTime (fibers w x) \<le> n \<and>
              childExpirationTime (fibers w x) \<le> n"
    by blast
  let ?w' = "setFiber cw (\<lambda>f. f\<lparr>actualDuration := ad, treeBaseDuration := tbd,
                                childExpirationTime := n\<rparr>) w"
  have "childPriorityInvariant ?w'"
    by (rule recomputed_invariant [OF inv sl own n]) (simp_all add: setFiber_def)
  moreover have "resetChildExpirationTime E prof cw w = Some ?w'"
    unfolding resetChildExpirationTime_def Let_def
    by (simp only: hidden True if_True if_False run option.case prod.case simp_thms)
  ultimately show ?thesis
    by blast
next
  case False
  from bubbleExpirationTime_run [OF sl, of "NoWork E"] obtain n where
    run: "bubbleExpirationTime w (child (fibers w cw)) (NoWork E) = Some n"
    and n: "\<forall>x\<in>set cs. expirationTime (fibers w x) \<le> n \<and>
              childExpirationTime (fibers w x) \<le> n"
    by blast
  let ?w' = "setFiber cw (\<lambda>f. f\<lparr>childExpirationTime := n\<rparr>) w"
  have "childPriorityInvariant ?w'"
    by (rule recomputed_invariant [OF inv sl own n]) (simp_all add: setFiber_def)
  moreover have "resetChildExpirationTime E prof cw w = Some ?w'"
    unfolding resetChildExpirationTime_def Let_def
    by (simp only: hidden False if_True if_False run option.case simp_thms)
  ultimately show ?thesis
    by blast
qed

text \<open>C5. On a fiber tree whose \<open>return\<close> pointers agree with its child lists,
  \<open>markUpdateTimeFromFiberToRoot\<close> returns and keeps the invariant that the
  \<open>childExpirationTime\<close> of every fiber is at least the \<open>expirationTime\<close> of each of its
  descendants. \<open>resetChildExpirationTime\<close> returns and establishes the invariant at the
  completed fiber from its children, when the invariant holds at every other fiber and
  the completed fiber is not hidden (its \<open>childExpirationTime\<close> is not \<open>Never\<close>, or the
  render is at \<open>Never\<close>). For a hidden completed fiber it returns the world as it is.\<close>

theorem childExpirationTime_invariant_preserved:
  assumes "consistentTree (fibers w)"
    and "returnPath (fibers w) (return (fibers w fib)) xs"
    and "siblingList (fibers w) (child (fibers w completedWork)) cs"
    and "completedWork \<notin> set cs"
  shows "(childPriorityInvariant w \<longrightarrow>
            (\<exists>root w'. markUpdateTimeFromFiberToRoot fib t w = Some (root, w') \<and>
               childPriorityInvariant w')) \<and>
         (childPriorityInvariantExcept w completedWork \<and>
          (renderExpirationTime w = Never E \<or>
           childExpirationTime (fibers w completedWork) \<noteq> Never E) \<longrightarrow>
            (\<exists>w'. resetChildExpirationTime E prof completedWork w = Some w' \<and>
               childPriorityInvariant w')) \<and>
         (renderExpirationTime w \<noteq> Never E \<and>
          childExpirationTime (fibers w completedWork) = Never E \<longrightarrow>
            resetChildExpirationTime E prof completedWork w = Some w)"
proof (intro conjI impI)
  assume "childPriorityInvariant w"
  then show "\<exists>root w'. markUpdateTimeFromFiberToRoot fib t w = Some (root, w') \<and>
               childPriorityInvariant w'"
    using assms(1,2) by (rule markUpdateTimeFromFiberToRoot_invariant)
next
  assume a: "childPriorityInvariantExcept w completedWork \<and>
          (renderExpirationTime w = Never E \<or>
           childExpirationTime (fibers w completedWork) \<noteq> Never E)"
  then have "\<not> (renderExpirationTime w \<noteq> Never E \<and>
                   childExpirationTime (fibers w completedWork) = Never E)"
    by blast
  with a assms(3,4)
  show "\<exists>w'. resetChildExpirationTime E prof completedWork w = Some w' \<and>
               childPriorityInvariant w'"
    by (blast intro: resetChildExpirationTime_recomputes)
next
  assume "renderExpirationTime w \<noteq> Never E \<and>
          childExpirationTime (fibers w completedWork) = Never E"
  then show "resetChildExpirationTime E prof completedWork w = Some w"
    by (simp add: resetChildExpirationTime_def)
qed

lemma treeWorld_fibers:
  "fibers treeWorld n =
     (if n = 0 then sampleFiber\<lparr>stateNode := Some 0, child := Some 2, alternate := Some 1,
                childExpirationTime := 5\<rparr>
      else if n = 1 then sampleFiber\<lparr>stateNode := Some 0, child := Some 3, alternate := Some 0,
                childExpirationTime := 5\<rparr>
      else if n = 2 then sampleFiber\<lparr>tag := ClassComponent, return := Some 0,
                alternate := Some 3, expirationTime := 5\<rparr>
      else if n = 3 then sampleFiber\<lparr>tag := ClassComponent, return := Some 1,
                alternate := Some 2, expirationTime := 5\<rparr>
      else sampleFiber)"
  by (simp add: treeWorld_def emptyWorld_def)

lemma treeWorld_childOf:
  "childOf (fibers treeWorld) p c \<Longrightarrow> (p = 0 \<and> c = 2) \<or> (p = 1 \<and> c = 3)"
proof (induction rule: childOf.induct)
  case (firstChild p c)
  then show ?case
    by (simp add: treeWorld_fibers sampleFiber_def FiberNode_def split: if_splits)
next
  case (nextSibling p c s)
  then show ?case
    by (simp add: treeWorld_fibers sampleFiber_def FiberNode_def split: if_splits)
qed

lemma treeWorld_descendant:
  "descendant (fibers treeWorld) p d \<Longrightarrow> (p = 0 \<and> d = 2) \<or> (p = 1 \<and> d = 3)"
proof (induction rule: descendant.induct)
  case (direct p c)
  then show ?case by (rule treeWorld_childOf)
next
  case (deeper p c d)
  then show ?case using treeWorld_childOf [of c d] by auto
qed

lemma treeWorld_invariant: "childPriorityInvariant treeWorld"
  unfolding childPriorityInvariant_def
proof (intro allI impI)
  fix p d assume "descendant (fibers treeWorld) p d"
  from treeWorld_descendant [OF this]
  show "expirationTime (fibers treeWorld d) \<le> childExpirationTime (fibers treeWorld p)"
    by (auto simp: treeWorld_fibers)
qed

lemma treeWorld_consistent: "consistentTree (fibers treeWorld)"
  unfolding consistentTree_def
proof (intro conjI allI impI)
  fix n a assume "alternate (fibers treeWorld n) = Some a"
  then have na: "(n = 0 \<and> a = 1) \<or> (n = 1 \<and> a = 0) \<or> (n = 2 \<and> a = 3) \<or> (n = 3 \<and> a = 2)"
    by (simp add: treeWorld_fibers sampleFiber_def FiberNode_def split: if_splits)
  from na show "alternate (fibers treeWorld a) = Some n"
    by (auto simp: treeWorld_fibers)
  from na show "case (return (fibers treeWorld n), return (fibers treeWorld a)) of
            (None, None) \<Rightarrow> True
          | (Some r, Some r') \<Rightarrow> samePair (fibers treeWorld) r r'
          | _ \<Rightarrow> False"
    by (auto simp: treeWorld_fibers samePair_def sampleFiber_def FiberNode_def)
next
  fix p c assume "childOf (fibers treeWorld) p c"
  from treeWorld_childOf [OF this]
  show "case return (fibers treeWorld c) of None \<Rightarrow> False
        | Some r \<Rightarrow> samePair (fibers treeWorld) r p"
    by (auto simp: treeWorld_fibers samePair_def)
qed

theorem childExpirationTime_invariant_preserved_witness:
  "childPriorityInvariant treeWorld \<and> consistentTree (fibers treeWorld) \<and>
   childExpirationTime (fibers treeWorld 1) \<noteq> Never sampleTimes \<and>
   (\<exists>root w'. markUpdateTimeFromFiberToRoot 2 10 treeWorld = Some (root, w') \<and>
      childPriorityInvariant w') \<and>
   (\<exists>w'. resetChildExpirationTime sampleTimes False 1 treeWorld = Some w' \<and>
      childPriorityInvariant w')"
proof -
  have r: "returnPath (fibers treeWorld) (return (fibers treeWorld 2)) [0]"
    by (simp add: treeWorld_fibers sampleFiber_def FiberNode_def)
  have s: "siblingList (fibers treeWorld) (child (fibers treeWorld 1)) [3]"
    by (simp add: treeWorld_fibers sampleFiber_def FiberNode_def)
  have n: "childExpirationTime (fibers treeWorld 1) \<noteq> Never sampleTimes"
    by (simp add: treeWorld_fibers sampleTimes_def)
  have e: "childPriorityInvariantExcept treeWorld 1"
    using treeWorld_invariant
    by (simp add: childPriorityInvariant_def childPriorityInvariantExcept_def)
  have o: "(1::nat) \<notin> set [3]"
    by simp
  show ?thesis
    using childExpirationTime_invariant_preserved
      [OF treeWorld_consistent r s o, of 10 sampleTimes False]
      treeWorld_invariant treeWorld_consistent n e
    by simp
qed

lemma hiddenWorld_fibers:
  "fibers hiddenWorld n =
     (if n = 1 then (fibers treeWorld 1)\<lparr>childExpirationTime := Never sampleTimes\<rparr>
      else fibers treeWorld n)"
  by (simp add: hiddenWorld_def)

lemma hiddenWorld_descendant:
  assumes "descendant (fibers hiddenWorld) p d"
  shows "(p = 0 \<and> d = 2) \<or> (p = 1 \<and> d = 3)"
proof -
  have "descendant (fibers treeWorld) p d"
    using assms by (rule descendant_same) (simp add: hiddenWorld_fibers)
  then show ?thesis
    by (rule treeWorld_descendant)
qed

text \<open>For a hidden completed fiber \<open>resetChildExpirationTime\<close> returns at once: its
  \<open>childExpirationTime\<close> stays \<open>Never\<close>, below the \<open>expirationTime\<close> of its child.\<close>

theorem resetChildExpirationTime_hidden_counterexample:
  "childPriorityInvariantExcept hiddenWorld 1 \<and>
   resetChildExpirationTime sampleTimes False 1 hiddenWorld = Some hiddenWorld \<and>
   descendant (fibers hiddenWorld) 1 3 \<and>
   childExpirationTime (fibers hiddenWorld 1) < expirationTime (fibers hiddenWorld 3) \<and>
   \<not> childPriorityInvariant hiddenWorld"
proof -
  have e: "childPriorityInvariantExcept hiddenWorld 1"
    unfolding childPriorityInvariantExcept_def
  proof (intro allI impI)
    fix p d assume "p \<noteq> 1" and "descendant (fibers hiddenWorld) p d"
    then have "p = 0 \<and> d = 2"
      using hiddenWorld_descendant by blast
    then show "expirationTime (fibers hiddenWorld d) \<le> childExpirationTime (fibers hiddenWorld p)"
      by (simp add: hiddenWorld_fibers treeWorld_fibers)
  qed
  have r: "resetChildExpirationTime sampleTimes False 1 hiddenWorld = Some hiddenWorld"
    by (simp add: resetChildExpirationTime_def hiddenWorld_def sampleTimes_def)
  have "child (fibers hiddenWorld 1) = Some 3"
    by (simp add: hiddenWorld_fibers treeWorld_fibers)
  then have "childOf (fibers hiddenWorld) 1 3"
    by (rule childOf.firstChild)
  then have d: "descendant (fibers hiddenWorld) 1 3"
    by (rule descendant.direct)
  have l: "childExpirationTime (fibers hiddenWorld 1) < expirationTime (fibers hiddenWorld 3)"
    by (simp add: hiddenWorld_fibers treeWorld_fibers sampleTimes_def)
  have "\<not> childPriorityInvariant hiddenWorld"
    using d l unfolding childPriorityInvariant_def by fastforce
  then show ?thesis
    using e r d l by simp
qed


section \<open>Errors thrown in a commit phase\<close>

subsection \<open>What the steps of a phase and the capture of an error leave in place\<close>

lemma sameLinks_refl: "sameLinks w w"
  by (simp add: sameLinks_def)

lemma sameLinks_trans: "sameLinks a b \<Longrightarrow> sameLinks b c \<Longrightarrow> sameLinks a c"
  by (simp add: sameLinks_def)

lemma sameLinks_record_call: "sameLinks w (record_call c w)"
  by (simp add: sameLinks_def record_call_def)

lemma sameLinks_returnPath: "sameLinks w w' \<Longrightarrow> returnPath (fibers w) c xs \<Longrightarrow> returnPath (fibers w') c xs"
  by (induction xs arbitrary: c) (simp_all add: sameLinks_def)

lemma sameLinks_effectPath: "sameLinks w w' \<Longrightarrow> effectPath (fibers w) c xs \<Longrightarrow> effectPath (fibers w') c xs"
  by (induction xs arbitrary: c) (simp_all add: sameLinks_def)

lemma sameLinks_call: "sameLinks w (record_call c v) = sameLinks w v"
  by (simp add: sameLinks_def record_call_def)

lemma sameLinks_tag:
  "sameLinks w (setFiber n (\<lambda>f. f\<lparr>effectTag := g f\<rparr>) v) = sameLinks w v"
  by (auto simp: sameLinks_def setFiber_def)

lemma sameLinks_passive: "sameLinks w (v\<lparr>rootDoesHavePassiveEffects := b\<rparr>) = sameLinks w v"
  by (simp add: sameLinks_def)

lemma keeps_invoke: "sameLinks w v \<Longrightarrow> keeps w (invoke throws c v)"
  by (simp add: keeps_def invoke_def sameLinks_call)

lemma keeps_pure: "sameLinks w v \<Longrightarrow> keeps w (None, v)"
  by (simp add: keeps_def)

lemma keeps_thenDo:
  "keeps w r \<Longrightarrow> (\<And>v. sameLinks w v \<Longrightarrow> keeps w (f v)) \<Longrightarrow> keeps w (thenDo r f)"
  by (cases r) (auto simp: keeps_def thenDo_def split: option.splits)

lemma keeps_if: "(c \<Longrightarrow> keeps w a) \<Longrightarrow> (\<not> c \<Longrightarrow> keeps w b) \<Longrightarrow> keeps w (if c then a else b)"
  by simp

lemma keeps_option:
  "(x = None \<Longrightarrow> keeps w a) \<Longrightarrow> (\<And>y. x = Some y \<Longrightarrow> keeps w (b y)) \<Longrightarrow>
   keeps w (case x of None \<Rightarrow> a | Some y \<Rightarrow> b y)"
  by (cases x) simp_all

lemma keeps_before: "keeps w (commitBeforeMutationEffectsOn throws n w)"
  unfolding commitBeforeMutationEffectsOn_def Let_def
  by (intro keeps_thenDo keeps_if keeps_invoke keeps_pure keeps_option
      | simp add: sameLinks_call sameLinks_passive sameLinks_tag sameLinks_refl)+

lemma keeps_layout: "keeps w (commitLayoutEffectsOn throws n w)"
  unfolding commitLayoutEffectsOn_def Let_def
  by (intro keeps_thenDo keeps_if keeps_invoke keeps_pure keeps_option
      | simp add: sameLinks_call sameLinks_passive sameLinks_tag sameLinks_refl)+

lemma keeps_mutation: "keeps w (commitMutationEffectsOn throws n w)"
  unfolding commitMutationEffectsOn_def Let_def
  by (intro keeps_thenDo keeps_if keeps_invoke keeps_pure keeps_option
      | simp add: sameLinks_call sameLinks_passive sameLinks_tag sameLinks_refl)+

lemma sameLinks_effectsOn: "sameLinks w (snd (effectsOn ph throws n w))"
  using keeps_before keeps_mutation keeps_layout by (cases ph) (simp_all add: keeps_def)


lemma sameLinks_updateQueue:
  "sameLinks w (setFiber n (\<lambda>f. f\<lparr>updateQueue := x\<rparr>) v) = sameLinks w v"
  by (auto simp: sameLinks_def setFiber_def)

lemma sameLinks_newQueue: "sameLinks w (snd (newQueue q v)) = sameLinks w v"
  by (simp add: sameLinks_def newQueue_def)

lemma sameLinks_setQueue: "sameLinks w (setQueue q f v) = sameLinks w v"
  by (simp add: sameLinks_def setQueue_def)

lemma sameLinks_setUpdate: "sameLinks w (setUpdate u f v) = sameLinks w v"
  by (simp add: sameLinks_def setUpdate_def)

lemma sameLinks_append: "sameLinks w (appendUpdateToQueue q u v) = sameLinks w v"
  by (simp add: appendUpdateToQueue_def sameLinks_setQueue sameLinks_setUpdate
      split: option.splits)

lemma sameLinks_enqueueUpdate: "sameLinks w (enqueueUpdate fib u w)"
  by (simp add: enqueueUpdate_def Let_def split_beta sameLinks_append sameLinks_setQueue
      sameLinks_updateQueue sameLinks_newQueue sameLinks_refl split: option.splits)

lemma sameLinks_newUpdate: "sameLinks w (snd (newUpdate u v)) = sameLinks w v"
  by (simp add: sameLinks_def newUpdate_def)

lemma sameLinks_capturedUpdate: "sameLinks w (snd (capturedUpdate E w b x e))"
  by (simp add: capturedUpdate_def createRootErrorUpdate_def createClassErrorUpdate_def
      sameLinks_newUpdate sameLinks_call sameLinks_refl)


lemma sameLinks_times:
  "sameLinks w (setFiber n (\<lambda>f. f\<lparr>expirationTime := x\<rparr>) v) = sameLinks w v"
  "sameLinks w (setFiber n (\<lambda>f. f\<lparr>childExpirationTime := x\<rparr>) v) = sameLinks w v"
  by (auto simp: sameLinks_def setFiber_def)

lemma sameLinks_markNode: "sameLinks w (markNode t n w)"
  by (simp add: markNode_def Let_def sameLinks_times sameLinks_refl split: option.splits)

lemma markUpdateTimeLoop_links:
  "returnPath (fibers w) node xs \<Longrightarrow>
   \<exists>root w'. markUpdateTimeLoop t node w = Some (root, w') \<and> sameLinks w w'"
proof (induction xs arbitrary: node w)
  case Nil
  then show ?case
    by (simp add: markUpdateTimeLoop_None sameLinks_refl)
next
  case (Cons x xs)
  let ?w1 = "markNode t x w"
  have node: "node = Some x" and rest: "returnPath (fibers w) (return (fibers w x)) xs"
    using Cons.prems by simp_all
  have l: "sameLinks w ?w1"
    by (rule sameLinks_markNode)
  have ret: "return (fibers ?w1 x) = return (fibers w x)"
    using l by (simp add: sameLinks_def)
  show ?case
  proof (cases "return (fibers ?w1 x) = None \<and> tag (fibers ?w1 x) = HostRoot")
    case True
    then show ?thesis
      using l unfolding node markUpdateTimeLoop_Some by simp
  next
    case False
    have "returnPath (fibers ?w1) (return (fibers ?w1 x)) xs"
      unfolding ret by (rule sameLinks_returnPath [OF l rest])
    from Cons.IH [OF this] obtain root w' where
      run: "markUpdateTimeLoop t (return (fibers ?w1 x)) ?w1 = Some (root, w')"
      and l2: "sameLinks ?w1 w'"
      by blast
    have "markUpdateTimeLoop t (Some x) w = Some (root, w')"
      by (subst markUpdateTimeLoop_Some) (simp only: False if_False run)
    then show ?thesis
      using sameLinks_trans [OF l l2] unfolding node by simp
  qed
qed

lemma sameLinks_unprocessed: "sameLinks w (markUnprocessedUpdateTime t v) = sameLinks w v"
  by (simp add: sameLinks_def markUnprocessedUpdateTime_def)

lemma markUpdateTimeFromFiberToRoot_links:
  assumes rp: "returnPath (fibers w) (return (fibers w fib)) xs"
  shows "\<exists>root w'. markUpdateTimeFromFiberToRoot fib t w = Some (root, w') \<and> sameLinks w w'"
proof -
  define w1 where "w1 = (if expirationTime (fibers w fib) < t
                then setFiber fib (\<lambda>f. f\<lparr>expirationTime := t\<rparr>) w else w)"
  define w2 where "w2 = (case alternate (fibers w1 fib) of
                  None \<Rightarrow> w1
                | Some a \<Rightarrow>
                    if expirationTime (fibers w1 a) < t
                    then setFiber a (\<lambda>f. f\<lparr>expirationTime := t\<rparr>) w1 else w1)"
  have l2: "sameLinks w w2"
    by (simp add: w2_def w1_def sameLinks_times sameLinks_refl split: option.splits)
  have ret: "return (fibers w2 fib) = return (fibers w fib)"
    using l2 by (simp add: sameLinks_def)
  have "\<exists>root w3.
      (if return (fibers w2 fib) = None \<and> tag (fibers w2 fib) = HostRoot
       then Some (stateNode (fibers w2 fib), w2)
       else markUpdateTimeLoop t (return (fibers w2 fib)) w2) = Some (root, w3) \<and>
      sameLinks w2 w3"
  proof (cases "return (fibers w2 fib) = None \<and> tag (fibers w2 fib) = HostRoot")
    case True
    then show ?thesis
      by (simp add: sameLinks_refl)
  next
    case False
    have "returnPath (fibers w2) (return (fibers w2 fib)) xs"
      unfolding ret by (rule sameLinks_returnPath [OF l2 rp])
    from markUpdateTimeLoop_links [OF this, of t] show ?thesis
      by (simp only: False if_False)
  qed
  then obtain root w3 where
    run: "(if return (fibers w2 fib) = None \<and> tag (fibers w2 fib) = HostRoot
       then Some (stateNode (fibers w2 fib), w2)
       else markUpdateTimeLoop t (return (fibers w2 fib)) w2) = Some (root, w3)"
    and l3: "sameLinks w2 w3"
    by blast
  define w' where "w' = (case root of
                 None \<Rightarrow> w3
               | Some r \<Rightarrow>
                   let w4 =
                         (if workInProgressRoot w3 = Some r
                          then (let w5 = markUnprocessedUpdateTime t w3
                                in if workInProgressRootExitStatus w5 = RootSuspendedWithDelay
                                   then record_call
                                          (MarkRootSuspendedAtTime r (renderExpirationTime w5)) w5
                                   else w5)
                          else w3)
                   in record_call (MarkRootUpdatedAtTime r t) w4)"
  have "sameLinks w w3"
    by (rule sameLinks_trans [OF l2 l3])
  then have f: "sameLinks w w'"
    by (simp add: w'_def Let_def sameLinks_call sameLinks_unprocessed split: option.splits)
  have res: "markUpdateTimeFromFiberToRoot fib t w = Some (root, w')"
    unfolding markUpdateTimeFromFiberToRoot_def w1_def [symmetric] Let_def
    unfolding w2_def [symmetric] run
    by (simp add: w'_def Let_def cong: option.case_cong if_cong)
  show ?thesis
    using res f by blast
qed


lemma scheduleCapturedUpdate_links:
  assumes "returnPath (fibers w) (return (fibers w fib)) xs"
  shows "\<exists>w'. scheduleCapturedUpdate E fib u w = Some w' \<and> sameLinks w w'"
proof -
  let ?w1 = "enqueueUpdate fib u w"
  have l1: "sameLinks w ?w1"
    by (rule sameLinks_enqueueUpdate)
  then have "return (fibers ?w1 fib) = return (fibers w fib)"
    by (simp add: sameLinks_def)
  then have "returnPath (fibers ?w1) (return (fibers ?w1 fib)) xs"
    using sameLinks_returnPath [OF l1 assms] by simp
  from markUpdateTimeFromFiberToRoot_links [OF this, of "Sync E"]
  obtain root w2 where m: "markUpdateTimeFromFiberToRoot fib (Sync E) ?w1 = Some (root, w2)"
    and l2: "sameLinks ?w1 w2"
    by blast
  have "sameLinks w w2"
    by (rule sameLinks_trans [OF l1 l2])
  then show ?thesis
    by (simp add: scheduleCapturedUpdate_def m sameLinks_call split: option.splits)
qed

lemma captureCommitPhaseErrorLoop_find:
  "returnPath (fibers w) c rs \<Longrightarrow>
   captureCommitPhaseErrorLoop E B x e c w =
     (case find (canCapture B w) rs of
        None \<Rightarrow> Some w
      | Some b \<Rightarrow>
          scheduleCapturedUpdate E b (fst (capturedUpdate E w b x e))
            (snd (capturedUpdate E w b x e)))"
proof (induction rs arbitrary: c)
  case Nil
  then show ?case
    by (subst captureCommitPhaseErrorLoop.simps) simp
next
  case (Cons f rs)
  then have c: "c = Some f" and rest: "returnPath (fibers w) (return (fibers w f)) rs"
    by simp_all
  note ih = Cons.IH [OF rest]
  show ?case
  proof (cases "canCapture B w f")
    case True
    then show ?thesis
      unfolding c
      by (subst captureCommitPhaseErrorLoop.simps)
        (auto simp: canCapture_def capturedUpdate_def captureCommitPhaseErrorOnRoot_def
          split_beta)
  next
    case False
    then have "captureCommitPhaseErrorLoop E B x e (Some f) w =
        captureCommitPhaseErrorLoop E B x e (return (fibers w f)) w"
      by (subst captureCommitPhaseErrorLoop.simps) (auto simp: canCapture_def)
    then show ?thesis
      unfolding c using False by (simp add: ih)
  qed
qed

lemma captureCommitPhaseError_find:
  assumes "returnPath (fibers w) (return (fibers w x)) rs"
  shows "captureCommitPhaseError E B x e w =
     (case capturingFiber B w x rs of
        None \<Rightarrow> Some w
      | Some b \<Rightarrow>
          scheduleCapturedUpdate E b (fst (capturedUpdate E w b x e))
            (snd (capturedUpdate E w b x e)))"
  by (simp add: captureCommitPhaseError_def capturingFiber_def
      captureCommitPhaseErrorLoop_find [OF assms] captureCommitPhaseErrorOnRoot_def
      capturedUpdate_def split_beta)

lemma returnPath_suffix:
  "returnPath fs c rs \<Longrightarrow> b \<in> set rs \<Longrightarrow> \<exists>rs'. returnPath fs (return (fs b)) rs'"
proof (induction rs arbitrary: c)
  case Nil
  then show ?case by simp
next
  case (Cons f rs)
  then show ?case
    by (cases "b = f") auto
qed

lemma captureCommitPhaseError_links:
  assumes rp: "returnPath (fibers w) (return (fibers w x)) rs"
  shows "\<exists>w'. captureCommitPhaseError E B x e w = Some w' \<and> sameLinks w w'"
proof (cases "capturingFiber B w x rs")
  case None
  then show ?thesis
    by (simp add: captureCommitPhaseError_find [OF rp] sameLinks_refl)
next
  case (Some b)
  let ?w1 = "snd (capturedUpdate E w b x e)"
  have "b = x \<or> b \<in> set rs"
    using Some by (auto simp: capturingFiber_def find_Some_iff split: if_splits)
  then obtain rs' where "returnPath (fibers w) (return (fibers w b)) rs'"
    using rp returnPath_suffix by blast
  moreover have l1: "sameLinks w ?w1"
    by (rule sameLinks_capturedUpdate)
  ultimately have "returnPath (fibers ?w1) (return (fibers ?w1 b)) rs'"
    using sameLinks_returnPath [OF l1] by (simp add: sameLinks_def)
  from scheduleCapturedUpdate_links [OF this, of E "fst (capturedUpdate E w b x e)"]
  obtain w' where "scheduleCapturedUpdate E b (fst (capturedUpdate E w b x e)) ?w1 = Some w'"
    and "sameLinks ?w1 w'"
    by blast
  then show ?thesis
    using sameLinks_trans [OF l1] by (simp add: captureCommitPhaseError_find [OF rp] Some)
qed

lemma rootedPath_cursor [simp]:
  "rootedPath (w\<lparr>nextEffect_g := c\<rparr>) x rs = rootedPath w x rs"
  by (simp add: rootedPath_def)

lemma sameLinks_rootedPath:
  assumes "sameLinks w w'" and "rootedPath w x rs"
  shows "rootedPath w' x rs"
  using sameLinks_returnPath [OF assms(1)] assms by (simp add: rootedPath_def sameLinks_def)

lemma rootedPath_captured:
  assumes "rootedPath w x rs"
  shows "\<exists>b. capturingFiber B w x rs = Some b"
proof (cases "tag (fibers w x) = HostRoot")
  case True
  then show ?thesis
    by (simp add: capturingFiber_def)
next
  case False
  then have "rs \<noteq> []" and "tag (fibers w (last rs)) = HostRoot"
    using assms by (auto simp: rootedPath_def split: if_splits)
  then have "last rs \<in> set rs" and "canCapture B w (last rs)"
    by (simp_all add: canCapture_def)
  then have "find (canCapture B w) rs \<noteq> None"
    by (auto simp: find_None_iff)
  then show ?thesis
    using False by (auto simp: capturingFiber_def)
qed

lemma captureCommitPhaseError_contained:
  assumes r: "rootedPath w x rs"
  shows "\<exists>b w'. capturingFiber B w x rs = Some b \<and>
           scheduleCapturedUpdate E b (fst (capturedUpdate E w b x e))
             (snd (capturedUpdate E w b x e)) = Some w' \<and>
           captureCommitPhaseError E B x e w = Some w' \<and> sameLinks w w'"
proof -
  have rp: "returnPath (fibers w) (return (fibers w x)) rs"
    using r by (simp add: rootedPath_def)
  obtain b where b: "capturingFiber B w x rs = Some b"
    using rootedPath_captured [OF r] by blast
  obtain w' where "captureCommitPhaseError E B x e w = Some w'" and "sameLinks w w'"
    using captureCommitPhaseError_links [OF rp] by blast
  then show ?thesis
    using captureCommitPhaseError_find [OF rp, of E B e] b by simp
qed

lemma commitPhaseLoop_None:
  "nextEffect_g w = None \<Longrightarrow> commitPhaseLoop E B ph throws w = Some (None, w)"
  by (subst commitPhaseLoop.simps, subst commitEffects.simps) simp

lemma commitPhaseLoop_step:
  assumes n: "nextEffect_g w = Some x" and r: "rootedPath w x rs"
  shows "\<exists>w'. containedEffect E B ph throws (x, rs) w = Some w' \<and>
           commitPhaseLoop E B ph throws w = commitPhaseLoop E B ph throws w' \<and>
           sameLinks (w\<lparr>nextEffect_g := nextEffect (fibers w x)\<rparr>) w'"
proof (cases "effectsOn ph throws x w")
  case (Pair res w1)
  have l1: "sameLinks w w1"
    using sameLinks_effectsOn [of w ph throws x] Pair by simp
  then have g: "nextEffect_g w1 = Some x"
    and x1: "nextEffect (fibers w1 x) = nextEffect (fibers w x)"
    using n by (simp_all add: sameLinks_def)
  show ?thesis
  proof (cases res)
    case None
    let ?w2 = "w1\<lparr>nextEffect_g := nextEffect (fibers w x)\<rparr>"
    have a: "commitEffects ph throws w = commitEffects ph throws ?w2"
      by (subst commitEffects.simps) (simp add: n Pair None g x1)
    have "commitPhaseLoop E B ph throws w = commitPhaseLoop E B ph throws ?w2"
      by (subst commitPhaseLoop.simps, subst a, subst (2) commitPhaseLoop.simps) simp
    moreover have "sameLinks (w\<lparr>nextEffect_g := nextEffect (fibers w x)\<rparr>) ?w2"
      using l1 by (simp add: sameLinks_def)
    ultimately show ?thesis
      by (simp add: containedEffect_def Pair None)
  next
    case (Some e)
    have a: "commitEffects ph throws w = Some (Some e, w1)"
      by (subst commitEffects.simps) (simp add: n Pair Some)
    from captureCommitPhaseError_contained [OF sameLinks_rootedPath [OF l1 r], of B E e]
    obtain b w2 where b: "capturingFiber B w1 x rs = Some b"
      and s: "scheduleCapturedUpdate E b (fst (capturedUpdate E w1 b x e))
                (snd (capturedUpdate E w1 b x e)) = Some w2"
      and c: "captureCommitPhaseError E B x e w1 = Some w2" and l2: "sameLinks w1 w2"
      by blast
    have x2: "nextEffect (fibers w2 x) = nextEffect (fibers w x)"
      using l2 x1 by (simp add: sameLinks_def)
    let ?w3 = "w2\<lparr>nextEffect_g := nextEffect (fibers w x)\<rparr>"
    have "commitPhaseLoop E B ph throws w =
            (if nextEffect_g ?w3 \<noteq> None then commitPhaseLoop E B ph throws ?w3
             else Some (None, ?w3))"
      by (subst commitPhaseLoop.simps) (simp add: a g c x2 Let_def)
    also have "\<dots> = commitPhaseLoop E B ph throws ?w3"
      using commitPhaseLoop_None [of ?w3 E B ph throws] by auto
    finally have "commitPhaseLoop E B ph throws w = commitPhaseLoop E B ph throws ?w3" .
    moreover have "sameLinks (w\<lparr>nextEffect_g := nextEffect (fibers w x)\<rparr>) ?w3"
      using sameLinks_trans [OF l1 l2] by (simp add: sameLinks_def)
    ultimately show ?thesis
      by (simp add: containedEffect_def Pair Some b s split_beta)
  qed
qed

lemma commitPhaseLoop_contained:
  "effectPath (fibers w) (nextEffect_g w) (map fst xrs) \<Longrightarrow>
   list_all (\<lambda>xr. rootedPath w (fst xr) (snd xr)) xrs \<Longrightarrow>
   \<exists>w'. containedPhase E B ph throws xrs w = Some w' \<and>
        commitPhaseLoop E B ph throws w = Some (None, w') \<and> nextEffect_g w' = None"
proof (induction xrs arbitrary: w)
  case Nil
  then show ?case
    by (simp add: commitPhaseLoop_None)
next
  case (Cons xr xrs)
  obtain x rs where xr: "xr = (x, rs)"
    by (cases xr)
  have n: "nextEffect_g w = Some x"
    and rest: "effectPath (fibers w) (nextEffect (fibers w x)) (map fst xrs)"
    and r: "rootedPath w x rs"
    and rs: "list_all (\<lambda>xr. rootedPath w (fst xr) (snd xr)) xrs"
    using Cons.prems by (simp_all add: xr)
  let ?w0 = "w\<lparr>nextEffect_g := nextEffect (fibers w x)\<rparr>"
  from commitPhaseLoop_step [OF n r, of E B ph throws]
  obtain w1 where v: "containedEffect E B ph throws (x, rs) w = Some w1"
    and l: "commitPhaseLoop E B ph throws w = commitPhaseLoop E B ph throws w1"
    and s: "sameLinks ?w0 w1"
    by blast
  have "effectPath (fibers ?w0) (nextEffect_g ?w0) (map fst xrs)"
    using rest by simp
  then have e1: "effectPath (fibers w1) (nextEffect_g w1) (map fst xrs)"
    using sameLinks_effectPath [OF s] s by (simp add: sameLinks_def)
  have r1: "list_all (\<lambda>xr. rootedPath w1 (fst xr) (snd xr)) xrs"
    using rs sameLinks_rootedPath [OF s] by (simp add: list_all_iff)
  from Cons.IH [OF e1 r1] obtain w' where
    "containedPhase E B ph throws xrs w1 = Some w'"
    "commitPhaseLoop E B ph throws w1 = Some (None, w')" "nextEffect_g w' = None"
    by blast
  then show ?case
    by (simp add: xr v l)
qed

text \<open>
  C7, commit-phase error containment. Let the module variable \<open>nextEffect\<close> be at the head
  of an effect list whose entries are \<open>map fst xrs\<close>, each entry \<open>x\<close> coming with its
  return path \<open>rs\<close>, which ends at a \<open>HostRoot\<close>. Then the \<open>do ... while\<close> loop that
  \<open>commitRootImpl\<close> runs around a phase (before mutation, mutation or layout) returns, with
  no error and with \<open>nextEffect\<close> at \<open>null\<close>, whatever calls throw on the way; and the
  world it returns is the one of \<open>containedPhase\<close>: every entry of the list has had its
  step, in the order of the list, and each error thrown by a step has been captured by the
  nearest ancestor of the entry that is a class component able to capture (its type has
  \<open>getDerivedStateFromError\<close>, or its instance has \<open>componentDidCatch\<close> and has not
  already failed), or by the root, with a captured update at \<open>Sync\<close> enqueued on that
  fiber and marked up to the root, after which the loop has gone on with the entry that
  follows.
\<close>

theorem commitPhaseLoop_contains_errors:
  assumes "effectPath (fibers w) (nextEffect_g w) (map fst xrs)"
    and "list_all (\<lambda>xr. rootedPath w (fst xr) (snd xr)) xrs"
  shows "\<exists>w'. containedPhase E B ph throws xrs w = Some w' \<and>
           commitPhaseLoop E B ph throws w = Some (None, w') \<and> nextEffect_g w' = None"
  using assms by (rule commitPhaseLoop_contained)

lemma commitWorld_list:
  "effectPath (fibers commitWorld) (nextEffect_g commitWorld) (map fst [(2, [1, 0]), (3, [1, 0])])"
  by code_simp

lemma commitWorld_rooted:
  "list_all (\<lambda>xr. rootedPath commitWorld (fst xr) (snd xr)) [(2, [1, 0]), (3, [1, 0])]"
  by code_simp

lemma commitWorld_calls:
  "map_option (\<lambda>r. (map fst (calls (snd r)), updateQueue (fibers (snd r) 1),
        firstUpdate (queues (snd r) 0), tag_u (updates (snd r) 0),
        expirationTime_u (updates (snd r) 0), expirationTime (fibers (snd r) 1)))
     (commitPhaseLoop sampleTimes sampleBoundaries Mutation throwingWork commitWorld) =
   Some ([CommitWork 2, CreateClassErrorUpdate 1 2 (Thrown 7),
          MarkRootUpdatedAtTime 0 1073741823, EnsureRootIsScheduled 0,
          SchedulePendingInteractions 0 1073741823, CommitWork 3],
         Some 0, Some 0, CaptureUpdate, 1073741823, 1073741823)"
  by code_simp

text \<open>In \<open>commitWorld\<close> \<open>commitWork\<close> throws on the fiber at address 2: the class component
  at address 1 gets a captured update at \<open>Sync\<close>, and \<open>commitWork\<close> is then called on the
  fiber at address 3.\<close>

theorem commitPhaseLoop_contains_errors_witness:
  "effectPath (fibers commitWorld) (nextEffect_g commitWorld)
     (map fst [(2, [1, 0]), (3, [1, 0])]) \<and>
   list_all (\<lambda>xr. rootedPath commitWorld (fst xr) (snd xr)) [(2, [1, 0]), (3, [1, 0])] \<and>
   (\<exists>w'. containedPhase sampleTimes sampleBoundaries Mutation throwingWork
            [(2, [1, 0]), (3, [1, 0])] commitWorld = Some w' \<and>
         commitPhaseLoop sampleTimes sampleBoundaries Mutation throwingWork commitWorld =
           Some (None, w') \<and>
         nextEffect_g w' = None) \<and>
   map_option (\<lambda>r. (map fst (calls (snd r)), updateQueue (fibers (snd r) 1),
        firstUpdate (queues (snd r) 0), tag_u (updates (snd r) 0),
        expirationTime_u (updates (snd r) 0), expirationTime (fibers (snd r) 1)))
     (commitPhaseLoop sampleTimes sampleBoundaries Mutation throwingWork commitWorld) =
   Some ([CommitWork 2, CreateClassErrorUpdate 1 2 (Thrown 7),
          MarkRootUpdatedAtTime 0 1073741823, EnsureRootIsScheduled 0,
          SchedulePendingInteractions 0 1073741823, CommitWork 3],
         Some 0, Some 0, CaptureUpdate, 1073741823, 1073741823)"
  using commitPhaseLoop_contains_errors [OF commitWorld_list commitWorld_rooted,
      where E = sampleTimes and B = sampleBoundaries and ph = Mutation
        and throws = throwingWork]
    commitWorld_list commitWorld_rooted commitWorld_calls
  by (intro conjI) assumption+

end
